(* ===== verification/Prelude.thy ===== *)
theory Prelude
  imports Main "HOL-Library.Sublist" "HOL-Library.List_Lexorder" "HOL-Library.Char_ord"
begin

text \<open>
  What every component of the development shares: the theorem collections the proofs draw
  on, the bind of Go's early returns (an \<open>error + 'a\<close> whose \<open>Inl\<close> ends the function), and
  list facts about updating, deleting and finding the rows of a table.
\<close>

named_theorems db_simps \<open>what an operation of the store leaves unchanged, and what it changes\<close>
named_theorems inv_intros \<open>operations keep the invariant of the state they work on\<close>
named_theorems str_simps \<open>evaluation of the string functions on known shapes\<close>

section \<open>Early returns\<close>

text \<open>\<open>if err != nil { return err }\<close>: the rest of the function runs on the value only.\<close>

definition bindE :: "'e + 'a \<Rightarrow> ('a \<Rightarrow> 'e + 'b) \<Rightarrow> 'e + 'b" where
  "bindE m f = (case m of Inl e \<Rightarrow> Inl e | Inr a \<Rightarrow> f a)"

lemma bindE_simps [simp]:
  "bindE (Inl e) f = Inl e"
  "bindE (Inr a) f = f a"
  by (simp_all add: bindE_def)

lemma bindE_InrD: "bindE m f = Inr b \<Longrightarrow> \<exists>a. m = Inr a \<and> f a = Inr b"
  by (cases m) auto

lemma bindE_assoc: "bindE (bindE m f) g = bindE m (\<lambda>a. bindE (f a) g)"
  by (cases m) auto

section \<open>Lists of rows\<close>

text \<open>\<open>update_where\<close> is the effect of an UPDATE on the rows that satisfy its WHERE.\<close>

definition update_where :: "('r \<Rightarrow> bool) \<Rightarrow> ('r \<Rightarrow> 'r) \<Rightarrow> 'r list \<Rightarrow> 'r list" where
  "update_where p f rs = map (\<lambda>r. if p r then f r else r) rs"

lemma update_where_Nil [simp]: "update_where p f [] = []"
  by (simp add: update_where_def)

lemma update_where_Cons [simp]:
  "update_where p f (r # rs) = (if p r then f r else r) # update_where p f rs"
  by (simp add: update_where_def)

lemma update_where_append [simp]:
  "update_where p f (xs @ ys) = update_where p f xs @ update_where p f ys"
  by (simp add: update_where_def)

lemma length_update_where [simp]: "length (update_where p f rs) = length rs"
  by (simp add: update_where_def)

lemma set_update_where:
  "set (update_where p f rs) = (\<lambda>r. if p r then f r else r) ` set rs"
  by (simp add: update_where_def)

lemma map_update_where:
  "(\<And>r. p r \<Longrightarrow> g (f r) = g r) \<Longrightarrow> map g (update_where p f rs) = map g rs"
  by (induction rs) auto

lemma image_update_where:
  "(\<And>r. p r \<Longrightarrow> g (f r) = g r) \<Longrightarrow> g ` set (update_where p f rs) = g ` set rs"
  by (induction rs) auto

lemma filter_other_keys: "distinct (map g (x # xs)) \<Longrightarrow> filter (\<lambda>y. g y \<noteq> g x) xs = xs"
  by (simp add: filter_id_conv) (metis imageI)

lemma update_where_id: "(\<And>r. r \<in> set rs \<Longrightarrow> p r \<Longrightarrow> f r = r) \<Longrightarrow> update_where p f rs = rs"
  by (induction rs) auto

lemma filter_update_where:
  assumes "\<And>r. r \<in> set rs \<Longrightarrow> p r \<Longrightarrow> q (f r) = q r"
  shows "filter q (update_where p f rs) = update_where p f (filter q rs)"
  using assms by (induction rs) auto

lemma filter_update_where_disjoint:
  assumes "\<And>r. r \<in> set rs \<Longrightarrow> p r \<Longrightarrow> \<not> q r" and "\<And>r. r \<in> set rs \<Longrightarrow> p r \<Longrightarrow> \<not> q (f r)"
  shows "filter q (update_where p f rs) = filter q rs"
  using assms by (induction rs) auto

lemma find_append: "find p (xs @ ys) = (case find p xs of None \<Rightarrow> find p ys | Some x \<Rightarrow> Some x)"
  by (induction xs) auto

lemma find_SomeD: "find p xs = Some x \<Longrightarrow> x \<in> set xs \<and> p x"
  by (induction xs) (auto split: if_splits)

lemma find_NoneD: "find p xs = None \<Longrightarrow> x \<in> set xs \<Longrightarrow> \<not> p x"
  by (induction xs) (auto split: if_splits)

lemma find_update_where:
  assumes "\<And>r. r \<in> set rs \<Longrightarrow> p r \<Longrightarrow> q (f r) = q r"
  shows "find q (update_where p f rs) = map_option (\<lambda>r. if p r then f r else r) (find q rs)"
  using assms by (induction rs) auto

lemma find_filter: "find p (filter q xs) = find (\<lambda>x. q x \<and> p x) xs"
  by (induction xs) auto

lemma find_cong_set: "(\<And>x. x \<in> set xs \<Longrightarrow> p x = q x) \<Longrightarrow> find p xs = find q xs"
  by (induction xs) auto

lemma find_unique:
  assumes "distinct (map g xs)" and "x \<in> set xs"
  shows "find (\<lambda>y. g y = g x) xs = Some x"
  using assms by (induction xs) (auto simp: image_iff)

lemma distinct_map_filter_subset: "distinct (map g xs) \<Longrightarrow> distinct (map g (filter p xs))"
  by (rule distinct_map_filter)

lemma fst_in_imageI: "(a, b) \<in> A \<Longrightarrow> a \<in> fst ` A"
  by force

lemma image_filter_subset:
  "g ` A \<subseteq> h ` B \<Longrightarrow> (\<And>a. a \<in> A \<Longrightarrow> p a = q (g a)) \<Longrightarrow> (\<And>b. b \<in> B \<Longrightarrow> r b = q (h b)) \<Longrightarrow>
     g ` {a \<in> A. p a} \<subseteq> h ` {b \<in> B. r b}"
  by fastforce

lemma length_filter_remove:
  assumes "distinct (map g xs)" and "x \<in> set xs"
  shows "length (filter q (filter (\<lambda>y. g y \<noteq> g x) xs)) + (if q x then 1 else 0) = length (filter q xs)"
  using assms
proof (induction xs)
  case (Cons y ys)
  show ?case
  proof (cases "y = x")
    case True
    then show ?thesis using Cons.prems filter_other_keys [of g x ys] by simp
  next
    case False
    then have "g y \<noteq> g x" using Cons.prems by (auto simp: image_iff)
    then show ?thesis using Cons False by auto
  qed
qed simp

lemma length_filter_key: "distinct (map g xs) \<Longrightarrow> length xs \<le> length (filter (\<lambda>y. g y \<noteq> k) xs) + 1"
proof (induction xs)
  case (Cons x xs)
  then have "filter (\<lambda>y. g y \<noteq> g x) xs = xs" by (rule_tac filter_other_keys) simp
  then show ?case using Cons by auto
qed simp

lemma distinct_map_eqD: "distinct (map g xs) \<Longrightarrow> x \<in> set xs \<Longrightarrow> y \<in> set xs \<Longrightarrow> g x = g y \<Longrightarrow> x = y"
  by (auto simp: distinct_map inj_on_def)

end
