(* ===== verification/Go_Strings.thy ===== *)
theory Go_Strings
  imports Prelude
begin

text \<open>
  The functions of Go's \<open>strings\<close>, \<open>strconv\<close> and \<open>bufio\<close> packages that the program
  calls, on byte strings: a Go string is a sequence of bytes and an Isabelle \<open>char\<close> is one
  byte. \<open>TrimSpace\<close> and \<open>Fields\<close> know Unicode's white space in its UTF-8 encoding;
  the case conversions are given for ASCII letters, other bytes unchanged.
\<close>

abbreviation LF :: char where "LF \<equiv> CHR 0x0A"
abbreviation CR :: char where "CR \<equiv> CHR 0x0D"

definition CRLF :: string where
  "CRLF = [CR, LF]"

section \<open>Prefixes, suffixes and search\<close>

definition HasPrefix :: "string \<Rightarrow> string \<Rightarrow> bool" where
  "HasPrefix s p = prefix p s"

definition HasSuffix :: "string \<Rightarrow> string \<Rightarrow> bool" where
  "HasSuffix s p = suffix p s"

definition TrimPrefix :: "string \<Rightarrow> string \<Rightarrow> string" where
  "TrimPrefix s p = (if HasPrefix s p then drop (length p) s else s)"

definition TrimSuffix :: "string \<Rightarrow> string \<Rightarrow> string" where
  "TrimSuffix s p = (if HasSuffix s p then take (length s - length p) s else s)"

text \<open>\<open>strings.Index\<close>: the first position of \<open>pat\<close>, \<open>None\<close> for Go's -1.\<close>

fun Index :: "string \<Rightarrow> string \<Rightarrow> nat option" where
  "Index [] pat = (if pat = [] then Some 0 else None)"
| "Index (c # s) pat =
     (if prefix pat (c # s) then Some 0 else map_option Suc (Index s pat))"

definition Contains :: "string \<Rightarrow> string \<Rightarrow> bool" where
  "Contains s pat = (Index s pat \<noteq> None)"

text \<open>\<open>strings.IndexAny\<close>, for a set of ASCII bytes.\<close>

fun IndexAny :: "string \<Rightarrow> string \<Rightarrow> nat option" where
  "IndexAny [] cs = None"
| "IndexAny (c # s) cs = (if c \<in> set cs then Some 0 else map_option Suc (IndexAny s cs))"

text \<open>\<open>strings.LastIndex\<close> of one byte.\<close>

fun LastIndexByte :: "string \<Rightarrow> char \<Rightarrow> nat option" where
  "LastIndexByte [] b = None"
| "LastIndexByte (c # s) b =
     (case LastIndexByte s b of Some i \<Rightarrow> Some (Suc i) | None \<Rightarrow> if c = b then Some 0 else None)"

text \<open>\<open>strings.ReplaceAll\<close> with a non-empty pattern.\<close>

fun ReplaceAll :: "string \<Rightarrow> string \<Rightarrow> string \<Rightarrow> string" where
  "ReplaceAll s pat new =
     (if pat = [] then s
      else case s of [] \<Rightarrow> []
        | c # s' \<Rightarrow> if prefix pat s then new @ ReplaceAll (drop (length pat) s) pat new
                    else c # ReplaceAll s' pat new)"

declare ReplaceAll.simps [simp del]

section \<open>Splitting and joining\<close>

text \<open>\<open>strings.Split\<close> at one byte, and \<open>strings.SplitN\<close> with a limit.\<close>

fun Split :: "string \<Rightarrow> char \<Rightarrow> string list" where
  "Split [] b = [[]]"
| "Split (c # s) b =
     (if c = b then [] # Split s b
      else case Split s b of [] \<Rightarrow> [[c]] | p # ps \<Rightarrow> (c # p) # ps)"

fun SplitN :: "string \<Rightarrow> char \<Rightarrow> nat \<Rightarrow> string list" where
  "SplitN s b 0 = []"
| "SplitN s b (Suc 0) = [s]"
| "SplitN s b (Suc n) =
     (case Index s [b] of None \<Rightarrow> [s] | Some i \<Rightarrow> take i s # SplitN (drop (Suc i) s) b n)"

fun Join :: "string list \<Rightarrow> string \<Rightarrow> string" where
  "Join [] sep = []"
| "Join [p] sep = p"
| "Join (p # q # ps) sep = p @ sep @ Join (q # ps) sep"

section \<open>White space\<close>

text \<open>The UTF-8 encodings of the code points for which \<open>unicode.IsSpace\<close> holds.\<close>

definition space_runes :: "string list" where
  "space_runes =
     [[CHR 0x09], [CHR 0x0A], [CHR 0x0B], [CHR 0x0C], [CHR 0x0D], [CHR 0x20],
      [CHR 0xC2, CHR 0x85], [CHR 0xC2, CHR 0xA0],
      [CHR 0xE1, CHR 0x9A, CHR 0x80],
      [CHR 0xE2, CHR 0x80, CHR 0x80], [CHR 0xE2, CHR 0x80, CHR 0x81], [CHR 0xE2, CHR 0x80, CHR 0x82],
      [CHR 0xE2, CHR 0x80, CHR 0x83], [CHR 0xE2, CHR 0x80, CHR 0x84], [CHR 0xE2, CHR 0x80, CHR 0x85],
      [CHR 0xE2, CHR 0x80, CHR 0x86], [CHR 0xE2, CHR 0x80, CHR 0x87], [CHR 0xE2, CHR 0x80, CHR 0x88],
      [CHR 0xE2, CHR 0x80, CHR 0x89], [CHR 0xE2, CHR 0x80, CHR 0x8A],
      [CHR 0xE2, CHR 0x80, CHR 0xA8], [CHR 0xE2, CHR 0x80, CHR 0xA9], [CHR 0xE2, CHR 0x80, CHR 0xAF],
      [CHR 0xE2, CHR 0x81, CHR 0x9F], [CHR 0xE3, CHR 0x80, CHR 0x80]]"

text \<open>The white space a string starts with, if any, and the one it ends with.\<close>

definition lead_space :: "string \<Rightarrow> string option" where
  "lead_space s = find (\<lambda>r. prefix r s) space_runes"

definition trail_space :: "string \<Rightarrow> string option" where
  "trail_space s = find (\<lambda>r. suffix r s) space_runes"

lemma space_runes_nonempty: "r \<in> set space_runes \<Longrightarrow> r \<noteq> []"
  by (auto simp: space_runes_def)

lemma lead_space_SomeD: "lead_space s = Some r \<Longrightarrow> r \<in> set space_runes \<and> prefix r s"
  by (auto simp: lead_space_def dest: find_SomeD)

lemma trail_space_SomeD: "trail_space s = Some r \<Longrightarrow> r \<in> set space_runes \<and> suffix r s"
  by (auto simp: trail_space_def dest: find_SomeD)

lemma lead_space_shorter: "lead_space s = Some r \<Longrightarrow> length (drop (length r) s) < length s"
  using lead_space_SomeD space_runes_nonempty by (fastforce simp: prefix_def)

lemma trail_space_shorter: "trail_space s = Some r \<Longrightarrow> length (take (length s - length r) s) < length s"
  using trail_space_SomeD space_runes_nonempty by (fastforce simp: suffix_def)

function TrimLeftSpace :: "string \<Rightarrow> string" where
  "TrimLeftSpace s =
     (case lead_space s of None \<Rightarrow> s | Some r \<Rightarrow> TrimLeftSpace (drop (length r) s))"
  by pat_completeness auto
termination
  by (relation "measure length") (auto dest: lead_space_shorter)

function TrimRightSpace :: "string \<Rightarrow> string" where
  "TrimRightSpace s =
     (case trail_space s of None \<Rightarrow> s | Some r \<Rightarrow> TrimRightSpace (take (length s - length r) s))"
  by pat_completeness auto
termination
  by (relation "measure length") (auto dest: trail_space_shorter)

declare TrimLeftSpace.simps [simp del] TrimRightSpace.simps [simp del]

definition TrimSpace :: "string \<Rightarrow> string" where
  "TrimSpace s = TrimRightSpace (TrimLeftSpace s)"

text \<open>\<open>strings.Trim\<close>, \<open>TrimRight\<close> with a cutset of ASCII bytes.\<close>

definition TrimRight :: "string \<Rightarrow> string \<Rightarrow> string" where
  "TrimRight s cs = rev (dropWhile (\<lambda>c. c \<in> set cs) (rev s))"

definition Trim :: "string \<Rightarrow> string \<Rightarrow> string" where
  "Trim s cs = TrimRight (dropWhile (\<lambda>c. c \<in> set cs) s) cs"

text \<open>\<open>strings.Fields\<close>: \<open>w\<close> is the word being read.\<close>

function fields_from :: "string \<Rightarrow> string \<Rightarrow> string list" where
  "fields_from w s =
     (case lead_space s of
        Some r \<Rightarrow> (if w = [] then [] else [w]) @ fields_from [] (drop (length r) s)
      | None \<Rightarrow> (case s of [] \<Rightarrow> if w = [] then [] else [w]
                  | c # s' \<Rightarrow> fields_from (w @ [c]) s'))"
  by pat_completeness auto
termination
  by (relation "measure (\<lambda>(w, s). length s)") (auto dest: lead_space_shorter)

declare fields_from.simps [simp del]

definition Fields :: "string \<Rightarrow> string list" where
  "Fields s = fields_from [] s"

section \<open>Case and numbers\<close>

definition lower_char :: "char \<Rightarrow> char" where
  "lower_char c = (if CHR ''A'' \<le> c \<and> c \<le> CHR ''Z'' then char_of (of_char c + 32 :: nat) else c)"

definition upper_char :: "char \<Rightarrow> char" where
  "upper_char c = (if CHR ''a'' \<le> c \<and> c \<le> CHR ''z'' then char_of (of_char c - 32 :: nat) else c)"

definition ToLower :: "string \<Rightarrow> string" where
  "ToLower s = map lower_char s"

definition ToUpper :: "string \<Rightarrow> string" where
  "ToUpper s = map upper_char s"

definition is_digit :: "char \<Rightarrow> bool" where
  "is_digit c = (CHR ''0'' \<le> c \<and> c \<le> CHR ''9'')"

definition is_letter :: "char \<Rightarrow> bool" where
  "is_letter c = ((CHR ''A'' \<le> c \<and> c \<le> CHR ''Z'') \<or> (CHR ''a'' \<le> c \<and> c \<le> CHR ''z''))"

definition digit_val :: "char \<Rightarrow> int" where
  "digit_val c = int (of_char c) - 48"

text \<open>
  \<open>strconv.ParseInt(s, 10, 64)\<close> (and \<open>Atoi\<close>): an optional sign, at least one digit and
  nothing else, and a value of 64 bits; \<open>None\<close> is a non-nil error.
\<close>

definition digits_val :: "string \<Rightarrow> int" where
  "digits_val s = foldl (\<lambda>n c. 10 * n + digit_val c) 0 s"

definition ParseInt :: "string \<Rightarrow> int option" where
  "ParseInt s =
     (let neg = (s \<noteq> [] \<and> hd s = CHR ''-'');
          body = (if s \<noteq> [] \<and> (hd s = CHR ''-'' \<or> hd s = CHR ''+'') then tl s else s);
          v = (if neg then - digits_val body else digits_val body)
      in if body \<noteq> [] \<and> list_all is_digit body \<and> - (2 ^ 63) \<le> v \<and> v < 2 ^ 63
         then Some v else None)"

fun nat_digits :: "nat \<Rightarrow> string" where
  "nat_digits n =
     (if n < 10 then [char_of (48 + n)] else nat_digits (n div 10) @ [char_of (48 + n mod 10)])"

declare nat_digits.simps [simp del]

text \<open>\<open>strconv.FormatInt(n, 10)\<close>, also what \<open>%d\<close> prints.\<close>

definition FormatInt :: "int \<Rightarrow> string" where
  "FormatInt n = (if n < 0 then CHR ''-'' # nat_digits (nat (- n)) else nat_digits (nat n))"

lemma digit_char: "n < 10 \<Longrightarrow> is_digit (char_of (48 + n))" "n < 10 \<Longrightarrow> digit_val (char_of (48 + n)) = int n"
  by (simp_all add: is_digit_def digit_val_def less_eq_char_def)

lemma digits_val_append: "digits_val (s @ [c]) = 10 * digits_val s + digit_val c"
  by (simp add: digits_val_def digit_char)

lemma nat_digits_digits: "list_all is_digit (nat_digits n)" "nat_digits n \<noteq> []"
  by (induction n rule: nat_digits.induct) (subst nat_digits.simps; simp add: digit_char)+

lemma digits_val_nat_digits: "digits_val (nat_digits n) = int n"
proof (induction n rule: nat_digits.induct)
  case (1 n)
  show ?case
  proof (cases "n < 10")
    case True
    then show ?thesis by (subst nat_digits.simps) (simp add: digits_val_def digit_char)
  next
    case False
    then have "digits_val (nat_digits n) = 10 * int (n div 10) + int (n mod 10)"
      using 1 by (subst nat_digits.simps) (simp add: digits_val_append digit_char)
    then show ?thesis by presburger
  qed
qed

lemma nat_digits_hd: "hd (nat_digits n) \<noteq> CHR ''-''" "hd (nat_digits n) \<noteq> CHR ''+''"
  using nat_digits_digits [of n] by (cases "nat_digits n"; auto simp: is_digit_def)+

text \<open>A number printed is read back, and two numbers are printed differently.\<close>

lemma ParseInt_FormatInt: "- (2 ^ 63) \<le> n \<Longrightarrow> n < 2 ^ 63 \<Longrightarrow> ParseInt (FormatInt n) = Some n"
  using nat_digits_digits [of "nat n"] nat_digits_digits [of "nat (- n)"] nat_digits_hd [of "nat n"]
  by (auto simp: ParseInt_def FormatInt_def Let_def digits_val_nat_digits)

lemma FormatInt_inj: "FormatInt m = FormatInt n \<longleftrightarrow> m = n"
proof
  assume eq: "FormatInt m = FormatInt n"
  have "(hd (FormatInt k) = CHR ''-'') = (k < 0)" for k
    using nat_digits_hd(1) [of "nat k"] by (simp add: FormatInt_def)
  then have "(m < 0) = (n < 0)" using eq by metis
  then have "nat_digits (nat \<bar>m\<bar>) = nat_digits (nat \<bar>n\<bar>)" using eq by (auto simp: FormatInt_def split: if_splits)
  then have "int (nat \<bar>m\<bar>) = int (nat \<bar>n\<bar>)" using digits_val_nat_digits by metis
  then show "m = n" using \<open>(m < 0) = (n < 0)\<close> by linarith
qed simp

section \<open>Reading lines\<close>

text \<open>
  \<open>bufio.Scanner\<close> with \<open>ScanLines\<close>: the tokens and whether it stopped with
  \<open>ErrTooLong\<close>, which it does at a line of \<open>bufio.MaxScanTokenSize\<close> bytes or more
  before its newline.
\<close>

definition MaxScanTokenSize :: nat where
  "MaxScanTokenSize = 65536"

definition dropCR :: "string \<Rightarrow> string" where
  "dropCR s = (if s \<noteq> [] \<and> last s = CR then butlast s else s)"

fun cut_line :: "string \<Rightarrow> string \<times> string option" where
  "cut_line [] = ([], None)"
| "cut_line (c # s) =
     (if c = LF then ([], Some s) else (case cut_line s of (l, r) \<Rightarrow> (c # l, r)))"

lemma cut_line_shorter: "cut_line s = (l, Some t) \<Longrightarrow> length t < length s"
  by (induction s arbitrary: l) (fastforce split: if_splits prod.splits)+

function ScanLines :: "string \<Rightarrow> string list \<times> bool" where
  "ScanLines s =
     (if s = [] then ([], False)
      else (case cut_line s of
          (l, None) \<Rightarrow> if MaxScanTokenSize \<le> length l then ([], True) else ([dropCR l], False)
        | (l, Some t) \<Rightarrow>
            if MaxScanTokenSize \<le> length l then ([], True)
            else (case ScanLines t of (ls, tooLong) \<Rightarrow> (dropCR l # ls, tooLong))))"
  by pat_completeness auto
termination
  by (relation "measure length") (auto dest: cut_line_shorter [OF sym])

declare ScanLines.simps [simp del]

section \<open>Words without white space\<close>

text \<open>Bytes that occur in no white space: all of ASCII's printable characters.\<close>

definition plain :: "char \<Rightarrow> bool" where
  "plain c \<longleftrightarrow> c \<notin> set (concat space_runes)"

lemma plain_not_in_rune: "plain c \<Longrightarrow> r \<in> set space_runes \<Longrightarrow> c \<notin> set r"
  by (auto simp: plain_def)

lemma lead_space_plain [simp]: "plain c \<Longrightarrow> lead_space (c # s) = None"
  using space_runes_nonempty plain_not_in_rune
  by (fastforce simp: lead_space_def find_None_iff prefix_Cons)

lemma lead_space_Nil [simp]: "lead_space [] = None"
  using space_runes_nonempty by (auto simp: lead_space_def find_None_iff)

lemma trail_space_plain [simp]:
  assumes "plain c"
  shows "trail_space (s @ [c]) = None"
proof -
  have "\<not> suffix r (s @ [c])" if r: "r \<in> set space_runes" for r
  proof
    assume "suffix r (s @ [c])"
    then obtain zs where "s @ [c] = zs @ r" by (auto simp: suffix_def)
    then have "last r = c" using space_runes_nonempty [OF r] by (metis last_append last_snoc)
    with space_runes_nonempty [OF r] plain_not_in_rune [OF assms r] show False by auto
  qed
  then show ?thesis by (auto simp: trail_space_def find_None_iff)
qed

lemma trail_space_Nil [simp]: "trail_space [] = None"
  using space_runes_nonempty by (auto simp: trail_space_def find_None_iff)

lemma TrimLeftSpace_plain: "plain c \<Longrightarrow> TrimLeftSpace (c # s) = c # s"
  by (subst TrimLeftSpace.simps) simp

lemma TrimSpace_Nil [simp]: "TrimSpace [] = []"
  by (simp add: TrimSpace_def TrimLeftSpace.simps TrimRightSpace.simps)

lemma TrimSpace_plain:
  assumes "s \<noteq> []" and "plain (hd s)" and "plain (last s)"
  shows "TrimSpace s = s"
proof -
  have "TrimLeftSpace s = s" using assms(1,2) by (cases s) (simp_all add: TrimLeftSpace_plain)
  moreover have "trail_space s = None"
    using trail_space_plain [OF assms(3), of "butlast s"] assms(1) by simp
  ultimately show ?thesis by (simp add: TrimSpace_def TrimRightSpace.simps)
qed

lemma TrimRightSpace_starts:
  assumes "plain c"
  shows "\<exists>t. TrimRightSpace (c # s) = c # t"
proof (induction "length s" arbitrary: s rule: less_induct)
  case less
  show ?case
  proof (cases "trail_space (c # s)")
    case None
    then show ?thesis by (subst TrimRightSpace.simps) simp
  next
    case (Some r)
    then have r: "r \<in> set space_runes" "suffix r (c # s)" "r \<noteq> []"
      using trail_space_SomeD space_runes_nonempty by auto
    then have "suffix r s" using plain_not_in_rune [OF assms r(1)] by (auto simp: suffix_Cons)
    then have "length r \<le> length s" by (rule suffix_length_le)
    then have "take (length (c # s) - length r) (c # s) = c # take (length s - length r) s"
      by (simp add: Suc_diff_le)
    moreover have "length (take (length s - length r) s) < length s"
      using r(3) \<open>length r \<le> length s\<close> by (cases r) auto
    ultimately show ?thesis
      using Some less [of "take (length s - length r) s"] by (subst TrimRightSpace.simps) simp
  qed
qed

lemma TrimSpace_starts: "plain c \<Longrightarrow> \<exists>t. TrimSpace (c # s) = c # t"
  using TrimRightSpace_starts by (simp add: TrimSpace_def TrimLeftSpace_plain)

lemma fields_from_plain: "list_all plain x \<Longrightarrow> fields_from w (x @ s) = fields_from (w @ x) s"
  by (induction x arbitrary: w) (simp_all add: fields_from.simps [of _ "_ # _"])

lemma fields_from_blank:
  "fields_from w (CHR '' '' # s) = (if w = [] then [] else [w]) @ fields_from [] s"
  by (subst fields_from.simps) (simp add: lead_space_def space_runes_def)

lemma fields_from_Nil: "fields_from w [] = (if w = [] then [] else [w])"
  by (subst fields_from.simps) simp

lemma digit_plain: "is_digit c \<Longrightarrow> plain c"
proof -
  have "list_all (\<lambda>c. \<not> is_digit c) (concat space_runes)" by code_simp
  then show "is_digit c \<Longrightarrow> plain c" by (auto simp: plain_def list_all_iff)
qed

section \<open>Lines\<close>

lemma cut_line_LF: "LF \<notin> set l \<Longrightarrow> cut_line (l @ LF # t) = (l, Some t)"
  by (induction l) auto

lemma cut_line_end: "LF \<notin> set l \<Longrightarrow> cut_line l = (l, None)"
  by (induction l) auto

lemma ScanLines_line:
  assumes "LF \<notin> set l" and "length l < 65536"
  shows "ScanLines (l @ LF # t) = (dropCR l # fst (ScanLines t), snd (ScanLines t))"
  using assms by (subst ScanLines.simps) (simp add: cut_line_LF MaxScanTokenSize_def split: prod.splits)

lemma ScanLines_Nil [simp]: "ScanLines [] = ([], False)"
  by (simp add: ScanLines.simps)

lemma dropCR_id: "s = [] \<or> last s \<noteq> CR \<Longrightarrow> dropCR s = s"
  by (auto simp: dropCR_def)

end
