(* ===== verification/Db_Tables.thy ===== *)
theory Db_Tables
  imports Go_Strings "HOL-Library.Product_Lexorder"
begin

text \<open>
  The tables behind \<open>internal/db\<close>: the row types (the Go structs), tables whose integer
  primary key is AUTOINCREMENT, and the store that holds all tables. The generic part is a
  locale for rows with such a key; each row type of the program interprets it. The rows of a
  table are kept in the order of their ids, the order in which SQLite scans them.
\<close>

section \<open>Tables with an AUTOINCREMENT key\<close>

record 'r table =
  t_rows :: "'r list"
  t_seq :: int

definition tbl_empty :: "'r table" where
  "tbl_empty = \<lparr>t_rows = [], t_seq = 0\<rparr>"

definition tbl_insert :: "(int \<Rightarrow> 'r \<Rightarrow> 'r) \<Rightarrow> 'r \<Rightarrow> 'r table \<Rightarrow> int \<times> 'r table" where
  "tbl_insert set_rid r t =
     (t_seq t + 1, t\<lparr>t_rows := t_rows t @ [set_rid (t_seq t + 1) r], t_seq := t_seq t + 1\<rparr>)"

definition tbl_update :: "('r \<Rightarrow> bool) \<Rightarrow> ('r \<Rightarrow> 'r) \<Rightarrow> 'r table \<Rightarrow> 'r table" where
  "tbl_update p f t = t\<lparr>t_rows := update_where p f (t_rows t)\<rparr>"

definition tbl_delete :: "('r \<Rightarrow> bool) \<Rightarrow> 'r table \<Rightarrow> 'r table" where
  "tbl_delete p t = t\<lparr>t_rows := filter (\<lambda>r. \<not> p r) (t_rows t)\<rparr>"

definition tbl_find :: "('r \<Rightarrow> bool) \<Rightarrow> 'r table \<Rightarrow> 'r option" where
  "tbl_find p t = find p (t_rows t)"

definition tbl_inv :: "('r \<Rightarrow> int) \<Rightarrow> 'r table \<Rightarrow> bool" where
  "tbl_inv rid t \<longleftrightarrow> distinct (map rid (t_rows t))
     \<and> (\<forall>r \<in> set (t_rows t). 0 < rid r \<and> rid r \<le> t_seq t) \<and> 0 \<le> t_seq t"

lemma tbl_sel_simps [simp]:
  "t_rows (tbl_update p f t) = update_where p f (t_rows t)"
  "t_seq (tbl_update p f t) = t_seq t"
  "t_rows (tbl_delete p t) = filter (\<lambda>r. \<not> p r) (t_rows t)"
  "t_seq (tbl_delete p t) = t_seq t"
  "t_rows (snd (tbl_insert g r t)) = t_rows t @ [g (t_seq t + 1) r]"
  "t_seq (snd (tbl_insert g r t)) = t_seq t + 1"
  "fst (tbl_insert g r t) = t_seq t + 1"
  by (simp_all add: tbl_update_def tbl_delete_def tbl_insert_def)

lemma tbl_update_noop:
  "(\<And>r. r \<in> set (t_rows t) \<Longrightarrow> p r \<Longrightarrow> f r = r) \<Longrightarrow> tbl_update p f t = t"
  by (simp add: tbl_update_def update_where_id)

lemma tbl_delete_noop: "(\<And>r. r \<in> set (t_rows t) \<Longrightarrow> \<not> p r) \<Longrightarrow> tbl_delete p t = t"
  by (simp add: tbl_delete_def filter_id_conv)

locale row_ids =
  fixes rid :: "'r \<Rightarrow> int" and set_rid :: "int \<Rightarrow> 'r \<Rightarrow> 'r"
  assumes rid_set: "rid (set_rid i r) = i"
begin

lemma empty_inv: "tbl_inv rid tbl_empty"
  by (simp add: tbl_inv_def tbl_empty_def)

lemma insert_inv: "tbl_inv rid t \<Longrightarrow> tbl_inv rid (snd (tbl_insert set_rid r t))"
  by (force simp: tbl_inv_def rid_set)

lemma update_inv:
  assumes "tbl_inv rid t" and "\<And>r. p r \<Longrightarrow> rid (f r) = rid r"
  shows "tbl_inv rid (tbl_update p f t)"
  using assms by (auto simp: tbl_inv_def map_update_where set_update_where)

lemma delete_inv: "tbl_inv rid t \<Longrightarrow> tbl_inv rid (tbl_delete p t)"
  by (auto simp: tbl_inv_def distinct_map_filter)

lemma insert_fresh: "tbl_inv rid t \<Longrightarrow> r' \<in> set (t_rows t) \<Longrightarrow> rid r' \<noteq> fst (tbl_insert set_rid r t)"
  by (auto simp: tbl_inv_def)

lemma find_id_unique:
  "tbl_inv rid t \<Longrightarrow> r \<in> set (t_rows t) \<Longrightarrow> tbl_find (\<lambda>x. rid x = rid r) t = Some r"
  by (simp add: tbl_inv_def tbl_find_def find_unique)

lemma find_inserted:
  assumes "tbl_inv rid t"
  shows "tbl_find (\<lambda>x. rid x = t_seq t + 1) (snd (tbl_insert set_rid r t))
    = Some (set_rid (t_seq t + 1) r)"
proof -
  have "find (\<lambda>x. rid x = t_seq t + 1) (t_rows t) = None"
    using assms by (auto simp: find_None_iff tbl_inv_def)
  then show ?thesis by (simp add: tbl_find_def find_append rid_set)
qed

lemma ids_eqD:
  "tbl_inv rid t \<Longrightarrow> x \<in> set (t_rows t) \<Longrightarrow> y \<in> set (t_rows t) \<Longrightarrow> rid x = rid y \<Longrightarrow> x = y"
  by (auto simp: tbl_inv_def distinct_map inj_on_def)

text \<open>A row update by primary key changes that row and no other.\<close>

lemma update_by_id_set:
  assumes "tbl_inv rid t" and "r \<in> set (t_rows t)" and "rid (f r) = rid r"
  shows "set (t_rows (tbl_update (\<lambda>x. rid x = rid r) f t)) = insert (f r) (set (t_rows t) - {r})"
proof -
  have other: "(if rid x = rid r then f x else x) = (if x = r then f r else x)"
    if "x \<in> set (t_rows t)" for x
    using ids_eqD [OF assms(1) that assms(2)] by auto
  have "set (t_rows (tbl_update (\<lambda>x. rid x = rid r) f t))
      = (\<lambda>x. if x = r then f r else x) ` set (t_rows t)"
    using other by (auto simp: set_update_where image_iff)
  also have "\<dots> = insert (f r) (set (t_rows t) - {r})"
    using assms(2) by auto
  finally show ?thesis .
qed

end

section \<open>The rows\<close>

record user =
  uID :: int
  uUsername :: string
  uPassword :: string
  uPermission :: string
  uFullName :: string
  uAvatarURL :: string
  uQRZUsername :: string
  uQRZPasswordEnc :: string
  uLookupSource :: string
  uWebAuthnID :: string

record node =
  nID :: int
  nName :: string
  nNodeNumber :: string
  nAMIHost :: string
  nAMIPort :: int
  nAMIUser :: string
  nAMIPass :: string
  nEnabled :: bool
  nDescription :: string
  nLocation :: string

record favorite =
  fID :: int
  fNodeID :: int
  fNodeNumber :: string
  fCallsign :: string
  fDescription :: string
  fLocation :: string
  fCmd :: string
  fSortOrder :: int
  fGroupName :: string
  fPosition :: int

record credential =
  cID :: int
  cUserID :: int
  cCredentialID :: string
  cName :: string
  cCredentialJSON :: string
  cCreatedAt :: int
  cLastUsedAt :: "int option"

record wa_session =
  wsSessionID :: string
  wsCeremony :: string
  wsUserID :: "int option"
  wsSessionJSON :: string
  wsExpiresAt :: int
  wsRPID :: string
  wsOrigin :: string

interpretation user_rows: row_ids uID "\<lambda>i u. u\<lparr>uID := i\<rparr>"
  by unfold_locales simp

interpretation node_rows: row_ids nID "\<lambda>i n. n\<lparr>nID := i\<rparr>"
  by unfold_locales simp

interpretation fav_rows: row_ids fID "\<lambda>i f. f\<lparr>fID := i\<rparr>"
  by unfold_locales simp

interpretation cred_rows: row_ids cID "\<lambda>i c. c\<lparr>cID := i\<rparr>"
  by unfold_locales simp

section \<open>The store\<close>

text \<open>
  \<open>tailscale_logins\<close>, \<open>configs\<close>, \<open>stats_cache\<close> and \<open>qrz_cache\<close> have a text primary
  key and are association lists; the value of \<open>qrz_cache\<close> is the record and the time it was
  fetched.
\<close>

record store =
  users :: "user table"
  nodes :: "node table"
  favorites :: "favorite table"
  tailscale_logins :: "(string \<times> int) list"
  configs :: "(string \<times> string) list"
  stats_cache :: "(string \<times> string) list"
  qrz_cache :: "(string \<times> string \<times> int) list"
  credentials :: "credential table"
  wa_sessions :: "wa_session list"

definition store_empty :: store where
  "store_empty = \<lparr>users = tbl_empty, nodes = tbl_empty, favorites = tbl_empty,
     tailscale_logins = [], configs = [], stats_cache = [], qrz_cache = [],
     credentials = tbl_empty, wa_sessions = []\<rparr>"

text \<open>
  What a statement can fail with in the model: no row, or a constraint of the schema (UNIQUE,
  PRIMARY KEY, FOREIGN KEY). Failures of the driver itself are not modelled.
\<close>

datatype db_error = ErrNotFound | ErrConstraint string

text \<open>The constraints of the schema.\<close>

definition users_ok :: "store \<Rightarrow> bool" where
  "users_ok s \<longleftrightarrow> tbl_inv uID (users s) \<and> distinct (map uUsername (t_rows (users s)))"

definition favs_ok :: "store \<Rightarrow> bool" where
  "favs_ok s \<longleftrightarrow> tbl_inv nID (nodes s) \<and> tbl_inv fID (favorites s)
     \<and> fNodeID ` set (t_rows (favorites s)) \<subseteq> nID ` set (t_rows (nodes s))"

definition logins_ok :: "store \<Rightarrow> bool" where
  "logins_ok s \<longleftrightarrow> distinct (map fst (tailscale_logins s))
     \<and> snd ` set (tailscale_logins s) \<subseteq> uID ` set (t_rows (users s))"

definition creds_ok :: "store \<Rightarrow> bool" where
  "creds_ok s \<longleftrightarrow> tbl_inv cID (credentials s)
     \<and> distinct (map cCredentialID (t_rows (credentials s)))
     \<and> cUserID ` set (t_rows (credentials s)) \<subseteq> uID ` set (t_rows (users s))"

definition keys_ok :: "store \<Rightarrow> bool" where
  "keys_ok s \<longleftrightarrow> distinct (map fst (configs s)) \<and> distinct (map fst (stats_cache s))
     \<and> distinct (map fst (qrz_cache s)) \<and> distinct (map wsSessionID (wa_sessions s))"

definition store_ok :: "store \<Rightarrow> bool" where
  "store_ok s \<longleftrightarrow> users_ok s \<and> favs_ok s \<and> logins_ok s \<and> creds_ok s \<and> keys_ok s"

lemmas store_ok_defs = store_ok_def users_ok_def favs_ok_def logins_ok_def creds_ok_def keys_ok_def

lemma store_empty_ok: "store_ok store_empty"
  by (simp add: store_ok_defs store_empty_def tbl_empty_def tbl_inv_def)

section \<open>Text-keyed tables\<close>

text \<open>\<open>INSERT ... ON CONFLICT(key) DO UPDATE\<close>.\<close>

fun kv_upsert :: "'k \<Rightarrow> 'v \<Rightarrow> ('k \<times> 'v) list \<Rightarrow> ('k \<times> 'v) list" where
  "kv_upsert k v [] = [(k, v)]"
| "kv_upsert k v ((k', v') # kvs) = (if k' = k then (k, v) # kvs else (k', v') # kv_upsert k v kvs)"

lemma map_of_kv_upsert [simp]: "map_of (kv_upsert k v kvs) = (map_of kvs)(k \<mapsto> v)"
  by (induction k v kvs rule: kv_upsert.induct) auto

lemma keys_kv_upsert [simp]: "fst ` set (kv_upsert k v kvs) = insert k (fst ` set kvs)"
  by (induction k v kvs rule: kv_upsert.induct) auto

lemma distinct_kv_upsert: "distinct (map fst kvs) \<Longrightarrow> distinct (map fst (kv_upsert k v kvs))"
  by (induction k v kvs rule: kv_upsert.induct) (simp_all, blast)

text \<open>\<open>DELETE ... WHERE key = ?\<close>, and \<open>delete\<close> on a Go map.\<close>

definition kv_delete :: "'k \<Rightarrow> ('k \<times> 'v) list \<Rightarrow> ('k \<times> 'v) list" where
  "kv_delete k m = filter (\<lambda>e. fst e \<noteq> k) m"

lemma map_of_kv_delete: "map_of (kv_delete k m) j = (if j = k then None else map_of m j)"
  by (induction m) (auto simp: kv_delete_def)

end
