(* ===== verification/Db_Users.thy ===== *)
theory Db_Users
  imports Db_Tables
begin

text \<open>
  \<open>internal/db/users.go\<close>, \<open>tailscale.go\<close> and \<open>configs.go\<close>: permission levels, user
  accounts, the Tailscale logins that map to them, and the configuration table.
\<close>

section \<open>Permission levels\<close>

definition PermSuperuser :: string where "PermSuperuser = ''superuser''"
definition PermAdmin :: string where "PermAdmin = ''admin''"
definition PermReadWrite :: string where "PermReadWrite = ''readwrite''"
definition PermReadOnly :: string where "PermReadOnly = ''readonly''"
definition PermNone :: string where "PermNone = ''none''"

lemmas perm_defs = PermSuperuser_def PermAdmin_def PermReadWrite_def PermReadOnly_def PermNone_def

definition permRank :: "string \<Rightarrow> int option" where
  "permRank = [PermSuperuser \<mapsto> 4, PermAdmin \<mapsto> 3, PermReadWrite \<mapsto> 2, PermReadOnly \<mapsto> 1, PermNone \<mapsto> 0]"

text \<open>A Go map read of a missing key gives the zero value.\<close>

definition permRankOf :: "string \<Rightarrow> int" where
  "permRankOf p = (case permRank p of Some r \<Rightarrow> r | None \<Rightarrow> 0)"

definition PermissionAtLeast :: "string \<Rightarrow> string \<Rightarrow> bool" where
  "PermissionAtLeast a b = (permRankOf b \<le> permRankOf a)"

definition ValidPermission :: "string \<Rightarrow> bool" where
  "ValidPermission p = (permRank p \<noteq> None)"

lemma permRankOf_simps [simp]:
  "permRankOf ''superuser'' = 4" "permRankOf ''admin'' = 3" "permRankOf ''readwrite'' = 2"
  "permRankOf ''readonly'' = 1" "permRankOf ''none'' = 0"
  by (simp_all add: permRankOf_def permRank_def perm_defs)

lemma permRankOf_range: "0 \<le> permRankOf p \<and> permRankOf p \<le> 4"
  by (auto simp: permRankOf_def permRank_def split: option.splits if_splits)

lemma PermissionAtLeast_trans:
  "PermissionAtLeast a b \<Longrightarrow> PermissionAtLeast b c \<Longrightarrow> PermissionAtLeast a c"
  by (simp add: PermissionAtLeast_def)

section \<open>Accounts\<close>

definition user_new :: "string \<Rightarrow> string \<Rightarrow> string \<Rightarrow> user" where
  "user_new username passwordHash permission =
     \<lparr>uID = 0, uUsername = username, uPassword = passwordHash, uPermission = permission,
      uFullName = [], uAvatarURL = [], uQRZUsername = [], uQRZPasswordEnc = [],
      uLookupSource = [], uWebAuthnID = []\<rparr>"

definition GetUser :: "string \<Rightarrow> store \<Rightarrow> db_error + user" where
  "GetUser username s =
     (case tbl_find (\<lambda>u. uUsername u = username) (users s) of
        None \<Rightarrow> Inl ErrNotFound | Some u \<Rightarrow> Inr u)"

definition GetUserByID :: "int \<Rightarrow> store \<Rightarrow> db_error + user" where
  "GetUserByID i s =
     (case tbl_find (\<lambda>u. uID u = i) (users s) of None \<Rightarrow> Inl ErrNotFound | Some u \<Rightarrow> Inr u)"

definition ListUsers :: "store \<Rightarrow> user list" where
  "ListUsers s = sort_key uUsername (t_rows (users s))"

definition CreateUser :: "string \<Rightarrow> string \<Rightarrow> string \<Rightarrow> store \<Rightarrow> (db_error + user) \<times> store" where
  "CreateUser username passwordHash permission s =
     (if username \<in> uUsername ` set (t_rows (users s))
      then (Inl (ErrConstraint ''users.username''), s)
      else let (i, t) = tbl_insert (\<lambda>i u. u\<lparr>uID := i\<rparr>) (user_new username passwordHash permission) (users s)
           in (Inr ((user_new username passwordHash permission)\<lparr>uID := i\<rparr>), s\<lparr>users := t\<rparr>))"

definition update_user :: "int \<Rightarrow> (user \<Rightarrow> user) \<Rightarrow> store \<Rightarrow> store" where
  "update_user i f s = s\<lparr>users := tbl_update (\<lambda>u. uID u = i) f (users s)\<rparr>"

definition UpdateUserProfile :: "int \<Rightarrow> string \<Rightarrow> string \<Rightarrow> store \<Rightarrow> store" where
  "UpdateUserProfile i fullName avatarURL =
     update_user i (\<lambda>u. u\<lparr>uFullName := fullName, uAvatarURL := avatarURL\<rparr>)"

definition UpdateUserPassword :: "int \<Rightarrow> string \<Rightarrow> store \<Rightarrow> store" where
  "UpdateUserPassword i passwordHash = update_user i (\<lambda>u. u\<lparr>uPassword := passwordHash\<rparr>)"

definition UpdateUserPermission :: "int \<Rightarrow> string \<Rightarrow> store \<Rightarrow> store" where
  "UpdateUserPermission i permission = update_user i (\<lambda>u. u\<lparr>uPermission := permission\<rparr>)"

definition UpdateUserQRZ :: "int \<Rightarrow> string \<Rightarrow> string \<Rightarrow> store \<Rightarrow> store" where
  "UpdateUserQRZ i username encPassword =
     update_user i (\<lambda>u. u\<lparr>uQRZUsername := username, uQRZPasswordEnc := encPassword\<rparr>)"

definition UpdateUserLookupSource :: "int \<Rightarrow> string \<Rightarrow> store \<Rightarrow> store" where
  "UpdateUserLookupSource i source = update_user i (\<lambda>u. u\<lparr>uLookupSource := source\<rparr>)"

text \<open>\<open>fresh\<close> is the 64 random bytes; a user that does not exist is a scan error.\<close>

definition GetOrSetWebAuthnID :: "string \<Rightarrow> int \<Rightarrow> store \<Rightarrow> (db_error + string) \<times> store" where
  "GetOrSetWebAuthnID fresh i s =
     (case tbl_find (\<lambda>u. uID u = i) (users s) of
        None \<Rightarrow> (Inl ErrNotFound, s)
      | Some u \<Rightarrow> if uWebAuthnID u \<noteq> [] then (Inr (uWebAuthnID u), s)
                  else (Inr fresh, update_user i (\<lambda>u. u\<lparr>uWebAuthnID := fresh\<rparr>) s))"

text \<open>
  Deleting a user removes the rows that refer to it: both foreign keys are ON DELETE CASCADE.
\<close>

definition DeleteUser :: "int \<Rightarrow> store \<Rightarrow> store" where
  "DeleteUser i s = s\<lparr>users := tbl_delete (\<lambda>u. uID u = i) (users s),
     tailscale_logins := filter (\<lambda>l. snd l \<noteq> i) (tailscale_logins s),
     credentials := tbl_delete (\<lambda>c. cUserID c = i) (credentials s)\<rparr>"

definition CountUsers :: "store \<Rightarrow> nat" where
  "CountUsers s = length (t_rows (users s))"

definition CountSuperusers :: "store \<Rightarrow> nat" where
  "CountSuperusers s = length (filter (\<lambda>u. uPermission u = ''superuser'') (t_rows (users s)))"

section \<open>Tailscale logins\<close>

definition GetUserByTailscaleLogin :: "string \<Rightarrow> store \<Rightarrow> db_error + user" where
  "GetUserByTailscaleLogin login s =
     (case map_of (tailscale_logins s) login of
        None \<Rightarrow> Inl ErrNotFound | Some i \<Rightarrow> GetUserByID i s)"

definition GetTailscaleLogins :: "int \<Rightarrow> store \<Rightarrow> string list" where
  "GetTailscaleLogins i s = sort (map fst (filter (\<lambda>l. snd l = i) (tailscale_logins s)))"

text \<open>The inserts of one transaction: \<open>None\<close> when a primary or foreign key is violated.\<close>

fun insert_logins :: "int set \<Rightarrow> int \<Rightarrow> string list \<Rightarrow> (string \<times> int) list \<Rightarrow> (string \<times> int) list option" where
  "insert_logins ids i [] ls = Some ls"
| "insert_logins ids i (l # logins) ls =
     (if l \<in> fst ` set ls \<or> i \<notin> ids then None else insert_logins ids i logins (ls @ [(l, i)]))"

definition SetTailscaleLogins :: "int \<Rightarrow> string list \<Rightarrow> store \<Rightarrow> (db_error + unit) \<times> store" where
  "SetTailscaleLogins i logins s =
     (case insert_logins (uID ` set (t_rows (users s))) i logins
             (filter (\<lambda>l. snd l \<noteq> i) (tailscale_logins s)) of
        None \<Rightarrow> (Inl (ErrConstraint ''tailscale_logins.login''), s)
      | Some ls \<Rightarrow> (Inr (), s\<lparr>tailscale_logins := ls\<rparr>))"

section \<open>Configuration values\<close>

definition GetConfig :: "string \<Rightarrow> store \<Rightarrow> string" where
  "GetConfig k s = (case map_of (configs s) k of None \<Rightarrow> [] | Some v \<Rightarrow> v)"

definition SetConfig :: "string \<Rightarrow> string \<Rightarrow> store \<Rightarrow> store" where
  "SetConfig k v s = s\<lparr>configs := kv_upsert k v (configs s)\<rparr>"

section \<open>What the operations leave alone\<close>

lemma update_user_sel [db_simps]:
  "nodes (update_user i f s) = nodes s" "favorites (update_user i f s) = favorites s"
  "tailscale_logins (update_user i f s) = tailscale_logins s" "configs (update_user i f s) = configs s"
  "stats_cache (update_user i f s) = stats_cache s" "qrz_cache (update_user i f s) = qrz_cache s"
  "credentials (update_user i f s) = credentials s" "wa_sessions (update_user i f s) = wa_sessions s"
  "users (update_user i f s) = tbl_update (\<lambda>u. uID u = i) f (users s)"
  by (simp_all add: update_user_def)

lemma DeleteUser_sel [db_simps]:
  "nodes (DeleteUser i s) = nodes s" "favorites (DeleteUser i s) = favorites s"
  "configs (DeleteUser i s) = configs s" "stats_cache (DeleteUser i s) = stats_cache s"
  "qrz_cache (DeleteUser i s) = qrz_cache s" "wa_sessions (DeleteUser i s) = wa_sessions s"
  "users (DeleteUser i s) = tbl_delete (\<lambda>u. uID u = i) (users s)"
  by (simp_all add: DeleteUser_def)

lemma SetConfig_sel [db_simps]:
  "users (SetConfig k v s) = users s" "nodes (SetConfig k v s) = nodes s"
  "favorites (SetConfig k v s) = favorites s" "credentials (SetConfig k v s) = credentials s"
  "tailscale_logins (SetConfig k v s) = tailscale_logins s"
  by (simp_all add: SetConfig_def)

lemma GetConfig_SetConfig: "GetConfig k (SetConfig k' v s) = (if k = k' then v else GetConfig k s)"
  by (simp add: GetConfig_def SetConfig_def)

lemma CreateUser_nodes [db_simps]:
  "nodes (snd (CreateUser n h p s)) = nodes s" "favorites (snd (CreateUser n h p s)) = favorites s"
  by (simp_all add: CreateUser_def split: prod.splits)

section \<open>Lookups\<close>

lemma users_ok_tbl: "users_ok s \<Longrightarrow> tbl_inv uID (users s)"
  by (simp add: users_ok_def)

lemma GetUser_InrD: "GetUser n s = Inr u \<Longrightarrow> u \<in> set (t_rows (users s)) \<and> uUsername u = n"
  by (auto simp: GetUser_def tbl_find_def split: option.splits dest: find_SomeD)

lemma GetUser_Inl_iff: "(GetUser n s = Inl e) = (e = ErrNotFound \<and> n \<notin> uUsername ` set (t_rows (users s)))"
  by (auto simp: GetUser_def tbl_find_def find_None_iff split: option.splits dest: find_SomeD)

lemma GetUser_iff:
  assumes "users_ok s"
  shows "GetUser n s = Inr u \<longleftrightarrow> u \<in> set (t_rows (users s)) \<and> uUsername u = n"
proof
  assume "u \<in> set (t_rows (users s)) \<and> uUsername u = n"
  with assms show "GetUser n s = Inr u"
    using find_unique [of uUsername "t_rows (users s)" u]
    by (auto simp: GetUser_def tbl_find_def users_ok_def)
qed (rule GetUser_InrD)

lemma GetUserByID_InrD: "GetUserByID i s = Inr u \<Longrightarrow> u \<in> set (t_rows (users s)) \<and> uID u = i"
  by (auto simp: GetUserByID_def tbl_find_def split: option.splits dest: find_SomeD)

lemma GetUserByID_iff:
  assumes "users_ok s"
  shows "GetUserByID i s = Inr u \<longleftrightarrow> u \<in> set (t_rows (users s)) \<and> uID u = i"
  using assms user_rows.find_id_unique [OF users_ok_tbl]
  by (auto simp: GetUserByID_def split: option.splits dest: GetUserByID_InrD)
    (auto simp: tbl_find_def dest: find_SomeD)

lemma set_ListUsers [simp]: "set (ListUsers s) = set (t_rows (users s))"
  by (simp add: ListUsers_def)

lemma ListUsers_sorted: "sorted (map uUsername (ListUsers s))"
  by (simp add: ListUsers_def)

lemma CreateUser_cases:
  assumes "CreateUser n h p s = (r, s')"
  shows "(r = Inl (ErrConstraint ''users.username'') \<and> s' = s \<and> n \<in> uUsername ` set (t_rows (users s)))
    \<or> (n \<notin> uUsername ` set (t_rows (users s)) \<and> r = Inr ((user_new n h p)\<lparr>uID := t_seq (users s) + 1\<rparr>)
       \<and> s' = s\<lparr>users := snd (tbl_insert (\<lambda>i u. u\<lparr>uID := i\<rparr>) (user_new n h p) (users s))\<rparr>)"
  using assms by (auto simp: CreateUser_def tbl_insert_def split: if_splits)

lemma user_new_sel [simp]:
  "uUsername (user_new n h p) = n" "uPermission (user_new n h p) = p" "uPassword (user_new n h p) = h"
  by (simp_all add: user_new_def)

lemma CreateUser_InrD:
  assumes "CreateUser n h p s = (Inr u, s')"
  shows "uUsername u = n \<and> uPermission u = p \<and> uPassword u = h
    \<and> t_rows (users s') = t_rows (users s) @ [u] \<and> n \<notin> uUsername ` set (t_rows (users s))"
  using CreateUser_cases [OF assms] by auto

section \<open>The operations keep the schema's constraints\<close>

lemma update_user_ok [inv_intros]:
  assumes "store_ok s" and "\<And>u. uID (f u) = uID u" and "\<And>u. uUsername (f u) = uUsername u"
  shows "store_ok (update_user i f s)"
proof -
  have "tbl_inv uID (tbl_update (\<lambda>u. uID u = i) f (users s))"
    using assms by (intro user_rows.update_inv) (auto simp: store_ok_defs)
  then show ?thesis
    using assms by (simp add: store_ok_defs db_simps map_update_where image_update_where)
qed

lemma update_user_family_ok [inv_intros]:
  assumes "store_ok s"
  shows "store_ok (UpdateUserProfile i a b s)" "store_ok (UpdateUserPassword i a s)"
    "store_ok (UpdateUserPermission i a s)" "store_ok (UpdateUserQRZ i a b s)"
    "store_ok (UpdateUserLookupSource i a s)"
  using assms by (simp_all add: UpdateUserProfile_def UpdateUserPassword_def UpdateUserPermission_def
      UpdateUserQRZ_def UpdateUserLookupSource_def update_user_ok)

lemma CreateUser_ok [inv_intros]: "store_ok s \<Longrightarrow> store_ok (snd (CreateUser n h p s))"
  using user_rows.insert_inv [of "users s" "user_new n h p"]
  by (auto simp: CreateUser_def store_ok_defs Let_def split: prod.splits)
    (auto simp: tbl_insert_def)

lemma DeleteUser_refs:
  assumes "g ` A \<subseteq> uID ` set (t_rows (users s))"
  shows "g ` {x \<in> A. g x \<noteq> i} \<subseteq> uID ` {u \<in> set (t_rows (users s)). uID u \<noteq> i}"
  using assms by (intro image_filter_subset [where q = "\<lambda>j. j \<noteq> i"]) simp_all

lemma DeleteUser_ok [inv_intros]: "store_ok s \<Longrightarrow> store_ok (DeleteUser i s)"
  using DeleteUser_refs [of snd "set (tailscale_logins s)" s i]
    DeleteUser_refs [of cUserID "set (t_rows (credentials s))" s i]
  by (simp add: store_ok_defs DeleteUser_def distinct_map_filter
      user_rows.delete_inv cred_rows.delete_inv)

lemma insert_logins_distinct:
  "insert_logins ids i logins ls = Some ls' \<Longrightarrow> distinct (map fst ls) \<Longrightarrow> distinct (map fst ls')"
  by (induction ids i logins ls rule: insert_logins.induct) (auto split: if_splits)

lemma insert_logins_Some:
  "insert_logins ids i logins ls = Some ls' \<Longrightarrow>
     ls' = ls @ map (\<lambda>l. (l, i)) logins \<and> (logins \<noteq> [] \<longrightarrow> i \<in> ids)"
  by (induction ids i logins ls rule: insert_logins.induct) (auto split: if_splits)

lemma insert_logins_None:
  "distinct (map fst ls) \<Longrightarrow> insert_logins ids i logins ls = None \<longleftrightarrow>
     \<not> (distinct logins \<and> set logins \<inter> fst ` set ls = {} \<and> (logins = [] \<or> i \<in> ids))"
  by (induction ids i logins ls rule: insert_logins.induct) auto

lemma SetTailscaleLogins_ok [inv_intros]:
  assumes "store_ok s"
  shows "store_ok (snd (SetTailscaleLogins i logins s))"
proof (cases "insert_logins (uID ` set (t_rows (users s))) i logins
    (filter (\<lambda>l. snd l \<noteq> i) (tailscale_logins s))")
  case (Some ls)
  have "distinct (map fst (filter (\<lambda>l. snd l \<noteq> i) (tailscale_logins s)))"
    using assms by (simp add: store_ok_defs distinct_map_filter)
  then have "distinct (map fst ls)" by (rule insert_logins_distinct [OF Some])
  moreover have "snd ` set ls \<subseteq> uID ` set (t_rows (users s))"
    using insert_logins_Some [OF Some] assms by (cases "logins = []") (auto simp: store_ok_defs)
  ultimately show ?thesis
    using assms Some by (simp add: SetTailscaleLogins_def store_ok_defs)
qed (simp add: SetTailscaleLogins_def assms)

lemma SetConfig_ok [inv_intros]: "store_ok s \<Longrightarrow> store_ok (SetConfig k v s)"
  by (simp add: SetConfig_def store_ok_defs distinct_kv_upsert)

section \<open>Counting superusers\<close>

lemma CountSuperusers_update:
  assumes "users_ok s" and "GetUserByID i s = Inr u" and "uPermission (f u) = uPermission u"
  shows "CountSuperusers (update_user i f s) = CountSuperusers s"
proof -
  have u: "u \<in> set (t_rows (users s))" "uID u = i"
    using assms(2) by (auto dest: GetUserByID_InrD)
  have "x = u" if "x \<in> set (t_rows (users s))" "uID x = i" for x
    using user_rows.ids_eqD [OF users_ok_tbl [OF assms(1)]] that u by auto
  then have "map uPermission (update_where (\<lambda>u. uID u = i) f (t_rows (users s)))
      = map uPermission (t_rows (users s))"
    using assms(3) by (auto simp: update_where_def)
  then have "filter (\<lambda>p. p = ''superuser'') (map uPermission (update_where (\<lambda>u. uID u = i) f (t_rows (users s))))
      = filter (\<lambda>p. p = ''superuser'') (map uPermission (t_rows (users s)))" by simp
  then have "length (filter (\<lambda>u. uPermission u = ''superuser'') (update_where (\<lambda>u. uID u = i) f (t_rows (users s))))
      = length (filter (\<lambda>u. uPermission u = ''superuser'') (t_rows (users s)))"
    by (metis (no_types, lifting) comp_apply filter_map length_map filter_cong)
  then show ?thesis by (simp add: CountSuperusers_def db_simps)
qed

lemma CountSuperusers_pos_iff:
  "0 < CountSuperusers s \<longleftrightarrow> (\<exists>u \<in> set (t_rows (users s)). uPermission u = ''superuser'')"
  by (auto simp: CountSuperusers_def filter_empty_conv)

lemma CountSuperusers_delete:
  assumes "users_ok s" and "u \<in> set (t_rows (users s))"
  shows "CountSuperusers (DeleteUser (uID u) s) + (if uPermission u = ''superuser'' then 1 else 0)
    = CountSuperusers s"
  using length_filter_remove [of uID "t_rows (users s)" u "\<lambda>u. uPermission u = ''superuser''"] assms
  by (simp add: CountSuperusers_def db_simps users_ok_def tbl_inv_def)

end
