(* ===== verification/Db_Nodes.thy ===== *)
theory Db_Nodes
  imports Db_Users
begin

text \<open>
  \<open>internal/db/nodes.go\<close>, \<open>favorites.go\<close>, \<open>stats_cache.go\<close> and \<open>qrz_cache.go\<close>: nodes,
  the favorites of each node with their display positions, and the two persisted caches.
\<close>

section \<open>Nodes\<close>

definition GetNodeByNumber :: "string \<Rightarrow> store \<Rightarrow> db_error + node" where
  "GetNodeByNumber nodeNumber s =
     (case tbl_find (\<lambda>n. nNodeNumber n = nodeNumber) (nodes s) of
        None \<Rightarrow> Inl ErrNotFound | Some n \<Rightarrow> Inr n)"

definition GetNodeByID :: "int \<Rightarrow> store \<Rightarrow> db_error + node" where
  "GetNodeByID i s =
     (case tbl_find (\<lambda>n. nID n = i) (nodes s) of None \<Rightarrow> Inl ErrNotFound | Some n \<Rightarrow> Inr n)"

definition ListNodes :: "store \<Rightarrow> node list" where
  "ListNodes s = sort_key nName (t_rows (nodes s))"

definition CreateNode :: "node \<Rightarrow> store \<Rightarrow> node \<times> store" where
  "CreateNode n s =
     (let (i, t) = tbl_insert (\<lambda>i n. n\<lparr>nID := i\<rparr>) n (nodes s)
      in (n\<lparr>nID := i\<rparr>, s\<lparr>nodes := t\<rparr>))"

definition UpdateNode :: "node \<Rightarrow> store \<Rightarrow> store" where
  "UpdateNode n s = s\<lparr>nodes := tbl_update (\<lambda>r. nID r = nID n)
     (\<lambda>r. r\<lparr>nName := nName n, nNodeNumber := nNodeNumber n, nAMIHost := nAMIHost n,
       nAMIPort := nAMIPort n, nAMIUser := nAMIUser n, nAMIPass := nAMIPass n,
       nEnabled := nEnabled n, nDescription := nDescription n, nLocation := nLocation n\<rparr>) (nodes s)\<rparr>"

text \<open>The favorites of a deleted node go with it (ON DELETE CASCADE).\<close>

definition DeleteNode :: "int \<Rightarrow> store \<Rightarrow> store" where
  "DeleteNode i s = s\<lparr>nodes := tbl_delete (\<lambda>n. nID n = i) (nodes s),
     favorites := tbl_delete (\<lambda>f. fNodeID f = i) (favorites s)\<rparr>"

definition ListNodeNumbers :: "store \<Rightarrow> string list" where
  "ListNodeNumbers s = map nNodeNumber (t_rows (nodes s))"

section \<open>Favorites\<close>

definition ListFavoritesByNode :: "int \<Rightarrow> store \<Rightarrow> favorite list" where
  "ListFavoritesByNode nodeID s =
     sort_key (\<lambda>f. (fPosition f, fID f)) (filter (\<lambda>f. fNodeID f = nodeID) (t_rows (favorites s)))"

definition GetFavoriteByNodeNumber :: "int \<Rightarrow> string \<Rightarrow> store \<Rightarrow> db_error + favorite" where
  "GetFavoriteByNodeNumber nodeID nodeNumber s =
     (case tbl_find (\<lambda>f. fNodeID f = nodeID \<and> fNodeNumber f = nodeNumber) (favorites s) of
        None \<Rightarrow> Inl ErrNotFound | Some f \<Rightarrow> Inr f)"

text \<open>\<open>COALESCE((SELECT MAX(position)+1 FROM favorites WHERE node_id=?), 0)\<close>\<close>

definition next_position :: "int \<Rightarrow> store \<Rightarrow> int" where
  "next_position nodeID s =
     (case map fPosition (filter (\<lambda>f. fNodeID f = nodeID) (t_rows (favorites s))) of
        [] \<Rightarrow> 0 | p # ps \<Rightarrow> foldl max p ps + 1)"

text \<open>
  The row inserted has the next position; the favorite returned is the argument with its new
  id, its \<open>Position\<close> as it came.
\<close>

definition CreateFavorite :: "favorite \<Rightarrow> store \<Rightarrow> (db_error + favorite) \<times> store" where
  "CreateFavorite f s =
     (if fNodeID f \<notin> nID ` set (t_rows (nodes s)) then (Inl (ErrConstraint ''favorites.node_id''), s)
      else let (i, t) = tbl_insert (\<lambda>i f. f\<lparr>fID := i\<rparr>) (f\<lparr>fPosition := next_position (fNodeID f) s\<rparr>) (favorites s)
           in (Inr (f\<lparr>fID := i\<rparr>), s\<lparr>favorites := t\<rparr>))"

definition UpdateFavorite :: "favorite \<Rightarrow> store \<Rightarrow> store" where
  "UpdateFavorite f s = s\<lparr>favorites := tbl_update (\<lambda>r. fID r = fID f)
     (\<lambda>r. r\<lparr>fNodeNumber := fNodeNumber f, fCallsign := fCallsign f, fDescription := fDescription f,
       fLocation := fLocation f, fCmd := fCmd f, fSortOrder := fSortOrder f, fGroupName := fGroupName f\<rparr>)
     (favorites s)\<rparr>"

fun reorder_from :: "int \<Rightarrow> int \<Rightarrow> int list \<Rightarrow> store \<Rightarrow> store" where
  "reorder_from nodeID k [] s = s"
| "reorder_from nodeID k (i # ids) s =
     reorder_from nodeID (k + 1) ids
       (s\<lparr>favorites := tbl_update (\<lambda>f. fID f = i \<and> fNodeID f = nodeID) (\<lambda>f. f\<lparr>fPosition := k\<rparr>) (favorites s)\<rparr>)"

definition ReorderFavorites :: "int \<Rightarrow> int list \<Rightarrow> store \<Rightarrow> store" where
  "ReorderFavorites nodeID orderedIDs s = reorder_from nodeID 0 orderedIDs s"

text \<open>
  \<open>existing\<close> is the set of node numbers on the destination; a failing insert rolls the
  transaction back.
\<close>

fun copy_loop :: "int \<Rightarrow> int \<Rightarrow> int list \<Rightarrow> string set \<Rightarrow> nat \<Rightarrow> store \<Rightarrow> db_error + nat \<times> store" where
  "copy_loop srcNodeID dstNodeID [] existing copied s = Inr (copied, s)"
| "copy_loop srcNodeID dstNodeID (i # ids) existing copied s =
     (case tbl_find (\<lambda>f. fID f = i \<and> fNodeID f = srcNodeID) (favorites s) of
        None \<Rightarrow> copy_loop srcNodeID dstNodeID ids existing copied s
      | Some f \<Rightarrow>
          if fNodeNumber f \<in> existing then copy_loop srcNodeID dstNodeID ids existing copied s
          else case CreateFavorite (f\<lparr>fNodeID := dstNodeID\<rparr>) s of
              (Inl e, _) \<Rightarrow> Inl e
            | (Inr _, s') \<Rightarrow> copy_loop srcNodeID dstNodeID ids (insert (fNodeNumber f) existing) (copied + 1) s')"

definition CopyFavorites :: "int \<Rightarrow> int \<Rightarrow> int list \<Rightarrow> store \<Rightarrow> (db_error + nat) \<times> store" where
  "CopyFavorites srcNodeID dstNodeID ids s =
     (if ids = [] then (Inr 0, s)
      else case copy_loop srcNodeID dstNodeID ids
               (fNodeNumber ` {f \<in> set (t_rows (favorites s)). fNodeID f = dstNodeID}) 0 s of
          Inl e \<Rightarrow> (Inl e, s)
        | Inr (n, s') \<Rightarrow> (Inr n, s'))"

definition DeleteFavorite :: "int \<Rightarrow> store \<Rightarrow> store" where
  "DeleteFavorite i s = s\<lparr>favorites := tbl_delete (\<lambda>f. fID f = i) (favorites s)\<rparr>"

definition DeleteFavoritesByNode :: "int \<Rightarrow> store \<Rightarrow> store" where
  "DeleteFavoritesByNode nodeID s = s\<lparr>favorites := tbl_delete (\<lambda>f. fNodeID f = nodeID) (favorites s)\<rparr>"

section \<open>The persisted caches\<close>

definition LoadStatsCache :: "store \<Rightarrow> (string \<times> string) list" where
  "LoadStatsCache s = stats_cache s"

text \<open>The entries of a Go map, in the order of its iteration.\<close>

fun upsert_all :: "(string \<times> string) list \<Rightarrow> (string \<times> string) list \<Rightarrow> (string \<times> string) list" where
  "upsert_all [] t = t"
| "upsert_all ((num, raw) # es) t = upsert_all es (kv_upsert num raw t)"

definition SaveStatsCache :: "(string \<times> string) list \<Rightarrow> store \<Rightarrow> store" where
  "SaveStatsCache entries s =
     (if entries = [] then s else s\<lparr>stats_cache := upsert_all entries (stats_cache s)\<rparr>)"

definition PruneStatsCache :: "store \<Rightarrow> nat \<times> store" where
  "PruneStatsCache s =
     (let known = nNodeNumber ` set (t_rows (nodes s)) \<union> fNodeNumber ` set (t_rows (favorites s));
          kept = filter (\<lambda>e. fst e \<in> known) (stats_cache s)
      in (length (stats_cache s) - length kept, s\<lparr>stats_cache := kept\<rparr>))"

definition LoadQRZCache :: "store \<Rightarrow> (string \<times> string) list" where
  "LoadQRZCache s = map (\<lambda>(call, raw, _). (call, raw)) (qrz_cache s)"

definition ClearQRZCache :: "store \<Rightarrow> store" where
  "ClearQRZCache s = s\<lparr>qrz_cache := []\<rparr>"

definition SaveQRZRecord :: "string \<Rightarrow> string \<Rightarrow> int \<Rightarrow> store \<Rightarrow> store" where
  "SaveQRZRecord callsign record_json fetchedAt s =
     s\<lparr>qrz_cache := kv_upsert callsign (record_json, fetchedAt) (qrz_cache s)\<rparr>"

section \<open>What the operations change\<close>

lemma node_ops_users [db_simps]:
  "users (snd (CreateNode n s)) = users s" "users (UpdateNode n s) = users s"
  "users (DeleteNode i s) = users s" "users (snd (CreateFavorite f s)) = users s"
  "users (UpdateFavorite f s) = users s" "users (DeleteFavorite i s) = users s"
  by (simp_all add: CreateNode_def UpdateNode_def DeleteNode_def CreateFavorite_def
      UpdateFavorite_def DeleteFavorite_def split: prod.splits)

lemma fav_ops_nodes [db_simps]:
  "nodes (snd (CreateFavorite f s)) = nodes s" "nodes (UpdateFavorite f s) = nodes s"
  "nodes (DeleteFavorite i s) = nodes s"
  by (simp_all add: CreateFavorite_def UpdateFavorite_def DeleteFavorite_def split: prod.splits)

lemma node_ops_favs [db_simps]:
  "favorites (snd (CreateNode n s)) = favorites s" "favorites (UpdateNode n s) = favorites s"
  by (simp_all add: CreateNode_def UpdateNode_def split: prod.splits)

lemma CreateNode_eq:
  "CreateNode n s = (n\<lparr>nID := t_seq (nodes s) + 1\<rparr>,
     s\<lparr>nodes := snd (tbl_insert (\<lambda>i n. n\<lparr>nID := i\<rparr>) n (nodes s))\<rparr>)"
  by (simp add: CreateNode_def tbl_insert_def)

lemma CreateNode_rows [db_simps]:
  "t_rows (nodes (snd (CreateNode n s))) = t_rows (nodes s) @ [fst (CreateNode n s)]"
  by (simp add: CreateNode_eq)

lemma CreateFavorite_eq:
  "CreateFavorite f s =
     (if fNodeID f \<in> nID ` set (t_rows (nodes s))
      then (Inr (f\<lparr>fID := t_seq (favorites s) + 1\<rparr>),
            s\<lparr>favorites := snd (tbl_insert (\<lambda>i f. f\<lparr>fID := i\<rparr>)
                 (f\<lparr>fPosition := next_position (fNodeID f) s\<rparr>) (favorites s))\<rparr>)
      else (Inl (ErrConstraint ''favorites.node_id''), s))"
  by (simp add: CreateFavorite_def tbl_insert_def)

lemma GetNodeByNumber_InrD: "GetNodeByNumber k s = Inr n \<Longrightarrow> n \<in> set (t_rows (nodes s)) \<and> nNodeNumber n = k"
  by (auto simp: GetNodeByNumber_def tbl_find_def split: option.splits dest: find_SomeD)

lemma GetNodeByNumber_Inl_iff:
  "(GetNodeByNumber k s = Inl e) = (e = ErrNotFound \<and> k \<notin> nNodeNumber ` set (t_rows (nodes s)))"
  by (auto simp: GetNodeByNumber_def tbl_find_def find_None_iff split: option.splits dest: find_SomeD)

lemma GetNodeByID_InrD: "GetNodeByID i s = Inr n \<Longrightarrow> n \<in> set (t_rows (nodes s)) \<and> nID n = i"
  by (auto simp: GetNodeByID_def tbl_find_def split: option.splits dest: find_SomeD)

lemma GetFavoriteByNodeNumber_InrD:
  "GetFavoriteByNodeNumber i k s = Inr f \<Longrightarrow>
     f \<in> set (t_rows (favorites s)) \<and> fNodeID f = i \<and> fNodeNumber f = k"
  by (auto simp: GetFavoriteByNodeNumber_def tbl_find_def split: option.splits dest: find_SomeD)

lemma GetFavoriteByNodeNumber_Inl_iff:
  "(GetFavoriteByNodeNumber i k s = Inl e) =
     (e = ErrNotFound \<and> (\<forall>f \<in> set (t_rows (favorites s)). fNodeID f = i \<longrightarrow> fNodeNumber f \<noteq> k))"
  by (auto simp: GetFavoriteByNodeNumber_def tbl_find_def find_None_iff split: option.splits
      dest: find_SomeD)

lemma set_ListNodes [simp]: "set (ListNodes s) = set (t_rows (nodes s))"
  by (simp add: ListNodes_def)

lemma set_ListFavoritesByNode [simp]:
  "set (ListFavoritesByNode i s) = {f \<in> set (t_rows (favorites s)). fNodeID f = i}"
  by (simp add: ListFavoritesByNode_def)

section \<open>The operations keep the schema's constraints\<close>

lemma CreateNode_ok [inv_intros]: "store_ok s \<Longrightarrow> store_ok (snd (CreateNode n s))"
  using node_rows.insert_inv [of "nodes s" n]
  by (auto simp: CreateNode_eq store_ok_defs)

lemma UpdateNode_ok [inv_intros]: "store_ok s \<Longrightarrow> store_ok (UpdateNode n s)"
  by (simp add: UpdateNode_def store_ok_defs node_rows.update_inv image_update_where)

lemma DeleteNode_refs:
  assumes "fNodeID ` A \<subseteq> nID ` B"
  shows "fNodeID ` {f \<in> A. fNodeID f \<noteq> i} \<subseteq> nID ` {n \<in> B. nID n \<noteq> i}"
  using assms by (intro image_filter_subset [where q = "\<lambda>j. j \<noteq> i"]) simp_all

lemma DeleteNode_ok [inv_intros]: "store_ok s \<Longrightarrow> store_ok (DeleteNode i s)"
  by (simp add: DeleteNode_def store_ok_defs node_rows.delete_inv fav_rows.delete_inv DeleteNode_refs)

lemma CreateFavorite_ok [inv_intros]: "store_ok s \<Longrightarrow> store_ok (snd (CreateFavorite f s))"
  using fav_rows.insert_inv [of "favorites s" "f\<lparr>fPosition := next_position (fNodeID f) s\<rparr>"]
  by (auto simp: CreateFavorite_eq store_ok_defs)

lemma update_favorites_ok:
  assumes "store_ok s" and "\<And>f. fID (g f) = fID f" and "\<And>f. fNodeID (g f) = fNodeID f"
  shows "store_ok (s\<lparr>favorites := tbl_update p g (favorites s)\<rparr>)"
  using assms by (simp add: store_ok_defs fav_rows.update_inv image_update_where)

lemma UpdateFavorite_ok [inv_intros]: "store_ok s \<Longrightarrow> store_ok (UpdateFavorite f s)"
  by (simp add: UpdateFavorite_def update_favorites_ok)

lemma delete_favorites_ok: "store_ok s \<Longrightarrow> store_ok (s\<lparr>favorites := tbl_delete p (favorites s)\<rparr>)"
  by (auto simp: store_ok_defs fav_rows.delete_inv)

lemma DeleteFavorite_ok [inv_intros]:
  "store_ok s \<Longrightarrow> store_ok (DeleteFavorite i s)" "store_ok s \<Longrightarrow> store_ok (DeleteFavoritesByNode i s)"
  by (simp_all add: DeleteFavorite_def DeleteFavoritesByNode_def delete_favorites_ok)

lemma ReorderFavorites_ok [inv_intros]: "store_ok s \<Longrightarrow> store_ok (ReorderFavorites i ids s)"
proof -
  have "store_ok s \<Longrightarrow> store_ok (reorder_from i k ids s)" for k
    by (induction i k ids s rule: reorder_from.induct) (simp_all add: update_favorites_ok)
  then show "store_ok s \<Longrightarrow> store_ok (ReorderFavorites i ids s)" by (simp add: ReorderFavorites_def)
qed

lemma copy_loop_ok: "copy_loop a b ids E k s = Inr (n, s') \<Longrightarrow> store_ok s \<Longrightarrow> store_ok s'"
proof (induction a b ids E k s rule: copy_loop.induct)
  case (2 a b i ids E k s)
  show ?case
  proof (cases "tbl_find (\<lambda>f. fID f = i \<and> fNodeID f = a) (favorites s)")
    case None
    with "2.IH"(1) "2.prems" show ?thesis by simp
  next
    case (Some f)
    obtain r t where c: "CreateFavorite (f\<lparr>fNodeID := b\<rparr>) s = (r, t)" by force
    with CreateFavorite_ok [OF "2.prems"(2), of "f\<lparr>fNodeID := b\<rparr>"] have t: "store_ok t" by simp
    show ?thesis
    proof (cases "fNodeNumber f \<in> E")
      case True
      with "2.IH"(2) "2.prems" Some show ?thesis by simp
    next
      case False
      with "2.prems"(1) Some c obtain f' where r: "r = Inr f'"
        by (auto split: sum.splits)
      show ?thesis
        using "2.IH"(3) [OF Some False c [symmetric] r] "2.prems"(1) Some False c r t by simp
    qed
  qed
qed simp

lemma CopyFavorites_ok [inv_intros]: "store_ok s \<Longrightarrow> store_ok (snd (CopyFavorites a b ids s))"
  by (auto simp: CopyFavorites_def copy_loop_ok split: sum.splits)

lemma upsert_all_distinct: "distinct (map fst t) \<Longrightarrow> distinct (map fst (upsert_all es t))"
  by (induction es t rule: upsert_all.induct) (auto simp: distinct_kv_upsert)

lemma cache_ops_ok [inv_intros]:
  assumes "store_ok s"
  shows "store_ok (SaveStatsCache es s)" "store_ok (snd (PruneStatsCache s))"
    "store_ok (ClearQRZCache s)" "store_ok (SaveQRZRecord c r t s)"
  using assms by (simp_all add: SaveStatsCache_def PruneStatsCache_def ClearQRZCache_def
      SaveQRZRecord_def store_ok_defs upsert_all_distinct distinct_kv_upsert distinct_map_filter Let_def)

section \<open>Rows by their keys\<close>

lemma GetNodeByID_iff:
  assumes "store_ok s"
  shows "GetNodeByID i s = Inr n \<longleftrightarrow> n \<in> set (t_rows (nodes s)) \<and> nID n = i"
  using assms node_rows.find_id_unique [of "nodes s" n]
  by (auto simp: GetNodeByID_def store_ok_defs split: option.splits dest: find_SomeD)
    (auto simp: tbl_find_def dest: find_SomeD)

text \<open>The favorites of a node, in the order of insertion.\<close>

definition favsOf :: "int \<Rightarrow> store \<Rightarrow> favorite list" where
  "favsOf i s = filter (\<lambda>f. fNodeID f = i) (t_rows (favorites s))"

lemma GetFavorite_favsOf:
  "GetFavoriteByNodeNumber i k s =
     (case find (\<lambda>f. fNodeNumber f = k) (favsOf i s) of None \<Rightarrow> Inl ErrNotFound | Some f \<Rightarrow> Inr f)"
  by (simp add: GetFavoriteByNodeNumber_def tbl_find_def favsOf_def find_filter conj_commute)

lemma store_favs_ok: "store_ok s \<Longrightarrow> tbl_inv fID (favorites s)" "store_ok s \<Longrightarrow> tbl_inv nID (nodes s)"
  by (simp_all add: store_ok_def favs_ok_def)

lemma favsOf_CreateFavorite:
  assumes "CreateFavorite f s = (Inr f', s')"
  shows "favsOf i s' = favsOf i s @
    (if fNodeID f = i then [f\<lparr>fPosition := next_position (fNodeID f) s, fID := t_seq (favorites s) + 1\<rparr>] else [])"
  using assms by (auto simp: CreateFavorite_eq favsOf_def split: if_splits)

end
