(* ===== verification/Passwords.thy ===== *)
theory Passwords
  imports Go_Strings
begin

text \<open>
  \<open>internal/auth/password.go\<close>. bcrypt is a third-party package: \<open>bcrypt_gen\<close> stands for
  \<open>bcrypt.GenerateFromPassword\<close> (\<open>None\<close> for an error, as it gives above 72 bytes) and
  \<open>bcrypt_cmp\<close> for \<open>bcrypt.CompareHashAndPassword\<close>.
\<close>

datatype password_error = TooShort | HashingFailed

definition HashPassword :: "(string \<Rightarrow> string option) \<Rightarrow> string \<Rightarrow> password_error + string" where
  "HashPassword bcrypt_gen password =
     (if length password < 8 then Inl TooShort
      else case bcrypt_gen password of None \<Rightarrow> Inl HashingFailed | Some b \<Rightarrow> Inr b)"

definition CheckPassword :: "(string \<Rightarrow> string \<Rightarrow> bool) \<Rightarrow> string \<Rightarrow> string \<Rightarrow> bool" where
  "CheckPassword bcrypt_cmp hash password = bcrypt_cmp hash password"

lemma HashPassword_InrD: "HashPassword g p = Inr h \<Longrightarrow> 8 \<le> length p \<and> g p = Some h"
  by (auto simp: HashPassword_def split: if_splits option.splits)

end
