(* ===== verification/State_Apply.thy ===== *)
theory State_Apply
  imports Db_Nodes Passwords
begin

text \<open>
  \<open>internal/state/apply.go\<close>: the declarative state file and the reconciliation of the
  database with it. A loop over specs is \<open>run_specs\<close>: it stops at the first error, with
  the store and the report as they are at that point.
\<close>

section \<open>The state file\<close>

record PurgePolicy =
  PurgeUsers :: bool
  PurgeNodes :: bool
  PurgeFavorites :: bool

record UserSpec =
  usUsername :: string
  usPermission :: string
  usPassword :: string

record FavoriteSpec =
  fsNodeNumber :: string
  fsCallsign :: string
  fsDescription :: string
  fsLocation :: string
  fsGroupName :: string

record NodeSpec =
  nsName :: string
  nsNodeNumber :: string
  nsAMIHost :: string
  nsAMIPort :: int
  nsAMIUser :: string
  nsAMIPass :: string
  nsEnabled :: bool
  nsFavorites :: "FavoriteSpec list"

record StateFile =
  sfPurge :: PurgePolicy
  sfUsers :: "UserSpec list"
  sfNodes :: "NodeSpec list"

record ApplyOptions =
  DryRun :: bool
  ResetPasswords :: bool
  NoConfirm :: bool

record ChangeReport =
  UsersCreated :: nat
  UsersUpdated :: nat
  UsersDeleted :: nat
  NodesCreated :: nat
  NodesUpdated :: nat
  NodesDeleted :: nat
  FavsCreated :: nat
  FavsUpdated :: nat
  FavsDeleted :: nat

definition report0 :: ChangeReport where
  "report0 = \<lparr>UsersCreated = 0, UsersUpdated = 0, UsersDeleted = 0, NodesCreated = 0,
     NodesUpdated = 0, NodesDeleted = 0, FavsCreated = 0, FavsUpdated = 0, FavsDeleted = 0\<rparr>"

definition Total :: "ChangeReport \<Rightarrow> nat" where
  "Total r = UsersCreated r + UsersUpdated r + UsersDeleted r + NodesCreated r + NodesUpdated r
     + NodesDeleted r + FavsCreated r + FavsUpdated r + FavsDeleted r"

definition count_part :: "string \<Rightarrow> nat \<Rightarrow> nat \<Rightarrow> nat \<Rightarrow> string list" where
  "count_part what c u d =
     (if 0 < c + u + d
      then [what @ '': +'' @ nat_digits c @ '' ~'' @ nat_digits u @ '' -'' @ nat_digits d] else [])"

definition ReportString :: "ChangeReport \<Rightarrow> string" where
  "ReportString r =
     (if Total r = 0 then ''No changes''
      else ''Applied '' @ nat_digits (Total r) @ '' changes ('' @
        Join (count_part ''users'' (UsersCreated r) (UsersUpdated r) (UsersDeleted r) @
              count_part ''nodes'' (NodesCreated r) (NodesUpdated r) (NodesDeleted r) @
              count_part ''favorites'' (FavsCreated r) (FavsUpdated r) (FavsDeleted r)) ''; '' @ '')'')"

datatype apply_error =
    EnvNotSet string string nat
  | MissingUsername
  | InvalidPermission string string
  | MissingNodeNumber
  | MissingFavoriteNumber string nat
  | PasswordError password_error string
  | DatabaseError db_error string

section \<open>Environment references\<close>

text \<open>\<open>env\<close> is \<open>os.LookupEnv\<close>; the field of the error is its kind and index.\<close>

definition resolveEnv :: "(string \<Rightarrow> string option) \<Rightarrow> string \<Rightarrow> string \<Rightarrow> nat \<Rightarrow> apply_error + string" where
  "resolveEnv env v field i =
     (if HasPrefix v ''$$'' then Inr (drop 1 v)
      else if \<not> HasPrefix v ''$'' then Inr v
      else case env (drop 1 v) of
          None \<Rightarrow> Inl (EnvNotSet (drop 1 v) field i)
        | Some val \<Rightarrow> Inr val)"

fun substUsers :: "(string \<Rightarrow> string option) \<Rightarrow> nat \<Rightarrow> UserSpec list \<Rightarrow> apply_error + UserSpec list" where
  "substUsers env i [] = Inr []"
| "substUsers env i (u # us) =
     bindE (resolveEnv env (usPassword u) ''users.password'' i) (\<lambda>v.
     bindE (substUsers env (Suc i) us) (\<lambda>us'. Inr (u\<lparr>usPassword := v\<rparr> # us')))"

fun substNodes :: "(string \<Rightarrow> string option) \<Rightarrow> nat \<Rightarrow> NodeSpec list \<Rightarrow> apply_error + NodeSpec list" where
  "substNodes env i [] = Inr []"
| "substNodes env i (n # ns) =
     bindE (resolveEnv env (nsAMIPass n) ''nodes.ami_pass'' i) (\<lambda>v.
     bindE (substNodes env (Suc i) ns) (\<lambda>ns'. Inr (n\<lparr>nsAMIPass := v\<rparr> # ns')))"

definition substituteEnv :: "(string \<Rightarrow> string option) \<Rightarrow> StateFile \<Rightarrow> apply_error + StateFile" where
  "substituteEnv env sf =
     bindE (substUsers env 0 (sfUsers sf)) (\<lambda>us.
     bindE (substNodes env 0 (sfNodes sf)) (\<lambda>ns.
     Inr (sf\<lparr>sfUsers := us, sfNodes := ns\<rparr>)))"

text \<open>\<open>Load\<close>: \<open>read\<close> reads a file and \<open>unmarshal\<close> decodes YAML, both with an error text.\<close>

datatype state_error = StateUnreadable string | StateUnparsable string | StateEnv apply_error

definition LoadState :: "(string \<Rightarrow> string + string) \<Rightarrow> (string \<Rightarrow> string + StateFile) \<Rightarrow> (string \<Rightarrow> string option)
    \<Rightarrow> string \<Rightarrow> state_error + StateFile" where
  "LoadState read unmarshal env path =
     (case read path of
        Inl e \<Rightarrow> Inl (StateUnreadable e)
      | Inr data \<Rightarrow> (case unmarshal data of
          Inl e \<Rightarrow> Inl (StateUnparsable e)
        | Inr sf \<Rightarrow> (case substituteEnv env sf of Inl e \<Rightarrow> Inl (StateEnv e) | Inr sf' \<Rightarrow> Inr sf')))"

section \<open>Loops over specs\<close>

type_synonym applied = "apply_error option \<times> store \<times> ChangeReport"

fun run_specs :: "('a \<Rightarrow> store \<Rightarrow> ChangeReport \<Rightarrow> applied) \<Rightarrow> 'a list \<Rightarrow> store \<Rightarrow> ChangeReport \<Rightarrow> applied" where
  "run_specs step [] s r = (None, s, r)"
| "run_specs step (x # xs) s r =
     (case step x s r of
        (Some e, s', r') \<Rightarrow> (Some e, s', r')
      | (None, s', r') \<Rightarrow> run_specs step xs s' r')"

definition and_then :: "applied \<Rightarrow> (store \<Rightarrow> ChangeReport \<Rightarrow> applied) \<Rightarrow> applied" where
  "and_then m f = (case m of (Some e, s, r) \<Rightarrow> (Some e, s, r) | (None, s, r) \<Rightarrow> f s r)"

section \<open>Users\<close>

fun checkUsers :: "UserSpec list \<Rightarrow> apply_error option" where
  "checkUsers [] = None"
| "checkUsers (u # us) =
     (if usUsername u = [] then Some MissingUsername
      else if \<not> ValidPermission (usPermission u) then Some (InvalidPermission (usUsername u) (usPermission u))
      else checkUsers us)"

definition applyUser :: "(string \<Rightarrow> string option) \<Rightarrow> ApplyOptions \<Rightarrow> UserSpec \<Rightarrow> store \<Rightarrow> ChangeReport \<Rightarrow> applied" where
  "applyUser bcrypt opts spec s r =
     (case GetUser (usUsername spec) s of
        Inl ErrNotFound \<Rightarrow>
          if DryRun opts then (None, s, r\<lparr>UsersCreated := UsersCreated r + 1\<rparr>)
          else (case HashPassword bcrypt (usPassword spec) of
              Inl e \<Rightarrow> (Some (PasswordError e (usUsername spec)), s, r)
            | Inr hash \<Rightarrow>
                (case CreateUser (usUsername spec) hash (usPermission spec) s of
                   (Inl e, s') \<Rightarrow> (Some (DatabaseError e (usUsername spec)), s', r)
                 | (Inr _, s') \<Rightarrow> (None, s', r\<lparr>UsersCreated := UsersCreated r + 1\<rparr>)))
      | Inl e \<Rightarrow> (Some (DatabaseError e (usUsername spec)), s, r)
      | Inr existing \<Rightarrow>
          let changed = (uPermission existing \<noteq> usPermission spec);
              s1 = (if changed \<and> \<not> DryRun opts
                    then UpdateUserPermission (uID existing) (usPermission spec) s else s);
              r1 = r\<lparr>UsersUpdated := UsersUpdated r + 1\<rparr>
          in if ResetPasswords opts
             then if DryRun opts then (None, s1, r1)
                  else (case HashPassword bcrypt (usPassword spec) of
                      Inl e \<Rightarrow> (Some (PasswordError e (usUsername spec)), s1, r)
                    | Inr hash \<Rightarrow> (None, UpdateUserPassword (uID existing) hash s1, r1))
             else (None, s1, if changed then r1 else r))"

text \<open>One account of the purge loop; the accounts are those listed before it started.\<close>

definition purgeUser :: "ApplyOptions \<Rightarrow> string set \<Rightarrow> user \<Rightarrow> store \<Rightarrow> ChangeReport \<Rightarrow> applied" where
  "purgeUser opts wanted u s r =
     (if uUsername u \<in> wanted then (None, s, r)
      else if uPermission u = PermSuperuser \<and> CountSuperusers s \<le> 1 then (None, s, r)
      else (None, if DryRun opts then s else DeleteUser (uID u) s,
            r\<lparr>UsersDeleted := UsersDeleted r + 1\<rparr>))"

definition applyUsers :: "(string \<Rightarrow> string option) \<Rightarrow> StateFile \<Rightarrow> ApplyOptions \<Rightarrow> store \<Rightarrow> ChangeReport \<Rightarrow> applied" where
  "applyUsers bcrypt sf opts s r =
     (case checkUsers (sfUsers sf) of
        Some e \<Rightarrow> (Some e, s, r)
      | None \<Rightarrow>
          and_then (run_specs (applyUser bcrypt opts) (sfUsers sf) s r) (\<lambda>s r.
            if PurgeUsers (sfPurge sf)
            then run_specs (purgeUser opts (usUsername ` set (sfUsers sf))) (ListUsers s) s r
            else (None, s, r)))"

section \<open>Favorites\<close>

definition favChanged :: "favorite \<Rightarrow> favorite \<Rightarrow> bool" where
  "favChanged a b \<longleftrightarrow> fCallsign a \<noteq> fCallsign b \<or> fDescription a \<noteq> fDescription b
     \<or> fLocation a \<noteq> fLocation b \<or> fGroupName a \<noteq> fGroupName b"

definition specGroup :: "FavoriteSpec \<Rightarrow> string" where
  "specGroup f = (if fsGroupName f = [] then ''default'' else fsGroupName f)"

text \<open>The \<open>db.Favorite\<close> literals of the code: for a new favorite and for an existing one.\<close>

definition newFavorite :: "int \<Rightarrow> FavoriteSpec \<Rightarrow> favorite" where
  "newFavorite nodeID f = \<lparr>fID = 0, fNodeID = nodeID, fNodeNumber = fsNodeNumber f,
     fCallsign = fsCallsign f, fDescription = fsDescription f, fLocation = fsLocation f, fCmd = [],
     fSortOrder = 0, fGroupName = specGroup f, fPosition = 0\<rparr>"

definition updateOfFavorite :: "int \<Rightarrow> FavoriteSpec \<Rightarrow> favorite \<Rightarrow> favorite" where
  "updateOfFavorite nodeID f existing =
     (newFavorite nodeID f)\<lparr>fID := fID existing, fSortOrder := fSortOrder existing\<rparr>"

fun checkFavorites :: "string \<Rightarrow> nat \<Rightarrow> FavoriteSpec list \<Rightarrow> apply_error option" where
  "checkFavorites num i [] = None"
| "checkFavorites num i (f # fs) =
     (if fsNodeNumber f = [] then Some (MissingFavoriteNumber num i) else checkFavorites num (Suc i) fs)"

definition applyFavorite :: "int \<Rightarrow> ApplyOptions \<Rightarrow> FavoriteSpec \<Rightarrow> store \<Rightarrow> ChangeReport \<Rightarrow> applied" where
  "applyFavorite nodeID opts fspec s r =
     (case GetFavoriteByNodeNumber nodeID (fsNodeNumber fspec) s of
        Inl ErrNotFound \<Rightarrow>
          if DryRun opts then (None, s, r\<lparr>FavsCreated := FavsCreated r + 1\<rparr>)
          else (case CreateFavorite (newFavorite nodeID fspec) s of
              (Inl e, s') \<Rightarrow> (Some (DatabaseError e (fsNodeNumber fspec)), s', r)
            | (Inr _, s') \<Rightarrow> (None, s', r\<lparr>FavsCreated := FavsCreated r + 1\<rparr>))
      | Inl e \<Rightarrow> (Some (DatabaseError e (fsNodeNumber fspec)), s, r)
      | Inr existing \<Rightarrow>
          let update = updateOfFavorite nodeID fspec existing
          in if favChanged existing update
             then (None, if DryRun opts then s else UpdateFavorite update s,
                   r\<lparr>FavsUpdated := FavsUpdated r + 1\<rparr>)
             else (None, s, r))"

definition purgeFavorite :: "ApplyOptions \<Rightarrow> string set \<Rightarrow> favorite \<Rightarrow> store \<Rightarrow> ChangeReport \<Rightarrow> applied" where
  "purgeFavorite opts wanted f s r =
     (if fNodeNumber f \<in> wanted then (None, s, r)
      else (None, if DryRun opts then s else DeleteFavorite (fID f) s,
            r\<lparr>FavsDeleted := FavsDeleted r + 1\<rparr>))"

definition applyFavorites :: "int \<Rightarrow> NodeSpec \<Rightarrow> ApplyOptions \<Rightarrow> bool \<Rightarrow> store \<Rightarrow> ChangeReport \<Rightarrow> applied" where
  "applyFavorites nodeID spec opts purgeFavs s r =
     (case checkFavorites (nsNodeNumber spec) 0 (nsFavorites spec) of
        Some e \<Rightarrow> (Some e, s, r)
      | None \<Rightarrow>
          and_then (run_specs (applyFavorite nodeID opts) (nsFavorites spec) s r) (\<lambda>s r.
            if \<not> purgeFavs then (None, s, r)
            else run_specs (purgeFavorite opts (fsNodeNumber ` set (nsFavorites spec)))
                   (ListFavoritesByNode nodeID s) s r))"

section \<open>Nodes\<close>

definition nodeChanged :: "node \<Rightarrow> node \<Rightarrow> bool" where
  "nodeChanged a b \<longleftrightarrow> nName a \<noteq> nName b \<or> nAMIHost a \<noteq> nAMIHost b \<or> nAMIPort a \<noteq> nAMIPort b
     \<or> nAMIUser a \<noteq> nAMIUser b \<or> nAMIPass a \<noteq> nAMIPass b \<or> nEnabled a \<noteq> nEnabled b"

text \<open>The spec with the defaults filled in, and the \<open>db.Node\<close> literal of the code.\<close>

definition specDefaults :: "NodeSpec \<Rightarrow> NodeSpec" where
  "specDefaults spec = spec\<lparr>nsAMIPort := (if nsAMIPort spec = 0 then 5038 else nsAMIPort spec),
     nsAMIHost := (if nsAMIHost spec = [] then ''localhost'' else nsAMIHost spec)\<rparr>"

definition nodeOfSpec :: "int \<Rightarrow> NodeSpec \<Rightarrow> node" where
  "nodeOfSpec i spec = \<lparr>nID = i, nName = nsName spec, nNodeNumber = nsNodeNumber spec,
     nAMIHost = nsAMIHost spec, nAMIPort = nsAMIPort spec, nAMIUser = nsAMIUser spec,
     nAMIPass = nsAMIPass spec, nEnabled = nsEnabled spec, nDescription = [], nLocation = []\<rparr>"

fun checkNodes :: "NodeSpec list \<Rightarrow> apply_error option" where
  "checkNodes [] = None"
| "checkNodes (n # ns) = (if nsNodeNumber n = [] then Some MissingNodeNumber else checkNodes ns)"

definition applyNode :: "ApplyOptions \<Rightarrow> bool \<Rightarrow> NodeSpec \<Rightarrow> store \<Rightarrow> ChangeReport \<Rightarrow> applied" where
  "applyNode opts purgeFavs spec0 s r =
     (let spec = specDefaults spec0 in
      case GetNodeByNumber (nsNodeNumber spec) s of
        Inl ErrNotFound \<Rightarrow>
          if DryRun opts then (None, s, r\<lparr>NodesCreated := NodesCreated r + 1\<rparr>)
          else (case CreateNode (nodeOfSpec 0 spec) s of
              (n, s') \<Rightarrow> applyFavorites (nID n) spec opts purgeFavs s' (r\<lparr>NodesCreated := NodesCreated r + 1\<rparr>))
      | Inl e \<Rightarrow> (Some (DatabaseError e (nsNodeNumber spec)), s, r)
      | Inr existing \<Rightarrow>
          let update = nodeOfSpec (nID existing) spec in
          if nodeChanged existing update
          then applyFavorites (nID existing) spec opts purgeFavs
                 (if DryRun opts then s else UpdateNode update s) (r\<lparr>NodesUpdated := NodesUpdated r + 1\<rparr>)
          else applyFavorites (nID existing) spec opts purgeFavs s r)"

definition purgeNode :: "ApplyOptions \<Rightarrow> string set \<Rightarrow> node \<Rightarrow> store \<Rightarrow> ChangeReport \<Rightarrow> applied" where
  "purgeNode opts wanted n s r =
     (if nNodeNumber n \<in> wanted then (None, s, r)
      else (None, if DryRun opts then s else DeleteNode (nID n) s,
            r\<lparr>NodesDeleted := NodesDeleted r + 1\<rparr>))"

definition applyNodes :: "StateFile \<Rightarrow> ApplyOptions \<Rightarrow> store \<Rightarrow> ChangeReport \<Rightarrow> applied" where
  "applyNodes sf opts s r =
     (case checkNodes (sfNodes sf) of
        Some e \<Rightarrow> (Some e, s, r)
      | None \<Rightarrow>
          and_then (run_specs (applyNode opts (PurgeFavorites (sfPurge sf))) (sfNodes sf) s r) (\<lambda>s r.
            if PurgeNodes (sfPurge sf)
            then run_specs (purgeNode opts (nsNodeNumber ` set (sfNodes sf))) (ListNodes s) s r
            else (None, s, r)))"

definition Apply :: "(string \<Rightarrow> string option) \<Rightarrow> StateFile \<Rightarrow> ApplyOptions \<Rightarrow> store \<Rightarrow> applied" where
  "Apply bcrypt sf opts s =
     and_then (applyUsers bcrypt sf opts s report0) (\<lambda>s r. applyNodes sf opts s r)"

end
