(* ===== verification/State_Reconcile.thy ===== *)
theory State_Reconcile
  imports State_Apply
begin

text \<open>
  The library behind the properties of \<open>yaamon apply\<close>. Two interfaces of a loop over specs:
  \<open>reconcile\<close> (each step makes its spec conform and leaves the specs of other keys alone)
  and \<open>steady\<close> (a step on a conforming spec changes nothing). The user, favorite and node
  steps of the code interpret both, the purge steps the second.
\<close>

section \<open>Loops\<close>

lemma run_specs_inv:
  assumes "run_specs step xs s r = (e, s', r')" and "P s"
    and "\<And>x s r e s' r'. x \<in> set xs \<Longrightarrow> P s \<Longrightarrow> step x s r = (e, s', r') \<Longrightarrow> P s'"
  shows "P s'"
  using assms
proof (induction xs arbitrary: s r)
  case (Cons x xs)
  obtain e1 s1 r1 where step: "step x s r = (e1, s1, r1)" by (cases "step x s r") auto
  with Cons.prems have s1: "P s1" by fastforce
  show ?case
  proof (cases e1)
    case None
    with step Cons.prems(1) have "run_specs step xs s1 r1 = (e, s', r')" by simp
    then show ?thesis by (rule Cons.IH [OF _ s1]) (meson Cons.prems(3) list.set_intros(2))
  next
    case (Some a)
    with step s1 Cons.prems(1) show ?thesis by simp
  qed
qed simp

lemma and_then_cases:
  assumes "and_then m f = (e, s', r')"
  obtains (stopped) x where "m = (Some x, s', r')" "e = Some x"
  | (continued) s1 r1 where "m = (None, s1, r1)" "f s1 r1 = (e, s', r')"
  using assms by (cases m; cases "fst m") (auto simp: and_then_def)

lemma and_then_None [simp]: "and_then (None, s, r) f = f s r"
  by (simp add: and_then_def)

lemma run_specs_ConsE:
  assumes "run_specs step (x # xs) s r = (None, s', r')"
  obtains s1 r1 where "step x s r = (None, s1, r1)" "run_specs step xs s1 r1 = (None, s', r')"
  using assms by (auto split: prod.splits option.splits)

locale steady =
  fixes step :: "'a \<Rightarrow> store \<Rightarrow> ChangeReport \<Rightarrow> applied" and conf :: "store \<Rightarrow> 'a \<Rightarrow> bool"
  assumes step_steady: "conf s x \<Longrightarrow> step x s r = (None, s, r)"
begin

lemma run_steady: "\<forall>x \<in> set xs. conf s x \<Longrightarrow> run_specs step xs s r = (None, s, r)"
  by (induction xs) (simp_all add: step_steady)

end

locale reconcile =
  fixes step :: "'a \<Rightarrow> store \<Rightarrow> ChangeReport \<Rightarrow> applied" and key :: "'a \<Rightarrow> 'k"
    and conf :: "store \<Rightarrow> 'a \<Rightarrow> bool" and inv :: "store \<Rightarrow> bool"
  assumes step_inv: "inv s \<Longrightarrow> step x s r = (e, s', r') \<Longrightarrow> inv s'"
    and step_conf: "inv s \<Longrightarrow> step x s r = (None, s', r') \<Longrightarrow> conf s' x"
    and step_frame: "inv s \<Longrightarrow> step x s r = (None, s', r') \<Longrightarrow> conf s y \<Longrightarrow> key y \<noteq> key x \<Longrightarrow> conf s' y"
begin

lemma run_inv: "inv s \<Longrightarrow> run_specs step xs s r = (e, s', r') \<Longrightarrow> inv s'"
  by (erule run_specs_inv) (auto dest: step_inv)

lemma run_frame:
  "inv s \<Longrightarrow> run_specs step xs s r = (None, s', r') \<Longrightarrow> conf s y \<Longrightarrow> key y \<notin> key ` set xs \<Longrightarrow> conf s' y"
proof (induction xs arbitrary: s r)
  case (Cons x xs)
  from Cons.prems(2) obtain s1 r1
    where step: "step x s r = (None, s1, r1)" and run: "run_specs step xs s1 r1 = (None, s', r')"
    by (rule run_specs_ConsE)
  have "inv s1" "conf s1 y"
    using step_inv [OF Cons.prems(1) step] step_frame [OF Cons.prems(1) step Cons.prems(3)] Cons.prems(4)
    by auto
  from Cons.IH [OF this(1) run this(2)] Cons.prems(4) show ?case by simp
qed simp

lemma run_conf:
  "distinct (map key xs) \<Longrightarrow> inv s \<Longrightarrow> run_specs step xs s r = (None, s', r') \<Longrightarrow> \<forall>x \<in> set xs. conf s' x"
proof (induction xs arbitrary: s r)
  case (Cons x xs)
  from Cons.prems(3) obtain s1 r1
    where step: "step x s r = (None, s1, r1)" and run: "run_specs step xs s1 r1 = (None, s', r')"
    by (rule run_specs_ConsE)
  have s1: "inv s1" "conf s1 x"
    using step_inv [OF Cons.prems(2) step] step_conf [OF Cons.prems(2) step] by auto
  have "conf s' x" by (rule run_frame [OF s1(1) run s1(2)]) (use Cons.prems(1) in auto)
  with Cons.IH [OF _ s1(1) run] Cons.prems(1) show ?case by simp
qed simp

end

section \<open>Users\<close>

definition userConforms :: "store \<Rightarrow> UserSpec \<Rightarrow> bool" where
  "userConforms s spec =
     (case GetUser (usUsername spec) s of Inl _ \<Rightarrow> False | Inr u \<Rightarrow> uPermission u = usPermission spec)"

abbreviation live :: "bool \<Rightarrow> bool \<Rightarrow> ApplyOptions" where
  "live rp nc \<equiv> \<lparr>DryRun = False, ResetPasswords = rp, NoConfirm = nc\<rparr>"

lemma GetUser_update_user:
  assumes "\<And>u. uUsername (f u) = uUsername u"
  shows "GetUser n (update_user i f s) =
    (case GetUser n s of Inl e \<Rightarrow> Inl e | Inr u \<Rightarrow> Inr (if uID u = i then f u else u))"
  using assms
  by (simp add: GetUser_def tbl_find_def db_simps find_update_where split: option.splits)

lemma GetUser_CreateUser:
  assumes "CreateUser n h p s = (Inr u, s')"
  shows "GetUser m s' = (case GetUser m s of Inr v \<Rightarrow> Inr v | Inl e \<Rightarrow> if m = n then Inr u else Inl e)"
  using CreateUser_InrD [OF assms]
  by (auto simp: GetUser_def tbl_find_def find_append split: option.splits sum.splits)

lemma userConforms_update:
  assumes "userConforms s spec" and "\<And>u. uUsername (f u) = uUsername u" and "\<And>u. uPermission (f u) = uPermission u"
  shows "userConforms (update_user i f s) spec"
  using assms by (auto simp: userConforms_def GetUser_update_user split: sum.splits)

lemma userConforms_update_other:
  assumes "users_ok s" and "userConforms s spec" and "GetUserByID i s = Inr u"
    and "uUsername u \<noteq> usUsername spec" and "\<And>u. uUsername (f u) = uUsername u"
  shows "userConforms (update_user i f s) spec"
proof -
  from assms(2) obtain v where v: "GetUser (usUsername spec) s = Inr v" "uPermission v = usPermission spec"
    by (auto simp: userConforms_def split: sum.splits)
  have "uID v \<noteq> i"
  proof
    assume "uID v = i"
    with v(1) GetUser_InrD [OF v(1)] GetUserByID_InrD [OF assms(3)]
    have "v = u" using user_rows.ids_eqD [OF users_ok_tbl [OF assms(1)]] by auto
    with GetUser_InrD [OF v(1)] assms(4) show False by auto
  qed
  with v show ?thesis by (simp add: userConforms_def GetUser_update_user assms(5))
qed

lemma store_users_ok: "store_ok s \<Longrightarrow> users_ok s"
  by (simp add: store_ok_def)

lemma GetUser_ID: "users_ok s \<Longrightarrow> GetUser n s = Inr u \<Longrightarrow> GetUserByID (uID u) s = Inr u"
  by (simp add: GetUserByID_iff GetUser_iff)

lemma applyUser_ok:
  assumes "store_ok s" and "applyUser b opts spec s r = (e, s', r')"
  shows "store_ok s'"
  using assms CreateUser_ok [OF assms(1)]
  by (auto simp: applyUser_def Let_def update_user_family_ok split: sum.splits db_error.splits if_splits prod.splits)
    (metis snd_conv)+

lemma applyUser_existing:
  assumes "GetUser (usUsername spec) s = Inr u" and "applyUser b (live rp nc) spec s r = (None, s', r')"
  shows "\<exists>f. s' = update_user (uID u) f (if uPermission u = usPermission spec then s
             else UpdateUserPermission (uID u) (usPermission spec) s)
           \<and> (\<forall>u. uUsername (f u) = uUsername u \<and> uPermission (f u) = uPermission u)"
proof -
  have id: "s = update_user (uID u) (\<lambda>u. u) s" for s
    by (simp add: update_user_def tbl_update_def update_where_id)
  show ?thesis
  proof (cases rp)
    case True
    with assms obtain h where "s' = UpdateUserPassword (uID u) h
        (if uPermission u = usPermission spec then s else UpdateUserPermission (uID u) (usPermission spec) s)"
      by (auto simp: applyUser_def Let_def split: sum.splits if_splits)
    then show ?thesis
      by (intro exI [where x = "\<lambda>u. u\<lparr>uPassword := h\<rparr>"]) (simp add: UpdateUserPassword_def)
  next
    case False
    with assms show ?thesis
      by (intro exI [where x = "\<lambda>u. u"]) (auto simp: applyUser_def Let_def simp flip: id split: if_splits)
  qed
qed

lemma applyUser_new:
  assumes "GetUser (usUsername spec) s = Inl e" and "applyUser b (live rp nc) spec s r = (None, s', r')"
  shows "\<exists>h u. CreateUser (usUsername spec) h (usPermission spec) s = (Inr u, s')"
proof -
  from assms(1) have "e = ErrNotFound" by (simp add: GetUser_Inl_iff)
  with assms show ?thesis
    by (auto simp: applyUser_def split: sum.splits prod.splits)
qed

lemma applyUser_conf:
  assumes "store_ok s" and "applyUser b (live rp nc) spec s r = (None, s', r')"
  shows "userConforms s' spec"
proof (cases "GetUser (usUsername spec) s")
  case (Inl e)
  from applyUser_new [OF this assms(2)] obtain h u
    where c: "CreateUser (usUsername spec) h (usPermission spec) s = (Inr u, s')" by auto
  with Inl show ?thesis
    by (simp add: userConforms_def GetUser_CreateUser [OF c]) (use CreateUser_InrD [OF c] in auto)
next
  case (Inr u)
  from applyUser_existing [OF this assms(2)] obtain f
    where s': "s' = update_user (uID u) f (if uPermission u = usPermission spec then s
             else UpdateUserPermission (uID u) (usPermission spec) s)"
      and f: "\<And>u. uUsername (f u) = uUsername u" "\<And>u. uPermission (f u) = uPermission u" by auto
  have "userConforms (if uPermission u = usPermission spec then s
      else UpdateUserPermission (uID u) (usPermission spec) s) spec"
    using Inr by (simp add: userConforms_def UpdateUserPermission_def GetUser_update_user)
  with userConforms_update [OF this f] s' show ?thesis by simp
qed

lemma applyUser_frame:
  assumes "store_ok s" and "applyUser b (live rp nc) spec s r = (None, s', r')"
    and "userConforms s spec'" and "usUsername spec' \<noteq> usUsername spec"
  shows "userConforms s' spec'"
proof (cases "GetUser (usUsername spec) s")
  case (Inl e)
  from applyUser_new [OF this assms(2)] obtain h u
    where "CreateUser (usUsername spec) h (usPermission spec) s = (Inr u, s')" by auto
  from GetUser_CreateUser [OF this] assms(3) show ?thesis
    by (auto simp: userConforms_def split: sum.splits)
next
  case (Inr u)
  from applyUser_existing [OF this assms(2)] obtain f
    where s': "s' = update_user (uID u) f (if uPermission u = usPermission spec then s
             else UpdateUserPermission (uID u) (usPermission spec) s)"
      and f: "\<And>u. uUsername (f u) = uUsername u" "\<And>u. uPermission (f u) = uPermission u" by auto
  have "userConforms (UpdateUserPermission (uID u) (usPermission spec) s) spec'"
    unfolding UpdateUserPermission_def
    by (rule userConforms_update_other [OF store_users_ok [OF assms(1)] assms(3)
          GetUser_ID [OF store_users_ok [OF assms(1)] Inr]])
      (use assms(4) GetUser_InrD [OF Inr] in auto)
  with assms(3) have "userConforms (if uPermission u = usPermission spec then s
      else UpdateUserPermission (uID u) (usPermission spec) s) spec'" by simp
  with userConforms_update [OF this f] s' show ?thesis by simp
qed

interpretation user_loop: reconcile "applyUser b (live rp nc)" usUsername userConforms store_ok for b rp nc
  by unfold_locales (auto intro: applyUser_ok applyUser_conf applyUser_frame)

interpretation user_steady: steady "applyUser b \<lparr>DryRun = d, ResetPasswords = False, NoConfirm = nc\<rparr>" userConforms
  for b d nc
  by unfold_locales (auto simp: applyUser_def userConforms_def Let_def split: sum.splits)

section \<open>The purge of users\<close>

text \<open>An account the purge keeps: wanted, or the only superuser left.\<close>

definition userKept :: "string set \<Rightarrow> store \<Rightarrow> user \<Rightarrow> bool" where
  "userKept wanted s u \<longleftrightarrow>
     uUsername u \<in> wanted \<or> (uPermission u = PermSuperuser \<and> CountSuperusers s \<le> 1)"

interpretation purge_users_steady: steady "purgeUser opts wanted" "userKept wanted" for opts wanted
  by unfold_locales (auto simp: purgeUser_def userKept_def)

lemma purgeUser_ok: "store_ok s \<Longrightarrow> purgeUser opts W u s r = (e, s', r') \<Longrightarrow> store_ok s'"
  by (auto simp: purgeUser_def DeleteUser_ok split: if_splits)

lemma purgeUser_None: "purgeUser opts W u s r = (e, s', r') \<Longrightarrow> e = None"
  by (auto simp: purgeUser_def split: if_splits)

lemma purgeUser_subset:
  "purgeUser opts W u s r = (e, s', r') \<Longrightarrow> set (t_rows (users s')) \<subseteq> set (t_rows (users s))"
  by (auto simp: purgeUser_def db_simps split: if_splits)

lemma CountSuperusers_mono:
  assumes "t_rows (users s') = filter p (t_rows (users s))"
  shows "CountSuperusers s' \<le> CountSuperusers s"
proof -
  have "length (filter q (filter p us)) \<le> length (filter q us)" for q p :: "user \<Rightarrow> bool" and us
    by (induction us) auto
  then show ?thesis using assms by (simp add: CountSuperusers_def del: filter_filter)
qed

lemma purgeUser_rows:
  "purgeUser opts W u s r = (e, s', r') \<Longrightarrow> \<exists>p. t_rows (users s') = filter p (t_rows (users s))"
  by (auto simp: purgeUser_def db_simps split: if_splits intro: exI [where x = "\<lambda>_. True"])

text \<open>A purge step never takes the last superuser away.\<close>

lemma purgeUser_keeps_superuser:
  assumes "users_ok s" and "u \<in> set (t_rows (users s)) \<or> uID u \<notin> uID ` set (t_rows (users s))"
    and "purgeUser opts W u s r = (e, s', r')" and "0 < CountSuperusers s"
  shows "0 < CountSuperusers s'"
proof (cases "u \<in> set (t_rows (users s))")
  case True
  with assms(3,4) CountSuperusers_delete [OF assms(1) True] show ?thesis
    by (auto simp: purgeUser_def PermSuperuser_def split: if_splits)
next
  case False
  with assms(2) have "filter (\<lambda>x. uID x \<noteq> uID u) (t_rows (users s)) = t_rows (users s)"
    by (auto simp: filter_id_conv image_iff)
  with assms(3,4) show ?thesis
    by (auto simp: purgeUser_def CountSuperusers_def db_simps split: if_splits)
qed

text \<open>
  What the loop over the listed accounts establishes: every account that remains is kept, or is
  still on the list.
\<close>

lemma purge_users_run:
  assumes "run_specs (purgeUser opts W) us s r = (e, s', r')" and "\<not> DryRun opts"
    and "store_ok s" and "set (t_rows (users s)) \<subseteq> set us \<union> {u. userKept W s u}"
    and "\<And>x y. x \<in> set us \<Longrightarrow> y \<in> set (t_rows (users s)) \<Longrightarrow> uID x = uID y \<Longrightarrow> x = y"
  shows "\<forall>u \<in> set (t_rows (users s')). userKept W s' u"
  using assms
proof (induction us arbitrary: s r)
  case (Cons u us)
  obtain e1 s1 r1 where step: "purgeUser opts W u s r = (e1, s1, r1)" by (cases "purgeUser opts W u s r") auto
  with purgeUser_None [OF step] Cons.prems(1)
  have run: "run_specs (purgeUser opts W) us s1 r1 = (e, s', r')" by simp
  have sub: "set (t_rows (users s1)) \<subseteq> set (t_rows (users s))" by (rule purgeUser_subset [OF step])
  have mono: "CountSuperusers s1 \<le> CountSuperusers s"
    using purgeUser_rows [OF step] CountSuperusers_mono by blast
  have kept: "userKept W s1 v" if "userKept W s v" for v
    using that mono by (auto simp: userKept_def)
  have "u \<notin> set (t_rows (users s1)) \<or> userKept W s1 u"
    using step Cons.prems(2) by (auto simp: purgeUser_def userKept_def db_simps split: if_splits)
  with sub kept Cons.prems(4)
  have cover: "set (t_rows (users s1)) \<subseteq> set us \<union> {u. userKept W s1 u}" by auto
  show ?case
    by (rule Cons.IH [OF run Cons.prems(2) purgeUser_ok [OF Cons.prems(3) step] cover])
      (use sub Cons.prems(5) in auto)
qed auto

lemma userConforms_purge:
  assumes "store_ok s" and "userConforms s spec" and "usUsername spec \<in> W"
    and "purgeUser opts W u s r = (e, s', r')" and "u \<in> set us"
    and "\<And>x y. x \<in> set us \<Longrightarrow> y \<in> set (t_rows (users s)) \<Longrightarrow> uID x = uID y \<Longrightarrow> x = y"
  shows "userConforms s' spec"
proof -
  from assms(2) obtain v where v: "GetUser (usUsername spec) s = Inr v" "uPermission v = usPermission spec"
    by (auto simp: userConforms_def split: sum.splits)
  have "GetUser (usUsername spec) s' = Inr v"
  proof (cases "s' = s")
    case False
    with assms(4) have s': "s' = DeleteUser (uID u) s" and "uUsername u \<notin> W"
      by (auto simp: purgeUser_def split: if_splits)
    have "v \<in> set (t_rows (users s))" "uUsername v = usUsername spec"
      using GetUser_InrD [OF v(1)] by auto
    with assms(3,5,6) \<open>uUsername u \<notin> W\<close> have "uID v \<noteq> uID u" by metis
    with v(1) purgeUser_ok [OF assms(1,4)] s' assms(1) show ?thesis
      by (auto simp: GetUser_iff store_users_ok db_simps)
  qed (use v in simp)
  with v show ?thesis by (simp add: userConforms_def)
qed

lemma ListUsers_same_id:
  assumes "store_ok s" and "x \<in> set (ListUsers s)" and "y \<in> set (t_rows (users s))" and "uID x = uID y"
  shows "x = y"
  using user_rows.ids_eqD [OF users_ok_tbl [OF store_users_ok [OF assms(1)]]] assms(2-4) by simp

end
