(* ===== verification/State_Nodes.thy ===== *)
theory State_Nodes
  imports State_Reconcile
begin

text \<open>
  The node and favorite part of \<open>yaamon apply\<close>: interpretations of the two interfaces of
  State_Reconcile for the favorites of one node and for the nodes, and the purge loops as one
  bulk delete each.
\<close>

section \<open>The favorites of a node\<close>

text \<open>The favorite a spec describes, field by field.\<close>

definition favHas :: "favorite \<Rightarrow> FavoriteSpec \<Rightarrow> bool" where
  "favHas f fs \<longleftrightarrow> fNodeNumber f = fsNodeNumber fs \<and> fCallsign f = fsCallsign fs \<and> fDescription f = fsDescription fs
     \<and> fLocation f = fsLocation fs \<and> fGroupName f = (if fsGroupName fs = [] then ''default'' else fsGroupName fs)"

definition favConforms :: "int \<Rightarrow> store \<Rightarrow> FavoriteSpec \<Rightarrow> bool" where
  "favConforms i s fs =
     (case GetFavoriteByNodeNumber i (fsNodeNumber fs) s of Inl _ \<Rightarrow> False | Inr f \<Rightarrow> favHas f fs)"

text \<open>The code's comparison finds every difference from the spec.\<close>

lemma favChanged_iff: "fNodeNumber f = fsNodeNumber fs \<Longrightarrow> favChanged f (updateOfFavorite i fs f) \<longleftrightarrow> \<not> favHas f fs"
  by (auto simp: favChanged_def favHas_def updateOfFavorite_def newFavorite_def specGroup_def)

lemma favConforms_changed:
  "favConforms i s fs =
     (case GetFavoriteByNodeNumber i (fsNodeNumber fs) s of
        Inl _ \<Rightarrow> False | Inr f \<Rightarrow> \<not> favChanged f (updateOfFavorite i fs f))"
  by (auto simp: favConforms_def favChanged_iff split: sum.split dest: GetFavoriteByNodeNumber_InrD)

lemma favConforms_cong: "favsOf i s = favsOf i s' \<Longrightarrow> favConforms i s fs = favConforms i s' fs"
  by (simp add: favConforms_changed GetFavorite_favsOf)

lemma UpdateFavorite_row:
  assumes "store_ok s" and "f \<in> set (t_rows (favorites s))" and "r \<in> set (t_rows (favorites s))" and "fID r = fID f"
  shows "r = f"
  using fav_rows.ids_eqD [OF store_favs_ok(1) [OF assms(1)]] assms(2-4) by auto

lemma favsOf_UpdateFavorite_other:
  assumes "store_ok s" and "f \<in> set (t_rows (favorites s))" and "fID g = fID f" and "fNodeID f \<noteq> i"
  shows "favsOf i (UpdateFavorite g s) = favsOf i s"
  unfolding favsOf_def UpdateFavorite_def
  by (simp, rule filter_update_where_disjoint) (use UpdateFavorite_row [OF assms(1,2)] assms(3,4) in auto)

lemma GetFavorite_UpdateFavorite:
  assumes "store_ok s" and "GetFavoriteByNodeNumber i k s = Inr f" and "fID g = fID f" and "fNodeNumber g = k"
  shows "GetFavoriteByNodeNumber i m (UpdateFavorite g s) =
    (case GetFavoriteByNodeNumber i m s of Inl e \<Rightarrow> Inl e
     | Inr h \<Rightarrow> Inr (if fID h = fID f then h\<lparr>fNodeNumber := fNodeNumber g, fCallsign := fCallsign g,
          fDescription := fDescription g, fLocation := fLocation g, fCmd := fCmd g,
          fSortOrder := fSortOrder g, fGroupName := fGroupName g\<rparr> else h))"
proof -
  from assms(2) have f: "f \<in> set (t_rows (favorites s))" "fNodeNumber f = k"
    by (auto dest: GetFavoriteByNodeNumber_InrD)
  have row: "r = f" if "r \<in> set (t_rows (favorites s))" "fID r = fID g" for r
    using UpdateFavorite_row [OF assms(1) f(1)] that assms(3) by simp
  have "find (\<lambda>f. fNodeID f = i \<and> fNodeNumber f = m) (t_rows (favorites (UpdateFavorite g s)))
      = map_option (\<lambda>r. if fID r = fID g then r\<lparr>fNodeNumber := fNodeNumber g, fCallsign := fCallsign g,
          fDescription := fDescription g, fLocation := fLocation g, fCmd := fCmd g,
          fSortOrder := fSortOrder g, fGroupName := fGroupName g\<rparr> else r)
        (find (\<lambda>f. fNodeID f = i \<and> fNodeNumber f = m) (t_rows (favorites s)))"
    unfolding UpdateFavorite_def
    by (simp, rule find_update_where) (drule (1) row, simp add: assms(4) f(2))
  then show ?thesis
    by (simp add: GetFavoriteByNodeNumber_def tbl_find_def assms(3) split: option.splits)
qed

lemma applyFavorite_new:
  assumes "GetFavoriteByNodeNumber i (fsNodeNumber fs) s = Inl e"
    and "applyFavorite i (live rp nc) fs s r = (None, s', r')"
  shows "\<exists>f'. CreateFavorite (newFavorite i fs) s = (Inr f', s')"
proof -
  from assms(1) have "e = ErrNotFound" by (simp add: GetFavoriteByNodeNumber_Inl_iff)
  with assms show ?thesis
    by (auto simp: applyFavorite_def split: sum.splits prod.splits)
qed

lemma applyFavorite_ok:
  assumes "store_ok s" and "applyFavorite i opts fs s r = (e, s', r')"
  shows "store_ok s'"
  using assms CreateFavorite_ok [OF assms(1), of "newFavorite i fs"]
  by (auto simp: applyFavorite_def Let_def UpdateFavorite_ok
      split: sum.splits db_error.splits if_splits prod.splits)

lemma newFavorite_sel [simp]:
  "fNodeID (newFavorite i fs) = i" "fNodeNumber (newFavorite i fs) = fsNodeNumber fs"
  by (simp_all add: newFavorite_def)

lemma updateOfFavorite_sel [simp]:
  "fID (updateOfFavorite i fs f) = fID f" "fNodeNumber (updateOfFavorite i fs f) = fsNodeNumber fs"
  by (simp_all add: updateOfFavorite_def)

lemma applyFavorite_conf:
  assumes "store_ok s" and "applyFavorite i (live rp nc) fs s r = (None, s', r')"
  shows "favConforms i s' fs"
proof (cases "GetFavoriteByNodeNumber i (fsNodeNumber fs) s")
  case (Inl e)
  from applyFavorite_new [OF this assms(2)] obtain f'
    where c: "CreateFavorite (newFavorite i fs) s = (Inr f', s')" ..
  from Inl have "find (\<lambda>f. fNodeNumber f = fsNodeNumber fs) (favsOf i s) = None"
    by (auto simp: GetFavorite_favsOf split: option.splits)
  with favsOf_CreateFavorite [OF c, of i] show ?thesis
    by (simp add: favConforms_changed GetFavorite_favsOf find_append favChanged_def updateOfFavorite_def)
next
  case (Inr f)
  show ?thesis
  proof (cases "favChanged f (updateOfFavorite i fs f)")
    case True
    with Inr assms(2) have "s' = UpdateFavorite (updateOfFavorite i fs f) s"
      by (simp add: applyFavorite_def Let_def)
    with GetFavorite_UpdateFavorite [OF assms(1) Inr, of "updateOfFavorite i fs f" "fsNodeNumber fs"] Inr
    show ?thesis
      by (simp add: favConforms_changed favChanged_def) (simp add: updateOfFavorite_def)
  next
    case False
    with Inr assms(2) show ?thesis by (simp add: applyFavorite_def favConforms_changed)
  qed
qed

lemma applyFavorite_frame:
  assumes "store_ok s" and "applyFavorite i (live rp nc) fs s r = (None, s', r')"
    and "favConforms i s fs'" and "fsNodeNumber fs' \<noteq> fsNodeNumber fs"
  shows "favConforms i s' fs'"
proof (cases "GetFavoriteByNodeNumber i (fsNodeNumber fs) s")
  case (Inl e)
  from applyFavorite_new [OF this assms(2)] obtain f'
    where c: "CreateFavorite (newFavorite i fs) s = (Inr f', s')" ..
  from assms(3) favsOf_CreateFavorite [OF c, of i] show ?thesis
    by (auto simp: favConforms_changed GetFavorite_favsOf find_append split: option.splits)
next
  case (Inr f)
  show ?thesis
  proof (cases "favChanged f (updateOfFavorite i fs f)")
    case True
    with Inr assms(2) have s': "s' = UpdateFavorite (updateOfFavorite i fs f) s"
      by (simp add: applyFavorite_def Let_def)
    from assms(3) obtain h where h: "GetFavoriteByNodeNumber i (fsNodeNumber fs') s = Inr h"
      "\<not> favChanged h (updateOfFavorite i fs' h)"
      by (auto simp: favConforms_changed split: sum.splits)
    note rows = GetFavoriteByNodeNumber_InrD [OF h(1)] GetFavoriteByNodeNumber_InrD [OF Inr]
    have "fID h \<noteq> fID f"
    proof
      assume "fID h = fID f"
      then have "h = f" using UpdateFavorite_row [OF assms(1), of f h] rows by blast
      then show False using rows assms(4) by simp
    qed
    with GetFavorite_UpdateFavorite [OF assms(1) Inr, of "updateOfFavorite i fs f" "fsNodeNumber fs'"] h s'
    show ?thesis by (simp add: favConforms_changed)
  next
    case False
    with Inr assms(2,3) show ?thesis by (simp add: applyFavorite_def)
  qed
qed

interpretation fav_loop: reconcile "applyFavorite i (live rp nc)" fsNodeNumber "favConforms i" store_ok for i rp nc
  by unfold_locales (auto intro: applyFavorite_ok applyFavorite_conf applyFavorite_frame)

interpretation fav_steady: steady "applyFavorite i opts" "favConforms i" for i opts
  by unfold_locales (auto simp: applyFavorite_def favConforms_changed Let_def split: sum.splits)

interpretation purge_favs_steady: steady "purgeFavorite opts W" "\<lambda>_ f. fNodeNumber f \<in> W" for opts W
  by unfold_locales (simp add: purgeFavorite_def)

text \<open>The purge of a node's favorites is one bulk delete.\<close>

lemma purgeFavorite_run:
  "run_specs (purgeFavorite opts W) fs s r =
     (None,
      if DryRun opts then s
      else s\<lparr>favorites := tbl_delete (\<lambda>f. fID f \<in> fID ` {x \<in> set fs. fNodeNumber x \<notin> W}) (favorites s)\<rparr>,
      r\<lparr>FavsDeleted := FavsDeleted r + length (filter (\<lambda>x. fNodeNumber x \<notin> W) fs)\<rparr>)"
proof (induction fs arbitrary: s r)
  case (Cons f fs)
  show ?case
  proof (cases "fNodeNumber f \<in> W")
    case True
    then have "{x \<in> set (f # fs). fNodeNumber x \<notin> W} = {x \<in> set fs. fNodeNumber x \<notin> W}" by auto
    with True Cons show ?thesis by (simp add: purgeFavorite_def)
  next
    case False
    then have "{x \<in> set (f # fs). fNodeNumber x \<notin> W} = insert f {x \<in> set fs. fNodeNumber x \<notin> W}" by auto
    with False Cons show ?thesis
      by (simp add: purgeFavorite_def DeleteFavorite_def tbl_delete_def conj_commute)
  qed
qed (simp add: tbl_delete_def)

section \<open>One node with its favorites\<close>

lemma applyFavorites_cases:
  assumes "applyFavorites i spec opts pf s r = (None, s', r')"
  obtains s1 r1 where "checkFavorites (nsNodeNumber spec) 0 (nsFavorites spec) = None"
    "run_specs (applyFavorite i opts) (nsFavorites spec) s r = (None, s1, r1)"
    "s' = (if pf \<and> \<not> DryRun opts then s1\<lparr>favorites := tbl_delete (\<lambda>f. fID f \<in>
         fID ` {x \<in> set (ListFavoritesByNode i s1). fNodeNumber x \<notin> fsNodeNumber ` set (nsFavorites spec)})
         (favorites s1)\<rparr> else s1)"
  using assms
  by (auto simp: applyFavorites_def purgeFavorite_run split: option.splits if_splits elim!: and_then_cases)

lemma applyFavorites_ok:
  assumes "store_ok s" and "applyFavorites i spec opts pf s r = (e, s', r')"
  shows "store_ok s'"
proof -
  have run: "store_ok t" if "run_specs (applyFavorite i opts) fs s r = (e', t, r1)" for e' t r1 fs
    by (rule run_specs_inv [where P = store_ok, OF that assms(1)]) (auto intro: applyFavorite_ok)
  show ?thesis
    using assms run
    by (auto simp: applyFavorites_def purgeFavorite_run delete_favorites_ok
        split: option.splits if_splits elim!: and_then_cases)
qed

text \<open>\<open>frame i s s'\<close>: nothing but the favorites of node \<open>i\<close> has changed.\<close>

definition fav_frame :: "int \<Rightarrow> store \<Rightarrow> store \<Rightarrow> bool" where
  "fav_frame i s s' \<longleftrightarrow> nodes s' = nodes s \<and> users s' = users s \<and> (\<forall>j. j \<noteq> i \<longrightarrow> favsOf j s' = favsOf j s)"

lemma fav_frame_refl [simp]: "fav_frame i s s"
  by (simp add: fav_frame_def)

lemma fav_frame_trans: "fav_frame i s t \<Longrightarrow> fav_frame i t u \<Longrightarrow> fav_frame i s u"
  by (simp add: fav_frame_def)

lemma applyFavorite_fav_frame:
  assumes "store_ok s" and "applyFavorite i opts fs s r = (e, s', r')"
  shows "fav_frame i s s'"
proof (cases "GetFavoriteByNodeNumber i (fsNodeNumber fs) s")
  case (Inl e')
  then have "e' = ErrNotFound" by (simp add: GetFavoriteByNodeNumber_Inl_iff)
  with Inl assms(2) have "s' = s \<or> s' = snd (CreateFavorite (newFavorite i fs) s)"
    by (auto simp: applyFavorite_def split: if_splits prod.splits sum.splits)
  then show ?thesis
    by (auto simp: fav_frame_def db_simps favsOf_def CreateFavorite_eq)
next
  case (Inr f)
  with assms(2) have "s' = s \<or> s' = UpdateFavorite (updateOfFavorite i fs f) s"
    by (auto simp: applyFavorite_def Let_def split: if_splits)
  with favsOf_UpdateFavorite_other [OF assms(1), of f "updateOfFavorite i fs f"]
    GetFavoriteByNodeNumber_InrD [OF Inr] show ?thesis
    by (auto simp: fav_frame_def db_simps)
qed

lemma applyFavorite_run_fav_frame:
  assumes "store_ok s" and "run_specs (applyFavorite i opts) fs s r = (e, s', r')"
  shows "fav_frame i s s'"
proof -
  have "store_ok s' \<and> fav_frame i s s'"
    by (rule run_specs_inv [OF assms(2)])
      (use assms(1) in \<open>auto intro: applyFavorite_ok fav_frame_trans [OF _ applyFavorite_fav_frame]\<close>)
  then show ?thesis ..
qed

lemma purge_favs_of:
  assumes "store_ok s"
  shows "favsOf j (s\<lparr>favorites := tbl_delete (\<lambda>f. fID f \<in> fID ` {x \<in> set (ListFavoritesByNode i s). P x}) (favorites s)\<rparr>)
    = (if j = i then filter (\<lambda>f. \<not> P f) (favsOf i s) else favsOf j s)"
proof -
  have "(fID f \<in> fID ` {x \<in> set (ListFavoritesByNode i s). P x}) = (fNodeID f = i \<and> P f)"
    if "f \<in> set (t_rows (favorites s))" for f
    using that UpdateFavorite_row [OF assms] by auto
  then have "filter (\<lambda>f. fID f \<notin> fID ` {x \<in> set (ListFavoritesByNode i s). P x}) (t_rows (favorites s))
      = filter (\<lambda>f. \<not> (fNodeID f = i \<and> P f)) (t_rows (favorites s))"
    by (intro filter_cong) auto
  then show ?thesis
    by (auto simp: favsOf_def simp del: set_ListFavoritesByNode intro: filter_cong)
qed

text \<open>The favorites of a node conform: each wanted one is there, and after a purge no other.\<close>

definition nodeFavsConform :: "bool \<Rightarrow> int \<Rightarrow> store \<Rightarrow> FavoriteSpec list \<Rightarrow> bool" where
  "nodeFavsConform pf i s fs \<longleftrightarrow> list_all (favConforms i s) fs
     \<and> (pf \<longrightarrow> list_all (\<lambda>f. fNodeNumber f \<in> fsNodeNumber ` set fs) (favsOf i s))"

lemma nodeFavsConform_cong:
  assumes "favsOf i s = favsOf i s'"
  shows "nodeFavsConform pf i s fs = nodeFavsConform pf i s' fs"
proof -
  have "favConforms i s = favConforms i s'" by (rule ext) (rule favConforms_cong [OF assms])
  with assms show ?thesis by (simp add: nodeFavsConform_def)
qed

lemma applyFavorites_conf:
  assumes "store_ok s" and "applyFavorites i spec (live rp nc) pf s r = (None, s', r')"
    and "distinct (map fsNodeNumber (nsFavorites spec))"
  shows "nodeFavsConform pf i s' (nsFavorites spec) \<and> fav_frame i s s'"
proof -
  from assms(2) obtain s1 r1 where
    run: "run_specs (applyFavorite i (live rp nc)) (nsFavorites spec) s r = (None, s1, r1)"
    and s': "s' = (if pf then s1\<lparr>favorites := tbl_delete (\<lambda>f. fID f \<in>
         fID ` {x \<in> set (ListFavoritesByNode i s1). fNodeNumber x \<notin> fsNodeNumber ` set (nsFavorites spec)})
         (favorites s1)\<rparr> else s1)"
    by (rule applyFavorites_cases) auto
  have ok: "store_ok s1" by (rule fav_loop.run_inv [OF assms(1) run])
  have conf: "\<forall>f \<in> set (nsFavorites spec). favConforms i s1 f"
    by (rule fav_loop.run_conf [OF assms(3,1) run])
  note frame1 = applyFavorite_run_fav_frame [OF assms(1) run]
  show ?thesis
  proof (cases pf)
    case False
    with s' conf frame1 show ?thesis by (simp add: nodeFavsConform_def list_all_iff)
  next
    case True
    note of = purge_favs_of [OF ok, of _ i "\<lambda>x. fNodeNumber x \<notin> fsNodeNumber ` set (nsFavorites spec)"]
    have favs: "favsOf i s' = filter (\<lambda>f. fNodeNumber f \<in> fsNodeNumber ` set (nsFavorites spec)) (favsOf i s1)"
      using of [of i] s' True by simp
    have "fav_frame i s1 s'"
      using of s' True by (simp add: fav_frame_def)
    moreover have "GetFavoriteByNodeNumber i (fsNodeNumber f) s' = GetFavoriteByNodeNumber i (fsNodeNumber f) s1"
      if "f \<in> set (nsFavorites spec)" for f
    proof -
      have "find (\<lambda>x. fNodeNumber x \<in> fsNodeNumber ` set (nsFavorites spec) \<and> fNodeNumber x = fsNodeNumber f) (favsOf i s1)
          = find (\<lambda>x. fNodeNumber x = fsNodeNumber f) (favsOf i s1)"
        by (rule find_cong_set) (use that in auto)
      then show ?thesis by (simp add: GetFavorite_favsOf favs find_filter)
    qed
    ultimately show ?thesis
      using conf fav_frame_trans [OF frame1] True favs
      by (auto simp: nodeFavsConform_def list_all_iff favConforms_changed)
  qed
qed

lemma applyFavorites_steady:
  assumes "nodeFavsConform pf i s (nsFavorites spec)"
    and "checkFavorites (nsNodeNumber spec) 0 (nsFavorites spec) = None"
  shows "applyFavorites i spec opts pf s r = (None, s, r)"
proof -
  have "run_specs (applyFavorite i opts) (nsFavorites spec) s r = (None, s, r)"
    using assms(1) by (intro fav_steady.run_steady) (simp add: nodeFavsConform_def list_all_iff)
  moreover have "run_specs (purgeFavorite opts (fsNodeNumber ` set (nsFavorites spec))) (ListFavoritesByNode i s) s r
      = (None, s, r)" if pf
    using assms(1) that by (intro purge_favs_steady.run_steady) (simp add: nodeFavsConform_def list_all_iff favsOf_def)
  ultimately show ?thesis
    using assms(2) by (simp add: applyFavorites_def)
qed

section \<open>Nodes\<close>

text \<open>The node a spec describes, field by field, with the defaults of the AMI address.\<close>

definition nodeHas :: "node \<Rightarrow> NodeSpec \<Rightarrow> bool" where
  "nodeHas n spec \<longleftrightarrow> nNodeNumber n = nsNodeNumber spec \<and> nName n = nsName spec
     \<and> nAMIHost n = (if nsAMIHost spec = [] then ''localhost'' else nsAMIHost spec)
     \<and> nAMIPort n = (if nsAMIPort spec = 0 then 5038 else nsAMIPort spec)
     \<and> nAMIUser n = nsAMIUser spec \<and> nAMIPass n = nsAMIPass spec \<and> nEnabled n = nsEnabled spec"

definition nodeConforms :: "bool \<Rightarrow> store \<Rightarrow> NodeSpec \<Rightarrow> bool" where
  "nodeConforms pf s spec =
     (case GetNodeByNumber (nsNodeNumber spec) s of
        Inl _ \<Rightarrow> False
      | Inr n \<Rightarrow> nodeHas n spec \<and> nodeFavsConform pf (nID n) s (nsFavorites spec))"

lemma nodeChanged_iff:
  "nNodeNumber n = nsNodeNumber spec \<Longrightarrow> nodeChanged n (nodeOfSpec i (specDefaults spec)) \<longleftrightarrow> \<not> nodeHas n spec"
  by (auto simp: nodeChanged_def nodeHas_def nodeOfSpec_def specDefaults_def)

lemma nodeConforms_changed:
  "nodeConforms pf s spec =
     (case GetNodeByNumber (nsNodeNumber spec) s of
        Inl _ \<Rightarrow> False
      | Inr n \<Rightarrow> \<not> nodeChanged n (nodeOfSpec (nID n) (specDefaults spec))
          \<and> nodeFavsConform pf (nID n) s (nsFavorites spec))"
  by (auto simp: nodeConforms_def nodeChanged_iff split: sum.split dest: GetNodeByNumber_InrD)

lemma specDefaults_sel [simp]:
  "nsNodeNumber (specDefaults spec) = nsNodeNumber spec"
  "nsFavorites (specDefaults spec) = nsFavorites spec"
  by (simp_all add: specDefaults_def)

lemma nodeOfSpec_sel [simp]: "nID (nodeOfSpec i spec) = i" "nNodeNumber (nodeOfSpec i spec) = nsNodeNumber spec"
  by (simp_all add: nodeOfSpec_def)

lemma not_nodeChanged_nodeOfSpec: "\<not> nodeChanged (nodeOfSpec i spec) (nodeOfSpec j spec)"
  by (simp add: nodeChanged_def nodeOfSpec_def)

lemma GetNodeByNumber_CreateNode:
  "GetNodeByNumber m (snd (CreateNode n s)) =
     (case GetNodeByNumber m s of Inr x \<Rightarrow> Inr x
      | Inl e \<Rightarrow> if m = nNodeNumber n then Inr (fst (CreateNode n s)) else Inl e)"
  by (auto simp: GetNodeByNumber_def tbl_find_def CreateNode_eq find_append split: option.splits)

lemma node_row:
  assumes "store_ok s" and "n \<in> set (t_rows (nodes s))" and "m \<in> set (t_rows (nodes s))" and "nID m = nID n"
  shows "m = n"
  using node_rows.ids_eqD [OF store_favs_ok(2) [OF assms(1)]] assms(2-4) by auto

lemma GetNodeByNumber_UpdateNode:
  assumes "store_ok s" and "GetNodeByNumber k s = Inr n" and "nID g = nID n" and "nNodeNumber g = k"
  shows "GetNodeByNumber m (UpdateNode g s) = (if m = k then Inr g else GetNodeByNumber m s)"
proof -
  from assms(2) have n: "n \<in> set (t_rows (nodes s))" "nNodeNumber n = k"
    by (auto dest: GetNodeByNumber_InrD)
  have row: "r = n" if "r \<in> set (t_rows (nodes s))" "nID r = nID g" for r
    using node_row [OF assms(1) n(1)] that assms(3) by simp
  have upd: "r\<lparr>nName := nName g, nNodeNumber := nNodeNumber g, nAMIHost := nAMIHost g,
       nAMIPort := nAMIPort g, nAMIUser := nAMIUser g, nAMIPass := nAMIPass g,
       nEnabled := nEnabled g, nDescription := nDescription g, nLocation := nLocation g\<rparr> = g"
    if "nID r = nID g" for r :: node
    using that by (cases r; cases g) simp
  have "find (\<lambda>r. nNodeNumber r = m) (t_rows (nodes (UpdateNode g s)))
      = map_option (\<lambda>r. if nID r = nID g then g else r) (find (\<lambda>r. nNodeNumber r = m) (t_rows (nodes s)))"
  proof -
    have "t_rows (nodes (UpdateNode g s)) = update_where (\<lambda>r. nID r = nID g) (\<lambda>r. g) (t_rows (nodes s))"
      by (auto simp: UpdateNode_def update_where_def upd)
    moreover have "find (\<lambda>r. nNodeNumber r = m) (update_where (\<lambda>r. nID r = nID g) (\<lambda>r. g) (t_rows (nodes s)))
        = map_option (\<lambda>r. if nID r = nID g then g else r) (find (\<lambda>r. nNodeNumber r = m) (t_rows (nodes s)))"
      by (rule find_update_where) (drule (1) row, simp add: assms(4) n(2))
    ultimately show ?thesis by simp
  qed
  moreover have "nID r \<noteq> nID g" if "find (\<lambda>r. nNodeNumber r = m) (t_rows (nodes s)) = Some r" "m \<noteq> k" for r
    using row [of r] find_SomeD [OF that(1)] that(2) n(2) by auto
  ultimately show ?thesis
    using assms(2,3) by (auto simp: GetNodeByNumber_def tbl_find_def split: option.splits)
qed

lemma applyNode_stage:
  assumes "store_ok s" and "applyNode (live rp nc) pf spec s r = (None, s', r')"
  shows "\<exists>s1 n r1. store_ok s1 \<and> GetNodeByNumber (nsNodeNumber spec) s1 = Inr n
    \<and> \<not> nodeChanged n (nodeOfSpec (nID n) (specDefaults spec))
    \<and> applyFavorites (nID n) (specDefaults spec) (live rp nc) pf s1 r1 = (None, s', r')
    \<and> favorites s1 = favorites s \<and> users s1 = users s
    \<and> (\<forall>m. m \<noteq> nsNodeNumber spec \<longrightarrow> GetNodeByNumber m s1 = GetNodeByNumber m s)"
proof (cases "GetNodeByNumber (nsNodeNumber spec) s")
  case (Inl e)
  then have e: "e = ErrNotFound" by (simp add: GetNodeByNumber_Inl_iff)
  let ?n = "nodeOfSpec 0 (specDefaults spec)"
  let ?s1 = "snd (CreateNode ?n s)"
  have n: "fst (CreateNode ?n s) = nodeOfSpec (nID (fst (CreateNode ?n s))) (specDefaults spec)"
    by (simp add: CreateNode_eq nodeOfSpec_def)
  have "\<not> nodeChanged (fst (CreateNode ?n s)) (nodeOfSpec (nID (fst (CreateNode ?n s))) (specDefaults spec))"
    by (subst n) (rule not_nodeChanged_nodeOfSpec)
  moreover have "GetNodeByNumber m ?s1 = GetNodeByNumber m s" if "m \<noteq> nsNodeNumber spec" for m
    using that by (simp add: GetNodeByNumber_CreateNode split: sum.splits)
  moreover have "\<exists>r1. applyFavorites (nID (fst (CreateNode ?n s))) (specDefaults spec) (live rp nc) pf ?s1 r1 = (None, s', r')"
    using assms(2) Inl e by (auto simp: applyNode_def Let_def split: prod.splits)
  ultimately show ?thesis
    using Inl CreateNode_ok [OF assms(1), of ?n]
    by (intro exI [where x = ?s1] exI [where x = "fst (CreateNode ?n s)"])
      (auto simp: GetNodeByNumber_CreateNode db_simps)
next
  case (Inr n)
  let ?u = "nodeOfSpec (nID n) (specDefaults spec)"
  show ?thesis
  proof (cases "nodeChanged n ?u")
    case True
    with Inr assms(2) have "\<exists>r1. applyFavorites (nID n) (specDefaults spec) (live rp nc) pf (UpdateNode ?u s) r1 = (None, s', r')"
      by (auto simp: applyNode_def Let_def)
    with GetNodeByNumber_UpdateNode [OF assms(1) Inr, of ?u] UpdateNode_ok [OF assms(1), of ?u] show ?thesis
      by (intro exI [where x = "UpdateNode ?u s"] exI [where x = ?u])
        (auto simp: db_simps not_nodeChanged_nodeOfSpec)
  next
    case False
    with Inr assms show ?thesis
      by (intro exI [where x = s] exI [where x = n]) (auto simp: applyNode_def Let_def)
  qed
qed

lemma applyNode_ok:
  assumes "store_ok s" and "applyNode opts pf spec s r = (e, s', r')"
  shows "store_ok s'"
  using assms CreateNode_ok [OF assms(1)] UpdateNode_ok [OF assms(1)]
  by (auto simp: applyNode_def Let_def split: sum.splits db_error.splits if_splits prod.splits
      dest: applyFavorites_ok) (metis applyFavorites_ok snd_conv)+

lemma GetNodeByNumber_cong: "nodes s = nodes s' \<Longrightarrow> GetNodeByNumber m s = GetNodeByNumber m s'"
  by (simp add: GetNodeByNumber_def)

lemma applyNode_conf:
  assumes "store_ok s" and "applyNode (live rp nc) pf spec s r = (None, s', r')"
    and "distinct (map fsNodeNumber (nsFavorites spec))"
  shows "nodeConforms pf s' spec"
proof -
  from applyNode_stage [OF assms(1,2)] obtain s1 n r1 where ok: "store_ok s1"
    and n: "GetNodeByNumber (nsNodeNumber spec) s1 = Inr n"
      "\<not> nodeChanged n (nodeOfSpec (nID n) (specDefaults spec))"
    and run: "applyFavorites (nID n) (specDefaults spec) (live rp nc) pf s1 r1 = (None, s', r')" by blast
  from applyFavorites_conf [OF ok run] assms(3)
  have "nodeFavsConform pf (nID n) s' (nsFavorites spec)" "nodes s' = nodes s1"
    by (auto simp: fav_frame_def)
  with n GetNodeByNumber_cong [of s' s1] show ?thesis by (simp add: nodeConforms_changed)
qed

lemma applyNode_frame:
  assumes "store_ok s" and "applyNode (live rp nc) pf spec s r = (None, s', r')"
    and "nodeConforms pf s spec'" and "nsNodeNumber spec' \<noteq> nsNodeNumber spec"
  shows "nodeConforms pf s' spec'"
proof -
  from applyNode_stage [OF assms(1,2)] obtain s1 n r1 where ok: "store_ok s1"
    and n: "GetNodeByNumber (nsNodeNumber spec) s1 = Inr n"
    and run: "applyFavorites (nID n) (specDefaults spec) (live rp nc) pf s1 r1 = (None, s', r')"
    and same: "favorites s1 = favorites s"
      "\<And>m. m \<noteq> nsNodeNumber spec \<Longrightarrow> GetNodeByNumber m s1 = GetNodeByNumber m s" by blast
  from assms(3) obtain n' where n': "GetNodeByNumber (nsNodeNumber spec') s = Inr n'"
    "\<not> nodeChanged n' (nodeOfSpec (nID n') (specDefaults spec'))"
    "nodeFavsConform pf (nID n') s (nsFavorites spec')"
    by (auto simp: nodeConforms_changed split: sum.splits)
  have n1: "GetNodeByNumber (nsNodeNumber spec') s1 = Inr n'" using same(2) [OF assms(4)] n' by simp
  have "nID n' \<noteq> nID n"
  proof
    assume "nID n' = nID n"
    then have "n' = n" using node_row [OF ok, of n n'] GetNodeByNumber_InrD [OF n] GetNodeByNumber_InrD [OF n1] by simp
    with GetNodeByNumber_InrD [OF n] GetNodeByNumber_InrD [OF n1] assms(4) show False by simp
  qed
  moreover have "fav_frame (nID n) s1 s'"
  proof -
    from run obtain s2 r2 where run1: "run_specs (applyFavorite (nID n) (live rp nc)) (nsFavorites spec) s1 r1 = (None, s2, r2)"
      and s': "s' = (if pf then s2\<lparr>favorites := tbl_delete (\<lambda>f. fID f \<in>
         fID ` {x \<in> set (ListFavoritesByNode (nID n) s2). fNodeNumber x \<notin> fsNodeNumber ` set (nsFavorites spec)})
         (favorites s2)\<rparr> else s2)"
      by (rule applyFavorites_cases) auto
    have "fav_frame (nID n) s2 s'"
      using purge_favs_of [OF fav_loop.run_inv [OF ok run1], of _ "nID n" "\<lambda>x. fNodeNumber x \<notin> fsNodeNumber ` set (nsFavorites spec)"] s'
      by (simp add: fav_frame_def)
    then show ?thesis by (rule fav_frame_trans [OF applyFavorite_run_fav_frame [OF ok run1]])
  qed
  ultimately have "favsOf (nID n') s' = favsOf (nID n') s1" "nodes s' = nodes s1"
    by (auto simp: fav_frame_def)
  moreover have "favsOf (nID n') s1 = favsOf (nID n') s" using same(1) by (simp add: favsOf_def)
  ultimately show ?thesis
    using n' n1 GetNodeByNumber_cong [of s' s1] nodeFavsConform_cong [of "nID n'" s' s]
    by (simp add: nodeConforms_changed)
qed

interpretation node_loop: reconcile "applyNode (live rp nc) pf" nsNodeNumber
    "\<lambda>s spec. distinct (map fsNodeNumber (nsFavorites spec)) \<longrightarrow> nodeConforms pf s spec" store_ok for rp nc pf
  by unfold_locales (auto intro: applyNode_ok applyNode_conf applyNode_frame)

interpretation node_steady: steady "applyNode opts pf"
    "\<lambda>s spec. checkFavorites (nsNodeNumber spec) 0 (nsFavorites spec) = None \<and> nodeConforms pf s spec" for opts pf
  by unfold_locales
    (auto simp: applyNode_def nodeConforms_changed Let_def applyFavorites_steady split: sum.splits)

section \<open>The purge of nodes\<close>

interpretation purge_nodes_steady: steady "purgeNode opts W" "\<lambda>_ n. nNodeNumber n \<in> W" for opts W
  by unfold_locales (simp add: purgeNode_def)

lemma purgeNode_run:
  "run_specs (purgeNode opts W) ns s r =
     (None,
      if DryRun opts then s
      else s\<lparr>nodes := tbl_delete (\<lambda>n. nID n \<in> nID ` {x \<in> set ns. nNodeNumber x \<notin> W}) (nodes s),
             favorites := tbl_delete (\<lambda>f. fNodeID f \<in> nID ` {x \<in> set ns. nNodeNumber x \<notin> W}) (favorites s)\<rparr>,
      r\<lparr>NodesDeleted := NodesDeleted r + length (filter (\<lambda>x. nNodeNumber x \<notin> W) ns)\<rparr>)"
proof (induction ns arbitrary: s r)
  case (Cons n ns)
  show ?case
  proof (cases "nNodeNumber n \<in> W")
    case True
    then have "{x \<in> set (n # ns). nNodeNumber x \<notin> W} = {x \<in> set ns. nNodeNumber x \<notin> W}" by auto
    with True Cons show ?thesis by (simp add: purgeNode_def)
  next
    case False
    then have "{x \<in> set (n # ns). nNodeNumber x \<notin> W} = insert n {x \<in> set ns. nNodeNumber x \<notin> W}" by auto
    with False Cons show ?thesis
      by (simp add: purgeNode_def DeleteNode_def tbl_delete_def conj_commute)
  qed
qed (simp add: tbl_delete_def)

text \<open>After the loop over all nodes exactly the wanted ones remain, with their favorites.\<close>

lemma purge_nodes_effect:
  assumes "store_ok s" and "run_specs (purgeNode opts W) (ListNodes s) s r = (None, s', r')" and "\<not> DryRun opts"
  shows "t_rows (nodes s') = filter (\<lambda>n. nNodeNumber n \<in> W) (t_rows (nodes s))"
    and "n \<in> set (t_rows (nodes s')) \<Longrightarrow> favsOf (nID n) s' = favsOf (nID n) s"
    and "users s' = users s"
proof -
  define D where "D = nID ` {x \<in> set (t_rows (nodes s)). nNodeNumber x \<notin> W}"
  have s': "s' = s\<lparr>nodes := tbl_delete (\<lambda>n. nID n \<in> D) (nodes s),
             favorites := tbl_delete (\<lambda>f. fNodeID f \<in> D) (favorites s)\<rparr>"
    using assms(2,3) by (simp add: purgeNode_run D_def)
  have D: "(nID n \<in> D) = (nNodeNumber n \<notin> W)" if "n \<in> set (t_rows (nodes s))" for n
    using that node_row [OF assms(1)] by (auto simp: D_def)
  show rows: "t_rows (nodes s') = filter (\<lambda>n. nNodeNumber n \<in> W) (t_rows (nodes s))"
    using D by (auto simp: s' intro: filter_cong)
  show "users s' = users s" by (simp add: s')
  assume "n \<in> set (t_rows (nodes s'))"
  with rows D [of n] have "nID n \<notin> D" by auto
  then show "favsOf (nID n) s' = favsOf (nID n) s"
    by (auto simp: favsOf_def s' intro: filter_cong)
qed

lemma nodeConforms_purge:
  assumes "store_ok s" and "run_specs (purgeNode opts W) (ListNodes s) s r = (None, s', r')" and "\<not> DryRun opts"
    and "nodeConforms pf s spec" and "nsNodeNumber spec \<in> W"
  shows "nodeConforms pf s' spec"
proof -
  from assms(4) obtain n where n: "GetNodeByNumber (nsNodeNumber spec) s = Inr n"
    "\<not> nodeChanged n (nodeOfSpec (nID n) (specDefaults spec))"
    "nodeFavsConform pf (nID n) s (nsFavorites spec)"
    by (auto simp: nodeConforms_changed split: sum.splits)
  note eff = purge_nodes_effect [OF assms(1-3)]
  have "find (\<lambda>x. nNodeNumber x \<in> W \<and> nNodeNumber x = nsNodeNumber spec) (t_rows (nodes s))
      = find (\<lambda>x. nNodeNumber x = nsNodeNumber spec) (t_rows (nodes s))"
    by (rule find_cong_set) (use assms(5) in auto)
  then have n': "GetNodeByNumber (nsNodeNumber spec) s' = Inr n"
    using n(1) by (simp add: GetNodeByNumber_def tbl_find_def eff(1) find_filter)
  from eff(2) [of n] GetNodeByNumber_InrD [OF n'] have "favsOf (nID n) s' = favsOf (nID n) s" by simp
  with n n' nodeFavsConform_cong [of "nID n" s' s] show ?thesis by (simp add: nodeConforms_changed)
qed

end
