(* ===== verification/State_Props.thy ===== *)
theory State_Props
  imports State_Nodes
begin

text \<open>
  The contract of \<open>yaamon apply\<close> (\<open>internal/state/apply.go\<close>): \<open>stateConforms\<close> says when a
  database is in the state a file describes, field by field; a live run reaches it, a run on it changes nothing,
  a dry run never writes, and the superuser accounts and the schema survive every run.
\<close>

section \<open>The described state\<close>

definition stateConforms :: "StateFile \<Rightarrow> store \<Rightarrow> bool" where
  "stateConforms sf s \<longleftrightarrow>
     list_all (userConforms s) (sfUsers sf)
   \<and> (PurgeUsers (sfPurge sf) \<longrightarrow>
        list_all (userKept (usUsername ` set (sfUsers sf)) s) (t_rows (users s)))
   \<and> list_all (nodeConforms (PurgeFavorites (sfPurge sf)) s) (sfNodes sf)
   \<and> (PurgeNodes (sfPurge sf) \<longrightarrow>
        list_all (\<lambda>n. nNodeNumber n \<in> nsNodeNumber ` set (sfNodes sf)) (t_rows (nodes s)))"

text \<open>A file that names no account, no node and no favorite of one node twice.\<close>

definition stateDistinct :: "StateFile \<Rightarrow> bool" where
  "stateDistinct sf \<longleftrightarrow> distinct (map usUsername (sfUsers sf)) \<and> distinct (map nsNodeNumber (sfNodes sf))
     \<and> list_all (\<lambda>n. distinct (map fsNodeNumber (nsFavorites n))) (sfNodes sf)"

section \<open>The user part\<close>

lemma purge_users_ok:
  "store_ok s \<Longrightarrow> run_specs (purgeUser opts W) us s r = (e, s', r') \<Longrightarrow> store_ok s'"
  by (erule run_specs_inv [where P = store_ok]) (auto intro: purgeUser_ok)

lemma purge_users_conf:
  assumes "store_ok s" and "userConforms s spec" and "usUsername spec \<in> W"
    and "run_specs (purgeUser opts W) (ListUsers s) s r = (e, s', r')"
  shows "userConforms s' spec"
proof -
  let ?P = "\<lambda>t. store_ok t \<and> userConforms t spec \<and> set (t_rows (users t)) \<subseteq> set (t_rows (users s))"
  have "?P s'"
  proof (rule run_specs_inv [where P = ?P, OF assms(4)])
    fix u t r1 e1 t' r2
    assume u: "u \<in> set (ListUsers s)" and P: "?P t" and step: "purgeUser opts W u t r1 = (e1, t', r2)"
    have "userConforms t' spec"
      by (rule userConforms_purge [OF _ _ assms(3) step, where us = "ListUsers s"])
        (use P u ListUsers_same_id [OF assms(1)] in auto)
    then show "?P t'"
      using P purgeUser_ok [OF _ step] purgeUser_subset [OF step] by blast
  qed (use assms in auto)
  then show ?thesis by blast
qed

lemma applyUsers_ok:
  assumes "store_ok s" and "applyUsers b sf opts s r = (e, s', r')"
  shows "store_ok s'"
proof -
  have "store_ok t" if "run_specs (applyUser b opts) us s r = (e', t, r1)" for e' t r1 us
    by (rule run_specs_inv [where P = store_ok, OF that assms(1)]) (auto intro: applyUser_ok)
  with assms show ?thesis
    by (auto simp: applyUsers_def split: option.splits if_splits elim!: and_then_cases
        dest: purge_users_ok [rotated]) (blast intro: purge_users_ok)
qed

lemma applyUsers_conf:
  assumes "store_ok s" and "distinct (map usUsername (sfUsers sf))"
    and "applyUsers b sf (live rp nc) s r = (None, s', r')"
  shows "list_all (userConforms s') (sfUsers sf)
    \<and> (PurgeUsers (sfPurge sf) \<longrightarrow>
         list_all (userKept (usUsername ` set (sfUsers sf)) s') (t_rows (users s')))"
proof -
  let ?W = "usUsername ` set (sfUsers sf)"
  from assms(3) obtain s1 r1 where run: "run_specs (applyUser b (live rp nc)) (sfUsers sf) s r = (None, s1, r1)"
    and rest: "(if PurgeUsers (sfPurge sf) then run_specs (purgeUser (live rp nc) ?W) (ListUsers s1) s1 r1
      else (None, s1, r1)) = (None, s', r')"
    by (auto simp: applyUsers_def split: option.splits elim!: and_then_cases)
  have ok: "store_ok s1" by (rule user_loop.run_inv [OF assms(1) run])
  have conf: "\<forall>x \<in> set (sfUsers sf). userConforms s1 x" by (rule user_loop.run_conf [OF assms(2,1) run])
  show ?thesis
  proof (cases "PurgeUsers (sfPurge sf)")
    case True
    with rest have purge: "run_specs (purgeUser (live rp nc) ?W) (ListUsers s1) s1 r1 = (None, s', r')" by simp
    have "\<forall>u \<in> set (t_rows (users s')). userKept ?W s' u"
      by (rule purge_users_run [OF purge _ ok]) (use ListUsers_same_id [OF ok] in auto)
    with purge_users_conf [OF ok _ _ purge] conf show ?thesis by (auto simp: list_all_iff)
  qed (use rest conf in \<open>auto simp: list_all_iff\<close>)
qed

lemma applyUsers_steady:
  assumes "list_all (userConforms s) (sfUsers sf)"
    and "PurgeUsers (sfPurge sf) \<longrightarrow>
         list_all (userKept (usUsername ` set (sfUsers sf)) s) (t_rows (users s))"
    and "checkUsers (sfUsers sf) = None"
  shows "applyUsers b sf \<lparr>DryRun = d, ResetPasswords = False, NoConfirm = nc\<rparr> s r = (None, s, r)"
  using assms purge_users_steady.run_steady [of "ListUsers s" "usUsername ` set (sfUsers sf)" s]
  by (simp add: applyUsers_def list_all_iff user_steady.run_steady)

section \<open>The node part\<close>

lemma applyFavorites_users:
  assumes "store_ok s" and "applyFavorites i spec opts pf s r = (e, s', r')"
  shows "users s' = users s"
proof -
  have "users t = users s" if "run_specs (applyFavorite i opts) fs s r = (e', t, r1)" for e' t r1 fs
    using applyFavorite_run_fav_frame [OF assms(1) that] by (simp add: fav_frame_def)
  with assms show ?thesis
    by (auto simp: applyFavorites_def purgeFavorite_run split: option.splits if_splits
        elim!: and_then_cases)
qed

lemma applyNode_cases:
  assumes "applyNode opts pf spec s r = (e, s', r')"
  obtains "s' = s"
  | i sp t r1 where "applyFavorites i sp opts pf t r1 = (e, s', r')"
      "t = s \<or> (\<exists>n. t = UpdateNode n s) \<or> (\<exists>n. t = snd (CreateNode n s))"
proof (cases "GetNodeByNumber (nsNodeNumber spec) s")
  case (Inl x)
  then have "x = ErrNotFound" by (simp add: GetNodeByNumber_Inl_iff)
  with Inl assms that show ?thesis
    by (auto simp: applyNode_def Let_def split: if_splits prod.splits) (metis snd_conv)
next
  case (Inr n)
  with assms that show ?thesis
    by (auto simp: applyNode_def Let_def split: if_splits) blast
qed

lemma applyNode_users:
  assumes "store_ok s" and "applyNode opts pf spec s r = (e, s', r')"
  shows "users s' = users s"
  using assms(2)
proof (rule applyNode_cases)
  fix i sp t r1
  assume run: "applyFavorites i sp opts pf t r1 = (e, s', r')"
    and t: "t = s \<or> (\<exists>n. t = UpdateNode n s) \<or> (\<exists>n. t = snd (CreateNode n s))"
  from t have "store_ok t" "users t = users s"
    using assms(1) by (auto simp: node_ops_users intro: UpdateNode_ok CreateNode_ok)
  with applyFavorites_users [OF _ run] show ?thesis by simp
qed simp

lemma applyNode_run_ok:
  assumes "store_ok s" and "run_specs (applyNode opts pf) ns s r = (e, s', r')"
  shows "store_ok s' \<and> users s' = users s"
proof (rule run_specs_inv [where P = "\<lambda>t. store_ok t \<and> users t = users s", OF assms(2)])
  fix spec t r1 e1 t' r2
  assume t: "store_ok t \<and> users t = users s" and step: "applyNode opts pf spec t r1 = (e1, t', r2)"
  then show "store_ok t' \<and> users t' = users s"
    using applyNode_ok [OF _ step] applyNode_users [OF _ step] by simp
qed (use assms(1) in simp)

lemma delete_nodes_ok:
  assumes "store_ok s"
  shows "store_ok (s\<lparr>nodes := tbl_delete (\<lambda>n. nID n \<in> D) (nodes s),
     favorites := tbl_delete (\<lambda>f. fNodeID f \<in> D) (favorites s)\<rparr>)"
proof -
  have "fNodeID ` {f \<in> set (t_rows (favorites s)). fNodeID f \<notin> D} \<subseteq> nID ` {n \<in> set (t_rows (nodes s)). nID n \<notin> D}"
    using assms by (intro image_filter_subset [where q = "\<lambda>j. j \<notin> D"]) (simp_all add: store_ok_defs)
  with assms show ?thesis
    by (simp add: store_ok_defs node_rows.delete_inv fav_rows.delete_inv)
qed

lemma applyNodes_ok:
  assumes "store_ok s" and "applyNodes sf opts s r = (e, s', r')"
  shows "store_ok s' \<and> users s' = users s"
proof -
  let ?W = "nsNodeNumber ` set (sfNodes sf)"
  show ?thesis
  proof (cases "checkNodes (sfNodes sf)")
    case None
    obtain e1 s1 r1 where run: "run_specs (applyNode opts (PurgeFavorites (sfPurge sf))) (sfNodes sf) s r = (e1, s1, r1)"
      using prod_cases3 by blast
    from applyNode_run_ok [OF assms(1) run] have 1: "store_ok s1" "users s1 = users s" by auto
    then show ?thesis
      using assms(2) None run delete_nodes_ok [OF 1(1)]
      by (cases e1) (auto simp: applyNodes_def and_then_def purgeNode_run split: if_splits)
  qed (use assms in \<open>simp add: applyNodes_def\<close>)
qed

lemma applyNodes_conf:
  assumes "store_ok s" and "stateDistinct sf" and "applyNodes sf (live rp nc) s r = (None, s', r')"
  shows "list_all (nodeConforms (PurgeFavorites (sfPurge sf)) s') (sfNodes sf)
    \<and> (PurgeNodes (sfPurge sf) \<longrightarrow>
         list_all (\<lambda>n. nNodeNumber n \<in> nsNodeNumber ` set (sfNodes sf)) (t_rows (nodes s')))"
proof -
  let ?W = "nsNodeNumber ` set (sfNodes sf)" and ?pf = "PurgeFavorites (sfPurge sf)"
  from assms(3) obtain s1 r1 where run: "run_specs (applyNode (live rp nc) ?pf) (sfNodes sf) s r = (None, s1, r1)"
    and rest: "(if PurgeNodes (sfPurge sf) then run_specs (purgeNode (live rp nc) ?W) (ListNodes s1) s1 r1
      else (None, s1, r1)) = (None, s', r')"
    by (auto simp: applyNodes_def split: option.splits elim!: and_then_cases)
  have ok: "store_ok s1" by (rule node_loop.run_inv [OF assms(1) run])
  have conf: "\<forall>x \<in> set (sfNodes sf). nodeConforms ?pf s1 x"
    using node_loop.run_conf [OF _ assms(1) run] assms(2) by (simp add: stateDistinct_def list_all_iff)
  show ?thesis
  proof (cases "PurgeNodes (sfPurge sf)")
    case True
    with rest have purge: "run_specs (purgeNode (live rp nc) ?W) (ListNodes s1) s1 r1 = (None, s', r')" by simp
    from purge_nodes_effect(1) [OF ok purge] nodeConforms_purge [OF ok purge] conf
    show ?thesis by (simp add: list_all_iff)
  qed (use rest conf in \<open>auto simp: list_all_iff\<close>)
qed

lemma applyNodes_steady:
  assumes "list_all (nodeConforms (PurgeFavorites (sfPurge sf)) s) (sfNodes sf)"
    and "PurgeNodes (sfPurge sf) \<longrightarrow>
         list_all (\<lambda>n. nNodeNumber n \<in> nsNodeNumber ` set (sfNodes sf)) (t_rows (nodes s))"
    and "checkNodes (sfNodes sf) = None"
    and "list_all (\<lambda>n. checkFavorites (nsNodeNumber n) 0 (nsFavorites n) = None) (sfNodes sf)"
  shows "applyNodes sf opts s r = (None, s, r)"
  using assms purge_nodes_steady.run_steady [of "ListNodes s" "nsNodeNumber ` set (sfNodes sf)"]
  by (simp add: applyNodes_def list_all_iff node_steady.run_steady)

section \<open>A whole run\<close>

lemma Apply_cases:
  assumes "Apply b sf opts s = (e, s', r')"
  obtains (users) x where "applyUsers b sf opts s report0 = (Some x, s', r')" "e = Some x"
  | (both) s1 r1 where "applyUsers b sf opts s report0 = (None, s1, r1)" "applyNodes sf opts s1 r1 = (e, s', r')"
  using assms by (auto simp: Apply_def elim!: and_then_cases)

lemma run_specs_each:
  "run_specs step xs s r = (None, s', r') \<Longrightarrow> x \<in> set xs \<Longrightarrow> \<exists>t r1 t' r2. step x t r1 = (None, t', r2)"
  by (induction xs arbitrary: s r) (auto split: prod.splits option.splits)

lemma live_opts: "\<not> DryRun opts \<Longrightarrow> opts = live (ResetPasswords opts) (NoConfirm opts)"
  by simp

lemma Apply_ok:
  assumes "store_ok s" and "Apply b sf opts s = (e, s', r')"
  shows "store_ok s'"
  using assms(2) by (rule Apply_cases) (use assms(1) applyUsers_ok applyNodes_ok in blast)+

lemma Apply_conforms:
  assumes "store_ok s" and "stateDistinct sf" and "Apply b sf (live rp nc) s = (None, s', r')"
  shows "stateConforms sf s'"
  using assms(3)
proof (rule Apply_cases)
  fix s1 r1
  assume u: "applyUsers b sf (live rp nc) s report0 = (None, s1, r1)"
    and n: "applyNodes sf (live rp nc) s1 r1 = (None, s', r')"
  have ok: "store_ok s1" by (rule applyUsers_ok [OF assms(1) u])
  from applyNodes_ok [OF ok n] have same: "users s' = users s1" ..
  then have "userConforms s' = userConforms s1" "\<And>W. userKept W s' = userKept W s1"
    by (auto simp: fun_eq_iff userConforms_def GetUser_def userKept_def CountSuperusers_def)
  with applyUsers_conf [OF assms(1) _ u] applyNodes_conf [OF ok assms(2) n] same assms(2)
  show ?thesis by (simp add: stateConforms_def stateDistinct_def)
qed simp

text \<open>The fields a file must have: what \<open>checkUsers\<close>, \<open>checkNodes\<close> and \<open>checkFavorites\<close> ask.\<close>

definition stateChecked :: "StateFile \<Rightarrow> bool" where
  "stateChecked sf \<longleftrightarrow> checkUsers (sfUsers sf) = None \<and> checkNodes (sfNodes sf) = None
     \<and> list_all (\<lambda>n. checkFavorites (nsNodeNumber n) 0 (nsFavorites n) = None) (sfNodes sf)"

lemma applyNode_checked:
  assumes "store_ok s" and "applyNode (live rp nc) pf spec s r = (None, s', r')"
  shows "checkFavorites (nsNodeNumber spec) 0 (nsFavorites spec) = None"
  using applyNode_stage [OF assms] by (auto simp: applyFavorites_def split: option.splits)

lemma run_nodes_checked:
  assumes "store_ok s" and "run_specs (applyNode (live rp nc) pf) ns s r = (None, s', r')"
  shows "list_all (\<lambda>n. checkFavorites (nsNodeNumber n) 0 (nsFavorites n) = None) ns"
  using assms
proof (induction ns arbitrary: s r)
  case (Cons n ns)
  from Cons.prems(2) obtain s1 r1 where step: "applyNode (live rp nc) pf n s r = (None, s1, r1)"
    and run: "run_specs (applyNode (live rp nc) pf) ns s1 r1 = (None, s', r')"
    by (rule run_specs_ConsE)
  from Cons.IH [OF applyNode_ok [OF Cons.prems(1) step] run] applyNode_checked [OF Cons.prems(1) step]
  show ?case by simp
qed simp

lemma Apply_checked:
  assumes "store_ok s" and "Apply b sf (live rp nc) s = (None, s', r')"
  shows "stateChecked sf"
  using assms(2)
proof (rule Apply_cases)
  fix s1 r1
  assume u: "applyUsers b sf (live rp nc) s report0 = (None, s1, r1)"
    and n: "applyNodes sf (live rp nc) s1 r1 = (None, s', r')"
  have ok: "store_ok s1" by (rule applyUsers_ok [OF assms(1) u])
  from u have "checkUsers (sfUsers sf) = None" by (auto simp: applyUsers_def split: option.splits)
  with n show ?thesis
    by (auto simp: applyNodes_def stateChecked_def split: option.splits elim!: and_then_cases
        dest: run_nodes_checked [OF ok])
qed simp

lemma Apply_steady:
  assumes "stateConforms sf s" and "stateChecked sf" and "\<not> ResetPasswords opts"
  shows "Apply b sf opts s = (None, s, report0)"
proof -
  have "opts = \<lparr>DryRun = DryRun opts, ResetPasswords = False, NoConfirm = NoConfirm opts\<rparr>"
    using assms(3) by simp
  with assms applyUsers_steady [of s sf b "DryRun opts" "NoConfirm opts" report0]
    applyNodes_steady [of sf s opts report0]
  show ?thesis by (simp add: Apply_def stateConforms_def stateChecked_def)
qed

section \<open>Dry runs\<close>

lemma run_specs_dry:
  assumes "\<And>x r. \<exists>e r'. step x s r = (e, s, r')"
  shows "fst (snd (run_specs step xs s r)) = s"
proof (induction xs arbitrary: r)
  case (Cons x xs)
  from assms [of x r] obtain e r' where "step x s r = (e, s, r')" by blast
  with Cons show ?case by (cases e) simp_all
qed simp

lemma and_then_dry:
  assumes "fst (snd m) = s" and "\<And>r. fst (snd (f s r)) = s"
  shows "fst (snd (and_then m f)) = s"
  using assms by (cases m; cases "fst m") (auto simp: and_then_def)

lemma dry_steps:
  assumes "DryRun opts"
  shows "\<exists>e r'. applyUser b opts spec s r = (e, s, r')" "\<exists>e r'. purgeUser opts W u s r = (e, s, r')"
    "\<exists>e r'. applyFavorite i opts fs s r = (e, s, r')" "\<exists>e r'. purgeFavorite opts W f s r = (e, s, r')"
    "\<exists>e r'. purgeNode opts W n s r = (e, s, r')"
  using assms by (simp_all add: applyUser_def Let_def purgeUser_def applyFavorite_def purgeFavorite_def
      purgeNode_def split: sum.splits db_error.splits)

lemma applyFavorites_dry: "DryRun opts \<Longrightarrow> fst (snd (applyFavorites i spec opts pf s r)) = s"
  by (auto simp: applyFavorites_def run_specs_dry dry_steps intro!: and_then_dry split: option.splits)

lemma applyNode_dry: "DryRun opts \<Longrightarrow> \<exists>e r'. applyNode opts pf spec s r = (e, s, r')"
  using applyFavorites_dry [of opts _ "specDefaults spec" pf s]
  by (auto simp: applyNode_def Let_def split: sum.splits db_error.splits) (metis prod.collapse)+

lemma Apply_dry:
  assumes "DryRun opts"
  shows "fst (snd (Apply b sf opts s)) = s"
  using assms
  by (auto simp: Apply_def applyUsers_def applyNodes_def run_specs_dry dry_steps applyNode_dry
      intro!: and_then_dry split: option.splits)

section \<open>Superusers\<close>

text \<open>What the user step can do to the store, on every outcome.\<close>

lemma applyUser_effect:
  assumes "applyUser b opts spec s r = (e, s', r')"
  obtains "s' = s"
  | h u where "CreateUser (usUsername spec) h (usPermission spec) s = (Inr u, s')"
  | u f where "GetUser (usUsername spec) s = Inr u" "s' = update_user (uID u) f s"
      "\<And>v. uUsername (f v) = uUsername v" "\<And>v. uPermission (f v) \<in> {uPermission v, usPermission spec}"
proof (cases "GetUser (usUsername spec) s")
  case (Inl x)
  then have "x = ErrNotFound" by (simp add: GetUser_Inl_iff)
  with Inl assms have "s' = s \<or> (\<exists>h u. CreateUser (usUsername spec) h (usPermission spec) s = (Inr u, s'))"
    by (auto simp: applyUser_def split: if_splits sum.splits prod.splits dest: CreateUser_cases)
  with that show ?thesis by blast
next
  case (Inr u)
  let ?F = "\<lambda>f. s' = update_user (uID u) f s \<and> (\<forall>v. uUsername (f v) = uUsername v)
    \<and> (\<forall>v. uPermission (f v) \<in> {uPermission v, usPermission spec})"
  have comp: "update_user (uID u) g (update_user (uID u) f s) = update_user (uID u) (\<lambda>v. if uID (f v) = uID u then g (f v) else f v) s" for f g
    by (simp add: update_user_def tbl_update_def update_where_def)
  have "s' = s \<or> (\<exists>f. ?F f)"
  proof -
    have "s' = s \<or> s' = UpdateUserPermission (uID u) (usPermission spec) s
      \<or> (\<exists>h. s' = UpdateUserPassword (uID u) h s)
      \<or> (\<exists>h. s' = UpdateUserPassword (uID u) h (UpdateUserPermission (uID u) (usPermission spec) s))"
      using Inr assms by (auto simp: applyUser_def Let_def split: if_splits sum.splits)
    moreover have "?F f" if "s' = update_user (uID u) f s" "\<And>v. uUsername (f v) = uUsername v"
      "\<And>v. uPermission (f v) = uPermission v \<or> uPermission (f v) = usPermission spec" for f
      using that by auto
    ultimately show ?thesis
      unfolding UpdateUserPermission_def UpdateUserPassword_def comp
      by (elim disjE exE) (rule disjI1, assumption, (rule disjI2, rule exI, (rule conjI, assumption), simp)+)
  qed
  with that Inr show ?thesis by blast
qed

lemma applyUser_keeps_superuser:
  assumes "store_ok s" and "applyUser b opts spec s r = (e, s', r')"
    and "userConforms s \<lparr>usUsername = n, usPermission = PermSuperuser, usPassword = []\<rparr>"
    and "usUsername spec = n \<Longrightarrow> usPermission spec = PermSuperuser"
  shows "userConforms s' \<lparr>usUsername = n, usPermission = PermSuperuser, usPassword = []\<rparr>"
  using assms(2)
proof (rule applyUser_effect)
  fix h u assume "CreateUser (usUsername spec) h (usPermission spec) s = (Inr u, s')"
  from GetUser_CreateUser [OF this] assms(3) show ?thesis
    by (auto simp: userConforms_def split: sum.splits)
next
  fix u f
  assume u: "GetUser (usUsername spec) s = Inr u" and s': "s' = update_user (uID u) f s"
    and f: "\<And>v. uUsername (f v) = uUsername v" "\<And>v. uPermission (f v) \<in> {uPermission v, usPermission spec}"
  show ?thesis
  proof (cases "usUsername spec = n")
    case True
    with u s' f(2) [of u] assms(3,4) show ?thesis
      by (auto simp: userConforms_def GetUser_update_user [OF f(1)])
  next
    case False
    with userConforms_update_other [OF store_users_ok [OF assms(1)] assms(3)
        GetUser_ID [OF store_users_ok [OF assms(1)] u], of f] f(1) s' GetUser_InrD [OF u]
    show ?thesis by simp
  qed
qed (use assms(3) in simp)

lemma userConforms_superuser:
  "userConforms s \<lparr>usUsername = n, usPermission = PermSuperuser, usPassword = p\<rparr> \<Longrightarrow> 0 < CountSuperusers s"
  by (auto simp: userConforms_def CountSuperusers_pos_iff PermSuperuser_def split: sum.splits dest: GetUser_InrD)

lemma purge_users_superuser:
  assumes "store_ok s" and "0 < CountSuperusers s"
    and "run_specs (purgeUser opts W) (ListUsers s) s r = (e, s', r')"
  shows "0 < CountSuperusers s'"
proof -
  let ?P = "\<lambda>t. store_ok t \<and> 0 < CountSuperusers t \<and> set (t_rows (users t)) \<subseteq> set (t_rows (users s))"
  have "?P s'"
  proof (rule run_specs_inv [where P = ?P, OF assms(3)])
    fix u t r1 e1 t' r2
    assume u: "u \<in> set (ListUsers s)" and P: "?P t" and step: "purgeUser opts W u t r1 = (e1, t', r2)"
    have "u \<in> set (t_rows (users t)) \<or> uID u \<notin> uID ` set (t_rows (users t))"
      using P u ListUsers_same_id [OF assms(1) u] by (metis (no_types, lifting) imageE subsetD)
    with P step purgeUser_ok [OF _ step] purgeUser_subset [OF step] show "?P t'"
      using purgeUser_keeps_superuser [OF store_users_ok, of t u opts W r1 e1 t' r2] by blast
  qed (use assms in auto)
  then show ?thesis by blast
qed

lemma Apply_keeps_superuser:
  assumes "store_ok s" and "Apply b sf opts s = (e, s', r')"
    and "u \<in> set (t_rows (users s))" and "uPermission u = PermSuperuser"
    and "\<And>spec. spec \<in> set (sfUsers sf) \<Longrightarrow> usUsername spec = uUsername u \<Longrightarrow> usPermission spec = PermSuperuser"
  shows "0 < CountSuperusers s'"
proof -
  let ?c = "\<lambda>t. userConforms t \<lparr>usUsername = uUsername u, usPermission = PermSuperuser, usPassword = []\<rparr>"
  have "GetUser (uUsername u) s = Inr u"
    using assms(3) by (simp add: GetUser_iff [OF store_users_ok [OF assms(1)]])
  then have c: "?c s" by (simp add: userConforms_def assms(4))
  have run: "store_ok t \<and> ?c t" if "run_specs (applyUser b opts) (sfUsers sf) s r1 = (e1, t, r2)" for e1 t r1 r2
  proof (rule run_specs_inv [where P = "\<lambda>t. store_ok t \<and> ?c t", OF that])
    fix spec t r1 e1 t' r2
    assume "spec \<in> set (sfUsers sf)" "store_ok t \<and> ?c t" and step: "applyUser b opts spec t r1 = (e1, t', r2)"
    then show "store_ok t' \<and> ?c t'"
      using applyUser_ok [OF _ step] applyUser_keeps_superuser [OF _ step] assms(5) by blast
  qed (use assms(1) c in simp)
  have users: "0 < CountSuperusers t" if u: "applyUsers b sf opts s r1 = (e1, t, r2)" for e1 t r1 r2
  proof (cases "checkUsers (sfUsers sf)")
    case None
    obtain e2 t2 r3 where loop: "run_specs (applyUser b opts) (sfUsers sf) s r1 = (e2, t2, r3)"
      using prod_cases3 by blast
    from run [OF loop] have t2: "store_ok t2" "0 < CountSuperusers t2"
      using userConforms_superuser by blast+
    with u None loop purge_users_superuser [OF t2, of opts "usUsername ` set (sfUsers sf)" r3]
    show ?thesis
      by (cases e2) (auto simp: applyUsers_def and_then_def split: if_splits)
  next
    case (Some x)
    with u userConforms_superuser [OF c] show ?thesis by (simp add: applyUsers_def)
  qed
  show ?thesis
    using assms(2)
  proof (rule Apply_cases)
    fix s1 r1
    assume u: "applyUsers b sf opts s report0 = (None, s1, r1)" and n: "applyNodes sf opts s1 r1 = (e, s', r')"
    from applyNodes_ok [OF applyUsers_ok [OF assms(1) u] n] users [OF u] show ?thesis
      by (simp add: CountSuperusers_def)
  qed (rule users)
qed

section \<open>Success\<close>

lemma run_specs_total:
  assumes "P s" and "\<And>x t r. x \<in> set xs \<Longrightarrow> P t \<Longrightarrow> \<exists>t' r'. step x t r = (None, t', r') \<and> P t'"
  shows "\<exists>s' r'. run_specs step xs s r = (None, s', r') \<and> P s'"
  using assms
proof (induction xs arbitrary: s r)
  case (Cons x xs)
  from Cons.prems(2) [of x s r] Cons.prems(1) obtain s1 r1 where "step x s r = (None, s1, r1)" "P s1" by auto
  with Cons.IH [of s1 r1] Cons.prems(2) show ?case by simp
qed simp

lemma applyUser_total:
  assumes "store_ok s" and "HashPassword b (usPassword spec) = Inr h"
  shows "\<exists>s' r'. applyUser b opts spec s r = (None, s', r') \<and> store_ok s'"
proof -
  have "fst (applyUser b opts spec s r) = None"
    using assms by (auto simp: applyUser_def Let_def GetUser_Inl_iff
        split: sum.splits db_error.splits prod.splits dest!: CreateUser_cases)
  with applyUser_ok [OF assms(1)] show ?thesis by (cases "applyUser b opts spec s r") auto
qed

lemma applyUsers_total:
  assumes "store_ok s" and "checkUsers (sfUsers sf) = None"
    and "\<forall>u \<in> set (sfUsers sf). \<exists>h. HashPassword b (usPassword u) = Inr h"
  shows "\<exists>s' r'. applyUsers b sf opts s r = (None, s', r') \<and> store_ok s'"
proof -
  let ?W = "usUsername ` set (sfUsers sf)"
  have "\<exists>s' r'. run_specs (applyUser b opts) (sfUsers sf) s r = (None, s', r') \<and> store_ok s'"
    by (rule run_specs_total [where P = store_ok, OF assms(1)]) (use applyUser_total assms(3) in blast)
  then obtain s1 r1 where run: "run_specs (applyUser b opts) (sfUsers sf) s r = (None, s1, r1)"
    and ok: "store_ok s1" by blast
  have step: "\<exists>t' r'. purgeUser opts ?W u t r = (None, t', r') \<and> store_ok t'" if "store_ok t" for u t r
    by (cases "purgeUser opts ?W u t r") (use that purgeUser_ok purgeUser_None in fastforce)
  have "\<exists>s' r'. run_specs (purgeUser opts ?W) (ListUsers s1) s1 r1 = (None, s', r') \<and> store_ok s'"
    by (rule run_specs_total [where P = store_ok, OF ok]) (rule step)
  with run ok assms(2) show ?thesis by (auto simp: applyUsers_def)
qed

lemma applyFavorite_total:
  assumes "i \<in> nID ` set (t_rows (nodes s))"
  shows "fst (applyFavorite i opts fs s r) = None"
  using assms by (auto simp: applyFavorite_def Let_def GetFavoriteByNodeNumber_Inl_iff CreateFavorite_eq
      split: sum.splits db_error.splits)

lemma applyFavorites_total:
  assumes "store_ok s" and "i \<in> nID ` set (t_rows (nodes s))"
    and "checkFavorites (nsNodeNumber spec) 0 (nsFavorites spec) = None"
  shows "fst (applyFavorites i spec opts pf s r) = None"
proof -
  let ?P = "\<lambda>t. store_ok t \<and> i \<in> nID ` set (t_rows (nodes t))"
  have "\<exists>t' r'. applyFavorite i opts fs t r = (None, t', r') \<and> ?P t'" if "?P t" for fs t r
  proof -
    from that applyFavorite_total obtain t' r' where step: "applyFavorite i opts fs t r = (None, t', r')"
      by (metis prod_cases3 fst_conv)
    with applyFavorite_ok [OF _ step] applyFavorite_fav_frame [OF _ step] that show ?thesis
      by (simp add: fav_frame_def)
  qed
  then obtain s1 r1 where "run_specs (applyFavorite i opts) (nsFavorites spec) s r = (None, s1, r1)"
    using run_specs_total [where P = ?P and xs = "nsFavorites spec"] assms(1,2) by meson
  with assms(3) show ?thesis by (simp add: applyFavorites_def purgeFavorite_run)
qed

lemma applyNode_total:
  assumes "store_ok s" and "checkFavorites (nsNodeNumber spec) 0 (nsFavorites spec) = None"
  shows "\<exists>s' r'. applyNode opts pf spec s r = (None, s', r') \<and> store_ok s'"
proof -
  have new: "fst (applyFavorites (nID (fst (CreateNode n s))) (specDefaults spec) opts pf (snd (CreateNode n s)) r1) = None" for n r1
    by (rule applyFavorites_total [OF CreateNode_ok [OF assms(1)]])
      (use assms(2) CreateNode_rows in simp_all)
  have upd: "fst (applyFavorites (nID n) (specDefaults spec) opts pf (UpdateNode m s) r1) = None"
    "fst (applyFavorites (nID n) (specDefaults spec) opts pf s r1) = None"
    if "n \<in> set (t_rows (nodes s))" for n m r1
  proof -
    have "nID n \<in> nID ` set (t_rows (nodes (UpdateNode m s)))"
      using that by (simp add: UpdateNode_def image_update_where)
    then show "fst (applyFavorites (nID n) (specDefaults spec) opts pf (UpdateNode m s) r1) = None"
      using applyFavorites_total [OF UpdateNode_ok [OF assms(1)]] assms(2) by simp
    show "fst (applyFavorites (nID n) (specDefaults spec) opts pf s r1) = None"
      using applyFavorites_total [OF assms(1)] assms(2) that by simp
  qed
  have "fst (applyNode opts pf spec s r) = None"
  proof (cases "GetNodeByNumber (nsNodeNumber spec) s")
    case (Inl e)
    then have "e = ErrNotFound" by (simp add: GetNodeByNumber_Inl_iff)
    with Inl new [of "nodeOfSpec 0 (specDefaults spec)"] show ?thesis
      by (simp add: applyNode_def Let_def split: prod.splits) auto
  next
    case (Inr n)
    with upd [of n] GetNodeByNumber_InrD [OF Inr] show ?thesis
      by (simp add: applyNode_def Let_def)
  qed
  with applyNode_ok [OF assms(1)] show ?thesis by (cases "applyNode opts pf spec s r") auto
qed

lemma applyNodes_total:
  assumes "store_ok s" and "stateChecked sf"
  shows "fst (applyNodes sf opts s r) = None"
proof -
  obtain s1 r1 where "run_specs (applyNode opts (PurgeFavorites (sfPurge sf))) (sfNodes sf) s r = (None, s1, r1)"
    using run_specs_total [where P = store_ok, OF assms(1), of "sfNodes sf" "applyNode opts (PurgeFavorites (sfPurge sf))"]
      applyNode_total assms(2) by (fastforce simp: stateChecked_def list_all_iff)
  with assms(2) show ?thesis by (simp add: applyNodes_def purgeNode_run stateChecked_def)
qed

lemma Apply_total:
  assumes "store_ok s" and "stateChecked sf"
    and "\<forall>u \<in> set (sfUsers sf). \<exists>h. HashPassword b (usPassword u) = Inr h"
  shows "fst (Apply b sf opts s) = None"
proof -
  from applyUsers_total [OF assms(1) _ assms(3)] assms(2) obtain s1 r1
    where "applyUsers b sf opts s report0 = (None, s1, r1)" "store_ok s1"
    by (fastforce simp: stateChecked_def)
  with applyNodes_total [of s1 sf opts r1] assms(2) show ?thesis by (simp add: Apply_def)
qed

section \<open>Environment references\<close>

lemma substUsers_spec:
  "substUsers env i us =
     (case find (\<lambda>j. \<exists>e. resolveEnv env (usPassword (us ! j)) ''users.password'' (i + j) = Inl e) [0..<length us] of
        None \<Rightarrow> Inr (map (\<lambda>u. u\<lparr>usPassword := projr (resolveEnv env (usPassword u) ''users.password'' 0)\<rparr>) us)
      | Some j \<Rightarrow> Inl (projl (resolveEnv env (usPassword (us ! j)) ''users.password'' (i + j))))"
proof (induction us arbitrary: i)
  case (Cons u us)
  have up: "[0..<length (u # us)] = 0 # map Suc [0..<length us]"
    by (simp add: upt_conv_Cons map_Suc_upt del: upt_Suc)
  have find_map: "find P (map Suc js) = map_option Suc (find (P \<circ> Suc) js)" for P js
    by (induction js) auto
  show ?case
  proof (cases "resolveEnv env (usPassword u) ''users.password'' i")
    case (Inl e)
    then show ?thesis unfolding up by simp
  next
    case (Inr v)
    then have "resolveEnv env (usPassword u) ''users.password'' 0 = Inr v"
      by (auto simp: resolveEnv_def split: if_splits option.splits)
    with Inr Cons [of "Suc i"] show ?thesis
      unfolding up find.simps find_map by (auto simp: comp_def split: option.splits)
  qed
qed simp

section \<open>Properties\<close>

text \<open>C12: after a live run that reports no error, of a file that names no account, no node and no
  favorite of one node twice, the database is in the state the file describes: each account has its
  permission, each node its name, AMI address, credentials and enabled flag, each favorite its callsign,
  description, location and group, and what a purge covers and the file does not name is gone, the last
  superuser excepted.\<close>

theorem Apply_reaches_state:
  assumes "store_ok s" and "stateDistinct sf" and "\<not> DryRun opts"
    and "Apply bcrypt sf opts s = (None, s', r)"
  shows "stateConforms sf s'"
  using Apply_conforms [OF assms(1,2)] assms(3,4) live_opts [OF assms(3)] by metis

definition demoBcrypt :: "string \<Rightarrow> string option" where
  "demoBcrypt p = Some (CHR ''#'' # p)"

definition demoFile :: StateFile where
  "demoFile = \<lparr>sfPurge = \<lparr>PurgeUsers = True, PurgeNodes = True, PurgeFavorites = True\<rparr>,
     sfUsers = [\<lparr>usUsername = ''ann'', usPermission = ''superuser'', usPassword = ''password''\<rparr>],
     sfNodes = [\<lparr>nsName = ''hub'', nsNodeNumber = ''2000'', nsAMIHost = [], nsAMIPort = 0, nsAMIUser = ''u'',
       nsAMIPass = ''p'', nsEnabled = True, nsFavorites = [\<lparr>fsNodeNumber = ''29332'', fsCallsign = ''W1AW'',
       fsDescription = [], fsLocation = [], fsGroupName = []\<rparr>]\<rparr>]\<rparr>"

lemmas demo_defs = demoBcrypt_def demoFile_def

lemma demo_run: "fst (Apply demoBcrypt demoFile (live False True) store_empty) = None"
  by code_simp

lemma demo_distinct: "stateDistinct demoFile"
  by code_simp

theorem Apply_reaches_state_witness:
  "stateConforms demoFile (fst (snd (Apply demoBcrypt demoFile (live False True) store_empty)))"
  by (rule Apply_reaches_state [OF store_empty_ok demo_distinct])
    (use demo_run in \<open>simp_all add: prod_eq_iff\<close>)

text \<open>C32: for a file that names no account, no node and no favorite of one node twice, a run repeated
  without resetting passwords, live or dry, changes neither the database nor the report: everything it
  compares is already equal.\<close>

theorem Apply_idempotent:
  assumes "store_ok s" and "stateDistinct sf" and "\<not> DryRun opts"
    and "Apply bcrypt sf opts s = (None, s', r)" and "\<not> ResetPasswords opts'"
  shows "Apply bcrypt sf opts' s' = (None, s', report0)"
  using Apply_steady Apply_conforms [OF assms(1,2)] Apply_checked [OF assms(1)] assms(3-5)
    live_opts [OF assms(3)] by metis

theorem Apply_idempotent_witness:
  "Apply demoBcrypt demoFile (live False False) (fst (snd (Apply demoBcrypt demoFile (live False True) store_empty)))
    = (None, fst (snd (Apply demoBcrypt demoFile (live False True) store_empty)), report0)"
  by (rule Apply_idempotent [OF store_empty_ok demo_distinct, where opts = "live False True"])
    (use demo_run in \<open>simp_all add: prod_eq_iff\<close>)

text \<open>A file may name a node twice, which is not checked: with two specs for it every run changes it twice.\<close>

definition twiceFile :: StateFile where
  "twiceFile = demoFile\<lparr>sfNodes := sfNodes demoFile @ map (nsName_update (\<lambda>n. ''other'')) (sfNodes demoFile)\<rparr>"

lemma duplicate_specs_flip:
  "NodesUpdated (snd (snd (Apply demoBcrypt twiceFile (live False True)
     (fst (snd (Apply demoBcrypt twiceFile (live False True) store_empty)))))) = 2"
  by code_simp

text \<open>A dry run leaves every table of the database as it is.\<close>

lemma Apply_dry_run:
  assumes "DryRun opts"
  shows "\<exists>e r. Apply bcrypt sf opts s = (e, s, r)"
  using Apply_dry [OF assms, of bcrypt sf s] by (metis prod.collapse)

lemma Apply_dry_run_witness:
  "\<exists>e r. Apply demoBcrypt demoFile \<lparr>DryRun = True, ResetPasswords = True, NoConfirm = False\<rparr> store_empty
     = (e, store_empty, r)"
  by (rule Apply_dry_run) simp

text \<open>C33: no run takes the last superuser away by purging: when an account is a superuser and the
  file does not give it another permission, some superuser is left, also after an error.\<close>

theorem Apply_leaves_superuser:
  assumes "store_ok s" and "Apply bcrypt sf opts s = (e, s', r)"
    and "u \<in> set (t_rows (users s))" and "uPermission u = ''superuser''"
    and "\<forall>spec \<in> set (sfUsers sf). usUsername spec = uUsername u \<longrightarrow> usPermission spec = ''superuser''"
  shows "0 < CountSuperusers s'"
  using Apply_keeps_superuser [OF assms(1,2,3)] assms(4,5) by (simp add: PermSuperuser_def)

definition demoStore :: store where
  "demoStore = snd (CreateUser ''ann'' ''#password'' ''superuser'' store_empty)"

lemma demoStore_ok: "store_ok demoStore"
  unfolding demoStore_def by (rule CreateUser_ok [OF store_empty_ok])

theorem Apply_leaves_superuser_witness:
  "0 < CountSuperusers (fst (snd (Apply demoBcrypt (demoFile\<lparr>sfUsers := []\<rparr>) (live False True) demoStore)))"
  by (rule Apply_leaves_superuser [OF demoStore_ok, where u = "hd (t_rows (users demoStore))"])
    (auto simp: demoStore_def CreateUser_def user_new_def store_empty_def tbl_insert_def tbl_empty_def
      prod_eq_iff)

text \<open>C34: a file whose entries have their required fields, and passwords that can be hashed, is
  applied to the end without an error, whatever the options.\<close>

theorem Apply_succeeds:
  assumes "store_ok s" and "stateChecked sf"
    and "\<forall>u \<in> set (sfUsers sf). \<exists>h. HashPassword bcrypt (usPassword u) = Inr h"
  shows "\<exists>s' r. Apply bcrypt sf opts s = (None, s', r)"
  using Apply_total [OF assms, of opts] by (metis prod.collapse)

theorem Apply_succeeds_witness:
  "\<exists>s' r. Apply demoBcrypt demoFile (live True False) demoStore = (None, s', r)"
  by (rule Apply_succeeds [OF demoStore_ok])
    (simp_all add: demo_defs stateChecked_def ValidPermission_def permRank_def perm_defs HashPassword_def)

text \<open>Every run, successful or not, keeps the constraints of the schema.\<close>

lemma Apply_keeps_schema:
  assumes "store_ok s" and "Apply bcrypt sf opts s = (e, s', r)"
  shows "store_ok s'"
  by (rule Apply_ok [OF assms])

lemma Apply_keeps_schema_witness:
  "store_ok (fst (snd (Apply demoBcrypt demoFile (live True False) demoStore)))"
  by (rule Apply_keeps_schema [OF demoStore_ok]) (simp add: prod_eq_iff)

text \<open>The password references of the users are resolved all or none: the error is that of the
  first account whose variable is not set, and with none every password is the resolved one.\<close>

lemma substUsers_first_error:
  "substUsers env i us =
     (case find (\<lambda>j. \<exists>e. resolveEnv env (usPassword (us ! j)) ''users.password'' (i + j) = Inl e) [0..<length us] of
        None \<Rightarrow> Inr (map (\<lambda>u. u\<lparr>usPassword := projr (resolveEnv env (usPassword u) ''users.password'' 0)\<rparr>) us)
      | Some j \<Rightarrow> Inl (projl (resolveEnv env (usPassword (us ! j)) ''users.password'' (i + j))))"
  by (rule substUsers_spec)

section \<open>What the reconciliation loses\<close>

text \<open>
  A changed node is written as the spec has it, which has no description and no location: both
  columns of the row become empty. A changed favorite loses its command the same way.
\<close>

lemma applyNode_wipes_description:
  assumes "store_ok s" and "GetNodeByNumber (nsNodeNumber spec) s = Inr n"
    and "nodeChanged n (nodeOfSpec (nID n) (specDefaults spec))"
  shows "\<exists>m. GetNodeByNumber (nsNodeNumber spec) (UpdateNode (nodeOfSpec (nID n) (specDefaults spec)) s) = Inr m
    \<and> nDescription m = [] \<and> nLocation m = []"
  using GetNodeByNumber_UpdateNode [OF assms(1,2), of "nodeOfSpec (nID n) (specDefaults spec)"]
  by (simp add: nodeOfSpec_def)

text \<open>The file may demote the only superuser: nothing checks it, unlike the purge.\<close>

lemma Apply_demotes_last_superuser:
  "CountSuperusers demoStore = 1 \<and> CountSuperusers (fst (snd (Apply demoBcrypt
     (demoFile\<lparr>sfUsers := [\<lparr>usUsername = ''ann'', usPermission = ''readonly'', usPassword = []\<rparr>]\<rparr>)
     (live False True) demoStore))) = 0"
  by code_simp

end
