(* ===== verification/Db_Passkeys.thy ===== *)
theory Db_Passkeys
  imports Db_Nodes
begin

text \<open>
  \<open>internal/db/passkeys.go\<close>: passkey credentials and the WebAuthn ceremonies in progress; and
  the migration loop and row counts of \<open>internal/db/db.go\<close>. \<open>now\<close> is the Unix time the
  database reads.
\<close>

section \<open>Credentials\<close>

text \<open>The zero \<open>time.Time\<close> in Unix seconds.\<close>

definition zero_time :: int where "zero_time = -62135596800"

definition CreateCredential :: "int \<Rightarrow> int \<Rightarrow> string \<Rightarrow> string \<Rightarrow> string \<Rightarrow> store \<Rightarrow> (db_error + credential) \<times> store" where
  "CreateCredential now userID credID name credJSON s =
     (if userID \<notin> uID ` set (t_rows (users s)) then (Inl (ErrConstraint ''webauthn_credentials.user_id''), s)
      else if credID \<in> cCredentialID ` set (t_rows (credentials s))
      then (Inl (ErrConstraint ''webauthn_credentials.credential_id''), s)
      else let c = \<lparr>cID = 0, cUserID = userID, cCredentialID = credID, cName = name,
                 cCredentialJSON = credJSON, cCreatedAt = now, cLastUsedAt = None\<rparr>;
               (i, t) = tbl_insert (\<lambda>i c. c\<lparr>cID := i\<rparr>) c (credentials s)
           in (Inr (c\<lparr>cID := i, cCreatedAt := zero_time\<rparr>), s\<lparr>credentials := t\<rparr>))"

definition ListCredentials :: "int \<Rightarrow> store \<Rightarrow> credential list" where
  "ListCredentials userID s =
     sort_key cCreatedAt (filter (\<lambda>c. cUserID c = userID) (t_rows (credentials s)))"

text \<open>A NULL handle equals nothing; the model has the empty string for it.\<close>

definition GetCredentialsByWebAuthnID :: "string \<Rightarrow> store \<Rightarrow> db_error + (credential list \<times> int)" where
  "GetCredentialsByWebAuthnID webauthnID s =
     (case tbl_find (\<lambda>u. uWebAuthnID u \<noteq> [] \<and> uWebAuthnID u = webauthnID) (users s) of
        None \<Rightarrow> Inl ErrNotFound
      | Some u \<Rightarrow> Inr (ListCredentials (uID u) s, uID u))"

definition GetCredential :: "int \<Rightarrow> int \<Rightarrow> store \<Rightarrow> db_error + credential" where
  "GetCredential i userID s =
     (case tbl_find (\<lambda>c. cID c = i \<and> cUserID c = userID) (credentials s) of
        None \<Rightarrow> Inl ErrNotFound | Some c \<Rightarrow> Inr c)"

text \<open>The rows affected by a statement decide whether it is an error.\<close>

definition RenameCredential :: "int \<Rightarrow> int \<Rightarrow> string \<Rightarrow> store \<Rightarrow> (db_error + unit) \<times> store" where
  "RenameCredential i userID name s =
     (if \<exists>c \<in> set (t_rows (credentials s)). cID c = i \<and> cUserID c = userID
      then (Inr (), s\<lparr>credentials := tbl_update (\<lambda>c. cID c = i \<and> cUserID c = userID) (\<lambda>c. c\<lparr>cName := name\<rparr>) (credentials s)\<rparr>)
      else (Inl ErrNotFound, s))"

definition UpdateCredentialUsed :: "int \<Rightarrow> string \<Rightarrow> string \<Rightarrow> store \<Rightarrow> store" where
  "UpdateCredentialUsed now credID credJSON s =
     s\<lparr>credentials := tbl_update (\<lambda>c. cCredentialID c = credID)
        (\<lambda>c. c\<lparr>cCredentialJSON := credJSON, cLastUsedAt := Some now\<rparr>) (credentials s)\<rparr>"

definition DeleteCredential :: "int \<Rightarrow> int \<Rightarrow> store \<Rightarrow> (db_error + unit) \<times> store" where
  "DeleteCredential i userID s =
     (if \<exists>c \<in> set (t_rows (credentials s)). cID c = i \<and> cUserID c = userID
      then (Inr (), s\<lparr>credentials := tbl_delete (\<lambda>c. cID c = i \<and> cUserID c = userID) (credentials s)\<rparr>)
      else (Inl ErrNotFound, s))"

definition CountCredentials :: "int \<Rightarrow> store \<Rightarrow> nat" where
  "CountCredentials userID s = length (filter (\<lambda>c. cUserID c = userID) (t_rows (credentials s)))"

section \<open>Ceremonies\<close>

definition CreateWebAuthnSession :: "wa_session \<Rightarrow> store \<Rightarrow> (db_error + unit) \<times> store" where
  "CreateWebAuthnSession ws s =
     (if wsSessionID ws \<in> wsSessionID ` set (wa_sessions s)
      then (Inl (ErrConstraint ''webauthn_sessions.session_id''), s)
      else (Inr (), s\<lparr>wa_sessions := wa_sessions s @ [ws]\<rparr>))"

definition GetAndDeleteWebAuthnSession :: "string \<Rightarrow> store \<Rightarrow> (db_error + wa_session) \<times> store" where
  "GetAndDeleteWebAuthnSession sessionID s =
     (case find (\<lambda>w. wsSessionID w = sessionID) (wa_sessions s) of
        None \<Rightarrow> (Inl ErrNotFound, s)
      | Some w \<Rightarrow> (Inr w, s\<lparr>wa_sessions := filter (\<lambda>w. wsSessionID w \<noteq> sessionID) (wa_sessions s)\<rparr>))"

definition PruneWebAuthnSessions :: "int \<Rightarrow> store \<Rightarrow> store" where
  "PruneWebAuthnSessions now s = s\<lparr>wa_sessions := filter (\<lambda>w. \<not> wsExpiresAt w < now) (wa_sessions s)\<rparr>"

section \<open>Row counts\<close>

record Stats =
  stNodes :: nat
  stFavorites :: nat
  stUsers :: nat
  stConfigs :: nat

definition DbStats :: "store \<Rightarrow> Stats" where
  "DbStats s = \<lparr>stNodes = length (t_rows (nodes s)), stFavorites = length (t_rows (favorites s)),
     stUsers = length (t_rows (users s)), stConfigs = length (configs s)\<rparr>"

section \<open>Migrations\<close>

text \<open>
  \<open>'d\<close> is the database before its schema is complete. A migration has a version, and SQL or a
  function that changes the database inside its transaction or fails; with neither it only
  records its version. A failing one is rolled back and ends the loop.
\<close>

record 'd migration =
  mVersion :: nat
  mRun :: "('d \<Rightarrow> string + 'd) option"

record 'd migrated =
  mgVersions :: "nat list"
  mgData :: 'd

definition SchemaVersion :: "'d migrated \<Rightarrow> nat" where
  "SchemaVersion db = foldl max 0 (mgVersions db)"

definition run_migration :: "'d migration \<Rightarrow> 'd migrated \<Rightarrow> (nat \<times> string) + 'd migrated" where
  "run_migration m db =
     (case (case mRun m of None \<Rightarrow> Inr (mgData db) | Some f \<Rightarrow> f (mgData db)) of
        Inl e \<Rightarrow> Inl (mVersion m, e)
      | Inr d \<Rightarrow>
          if mVersion m \<in> set (mgVersions db) then Inl (mVersion m, ''schema_version.version'')
          else Inr (db\<lparr>mgVersions := mgVersions db @ [mVersion m], mgData := d\<rparr>))"

fun migrate_from :: "nat \<Rightarrow> 'd migration list \<Rightarrow> 'd migrated \<Rightarrow> (nat \<times> string) option \<times> 'd migrated" where
  "migrate_from current [] db = (None, db)"
| "migrate_from current (m # ms) db =
     (if mVersion m \<le> current then migrate_from current ms db
      else case run_migration m db of
          Inl e \<Rightarrow> (Some e, db)
        | Inr db' \<Rightarrow> migrate_from current ms db')"

definition migrate :: "'d migration list \<Rightarrow> 'd migrated \<Rightarrow> (nat \<times> string) option \<times> 'd migrated" where
  "migrate migrations db = migrate_from (SchemaVersion db) migrations db"

section \<open>The operations keep the schema's constraints\<close>

lemma CreateCredential_ok [inv_intros]: "store_ok s \<Longrightarrow> store_ok (snd (CreateCredential now i c n j s))"
  using cred_rows.insert_inv [of "credentials s" "\<lparr>cID = 0, cUserID = i, cCredentialID = c, cName = n,
    cCredentialJSON = j, cCreatedAt = now, cLastUsedAt = None\<rparr>"]
  by (auto simp: CreateCredential_def store_ok_defs Let_def split: prod.splits)
    (auto simp: tbl_insert_def)

lemma update_credentials_ok:
  assumes "store_ok s" and "\<And>c. cID (f c) = cID c" "\<And>c. cUserID (f c) = cUserID c"
    "\<And>c. cCredentialID (f c) = cCredentialID c"
  shows "store_ok (s\<lparr>credentials := tbl_update p f (credentials s)\<rparr>)"
  using assms by (simp add: store_ok_defs cred_rows.update_inv image_update_where map_update_where)

lemma passkey_ops_ok [inv_intros]:
  assumes "store_ok s"
  shows "store_ok (snd (RenameCredential i u n s))" "store_ok (UpdateCredentialUsed now c j s)"
    "store_ok (snd (DeleteCredential i u s))" "store_ok (snd (CreateWebAuthnSession ws s))"
    "store_ok (snd (GetAndDeleteWebAuthnSession k s))" "store_ok (PruneWebAuthnSessions now s)"
proof -
  show "store_ok (snd (RenameCredential i u n s))" "store_ok (UpdateCredentialUsed now c j s)"
    using assms by (simp_all add: RenameCredential_def UpdateCredentialUsed_def update_credentials_ok)
  show "store_ok (snd (DeleteCredential i u s))"
    using assms by (auto simp: DeleteCredential_def store_ok_defs cred_rows.delete_inv distinct_map_filter)
  show "store_ok (snd (CreateWebAuthnSession ws s))"
    using assms by (simp add: CreateWebAuthnSession_def store_ok_defs)
  show "store_ok (snd (GetAndDeleteWebAuthnSession k s))" "store_ok (PruneWebAuthnSessions now s)"
    using assms by (auto simp: GetAndDeleteWebAuthnSession_def PruneWebAuthnSessions_def store_ok_defs
        distinct_map_filter split: option.splits)
qed

section \<open>Migration facts\<close>

lemma foldl_max_ge: "v \<in> set vs \<or> v \<le> a \<Longrightarrow> v \<le> foldl max a vs" for a :: nat
proof (induction vs arbitrary: a)
  case (Cons x vs)
  from Cons.prems have "v \<in> set vs \<or> v \<le> max a x" by auto
  from Cons.IH [OF this] show ?case by simp
qed simp

lemma foldl_max_in: "foldl max a vs = a \<or> foldl max a vs \<in> set vs" for a :: nat
proof (induction vs arbitrary: a)
  case (Cons v vs)
  from Cons [of "max a v"] show ?case by (auto simp: max_def split: if_splits)
qed simp

lemma migrate_from_grows:
  "migrate_from c ms db = (r, db') \<Longrightarrow> set (mgVersions db) \<subseteq> set (mgVersions db')"
  by (induction c ms db rule: migrate_from.induct)
    (auto simp: run_migration_def split: if_splits sum.splits option.splits)

text \<open>Running again from a version that accounts for what the first run recorded.\<close>

lemma migrate_from_again:
  assumes "migrate_from c ms db = (r, db')" and "sorted_wrt (<) (map mVersion ms)"
    and "\<And>x m. x \<in> set (mgVersions db) \<Longrightarrow> m \<in> set ms \<Longrightarrow> c < mVersion m \<Longrightarrow> x < mVersion m"
    and "c \<le> c'" and "\<And>x. x \<in> set (mgVersions db') \<Longrightarrow> x \<le> c'" and "c' = c \<or> c' \<in> set (mgVersions db')"
  shows "migrate_from c' ms db' = (r, db') \<and> (r = None \<longrightarrow> (\<forall>m \<in> set ms. mVersion m \<le> c'))"
  using assms
proof (induction ms arbitrary: db)
  case (Cons m ms)
  show ?case
  proof (cases "mVersion m \<le> c")
    case True
    with Cons.prems Cons.IH [of db] show ?thesis by simp
  next
    case False
    show ?thesis
    proof (cases "run_migration m db")
      case (Inl e)
      with False Cons.prems have eq: "r = Some e" "db' = db" by auto
      have "c' < mVersion m" using Cons.prems(3,6) False eq by (auto simp: not_le)
      with Inl eq show ?thesis by simp
    next
      case (Inr db1)
      have run: "migrate_from c ms db1 = (r, db')" using Cons.prems(1) False Inr by simp
      have v: "mgVersions db1 = mgVersions db @ [mVersion m]"
        using Inr by (auto simp: run_migration_def split: if_splits sum.splits option.splits)
      with migrate_from_grows [OF run] Cons.prems(5) have "mVersion m \<le> c'" by auto
      moreover have "migrate_from c' ms db' = (r, db') \<and> (r = None \<longrightarrow> (\<forall>m \<in> set ms. mVersion m \<le> c'))"
        by (rule Cons.IH [OF run]) (use Cons.prems v in auto)
      ultimately show ?thesis by simp
    qed
  qed
qed simp

section \<open>Properties\<close>

text \<open>Opening a database twice migrates it once: whatever the outcome of the first run, a
  second one on its result has the same outcome and changes nothing, so that a failed migration is
  retried where it failed; and a run without an error ends at the last version.\<close>

lemma migrate_resumes:
  assumes "sorted_wrt (<) (map mVersion migrations)" and "migrate migrations db = (r, db')"
  shows "migrate migrations db' = (r, db')
    \<and> (r = None \<longrightarrow> (\<forall>m \<in> set migrations. mVersion m \<le> SchemaVersion db'))"
  unfolding migrate_def
proof (rule migrate_from_again)
  show "migrate_from (SchemaVersion db) migrations db = (r, db')" using assms(2) by (simp add: migrate_def)
  then have sub: "set (mgVersions db) \<subseteq> set (mgVersions db')" by (rule migrate_from_grows)
  have in_db: "SchemaVersion db = 0 \<or> SchemaVersion db \<in> set (mgVersions db)"
    unfolding SchemaVersion_def by (rule foldl_max_in)
  show "SchemaVersion db \<le> SchemaVersion db'"
    using in_db sub by (auto simp: SchemaVersion_def intro: foldl_max_ge)
  show "x < mVersion m" if "x \<in> set (mgVersions db)" "SchemaVersion db < mVersion m" for x m
    using that foldl_max_ge [of x "mgVersions db" 0] by (simp add: SchemaVersion_def)
  show "x \<le> SchemaVersion db'" if "x \<in> set (mgVersions db')" for x
    using that by (simp add: SchemaVersion_def foldl_max_ge)
  show "SchemaVersion db' = SchemaVersion db \<or> SchemaVersion db' \<in> set (mgVersions db')"
    using foldl_max_in [of 0 "mgVersions db'"] \<open>SchemaVersion db \<le> SchemaVersion db'\<close>
    by (auto simp: SchemaVersion_def)
qed (use assms(1) in simp_all)

lemma migrate_resumes_witness:
  "migrate [\<lparr>mVersion = 1, mRun = Some (\<lambda>d. Inr (d + 1))\<rparr>, \<lparr>mVersion = 2, mRun = Some (\<lambda>d. Inl ''locked'')\<rparr>]
     \<lparr>mgVersions = [1], mgData = 1 :: nat\<rparr>
   = (Some (2, ''locked''), \<lparr>mgVersions = [1], mgData = 1\<rparr>)"
proof -
  let ?ms = "[\<lparr>mVersion = 1, mRun = Some (\<lambda>d. Inr (d + 1))\<rparr>, \<lparr>mVersion = 2, mRun = Some (\<lambda>d. Inl ''locked'')\<rparr>]
    :: nat migration list"
  have "migrate ?ms \<lparr>mgVersions = [], mgData = 0\<rparr> = (Some (2, ''locked''), \<lparr>mgVersions = [1], mgData = 1\<rparr>)"
    by (simp add: migrate_def SchemaVersion_def run_migration_def)
  from migrate_resumes [OF _ this] show ?thesis by simp
qed

text \<open>A WebAuthn ceremony is consumed by reading it: the same session id is not found again.\<close>

lemma webauthn_session_single_use:
  "case GetAndDeleteWebAuthnSession k s of
     (Inl e, s') \<Rightarrow> e = ErrNotFound \<and> s' = s
   | (Inr ws, s') \<Rightarrow> wsSessionID ws = k \<and> ws \<in> set (wa_sessions s)
       \<and> GetAndDeleteWebAuthnSession k s' = (Inl ErrNotFound, s')"
  by (auto simp: GetAndDeleteWebAuthnSession_def find_None_iff split: option.splits dest: find_SomeD)

end
