(* ===== verification/Channels.thy ===== *)
theory Channels
  imports Prelude
begin

text \<open>
  Buffered Go channels written with a \<open>select\<close> that has a \<open>default\<close> branch: a value is
  dropped when the buffer is full. The AMI client, its manager and the event broker all deliver
  through such channels. The locale states what a bounded FIFO buffer promises; the list buffer of
  a given capacity provides it.
\<close>

definition try_send :: "nat \<Rightarrow> 'a \<Rightarrow> 'a list \<Rightarrow> 'a list" where
  "try_send cap x q = (if length q < cap then q @ [x] else q)"

definition recv :: "'a list \<Rightarrow> ('a \<times> 'a list) option" where
  "recv q = (case q of [] \<Rightarrow> None | x # q' \<Rightarrow> Some (x, q'))"

locale dropping_channel =
  fixes send :: "'a \<Rightarrow> 'q \<Rightarrow> 'q" and receive :: "'q \<Rightarrow> ('a \<times> 'q) option" and contents :: "'q \<Rightarrow> 'a list"
    and cap :: nat
  assumes send_contents: "length (contents q) \<le> cap \<Longrightarrow>
      contents (send x q) = (if length (contents q) < cap then contents q @ [x] else contents q)"
    and receive_empty: "receive q = None \<longleftrightarrow> contents q = []"
    and receive_rest: "receive q = Some (x, q') \<Longrightarrow> contents q = x # contents q'"
begin

lemma send_bounded: "length (contents q) \<le> cap \<Longrightarrow> length (contents (send x q)) \<le> cap"
  by (simp add: send_contents)

lemma sends_bounded: "length (contents q) \<le> cap \<Longrightarrow> length (contents (fold send xs q)) \<le> cap"
  by (induction xs arbitrary: q) (simp_all add: send_bounded)

text \<open>What arrives is a subsequence of what was sent, in its order, after what was there.\<close>

lemma sends_subseq:
  assumes "length (contents q) \<le> cap"
  shows "\<exists>ys. contents (fold send xs q) = contents q @ ys \<and> subseq ys xs"
  using assms
proof (induction xs arbitrary: q)
  case (Cons x xs)
  from Cons.IH [OF send_bounded [OF Cons.prems, of x]] obtain ys
    where ys: "contents (fold send xs (send x q)) = contents (send x q) @ ys" "subseq ys xs" by blast
  show ?case
  proof (cases "length (contents q) < cap")
    case True
    with ys Cons.prems show ?thesis
      by (intro exI [where x = "x # ys"]) (simp add: send_contents)
  next
    case False
    with ys Cons.prems show ?thesis
      by (intro exI [where x = ys]) (simp add: send_contents list_emb_Cons)
  qed
qed simp

text \<open>Nothing is lost while the buffer has room.\<close>

lemma sends_all:
  assumes "length (contents q) + length xs \<le> cap"
  shows "contents (fold send xs q) = contents q @ xs"
  using assms
proof (induction xs arbitrary: q)
  case (Cons x xs)
  then have "contents (send x q) = contents q @ [x]" by (simp add: send_contents)
  with Cons.IH [of "send x q"] Cons.prems show ?case by simp
qed simp

end

interpretation list_channel: dropping_channel "try_send cap" recv "\<lambda>q. q" cap for cap
  by unfold_locales (auto simp: try_send_def recv_def split: list.splits)

lemma length_try_send: "length q \<le> cap \<Longrightarrow> length (try_send cap x q) \<le> cap"
  by (rule list_channel.send_bounded)

lemma set_try_send: "set (try_send cap x q) \<subseteq> insert x (set q)"
  by (auto simp: try_send_def)

end
