(* ===== verification/Ami_Client.thy ===== *)
theory Ami_Client
  imports Channels Db_Tables
begin

text \<open>
  \<open>internal/ami/client.go\<close>: the AMI wire format (blocks of \<open>Key: Value\<close> lines ended by a
  blank line), the read loop with the routing of responses to waiting callers, the login, the
  reconnect loop and the connection test. A header map is an association list in the order of its
  iteration; the socket is the list of lines \<open>ReadString\<close> returns.
\<close>

type_synonym headers = "(string \<times> string) list"

text \<open>A Go map read: the empty string for a missing key.\<close>

definition hget :: "string \<Rightarrow> headers \<Rightarrow> string" where
  "hget k h = (case map_of h k of None \<Rightarrow> [] | Some v \<Rightarrow> v)"

definition IsResponse :: "headers \<Rightarrow> bool" where
  "IsResponse h = (map_of h ''Response'' \<noteq> None)"

section \<open>Writing an action\<close>

definition header_line :: "string \<times> string \<Rightarrow> string" where
  "header_line kv = fst kv @ '': '' @ snd kv @ CRLF"

definition writeAction :: "headers \<Rightarrow> string" where
  "writeAction h =
     (case map_of h ''Action'' of None \<Rightarrow> [] | Some v \<Rightarrow> header_line (''Action'', v)) @
     concat (map header_line (filter (\<lambda>kv. fst kv \<noteq> ''Action'') h)) @ CRLF"

section \<open>Reading blocks\<close>

text \<open>\<open>headers["Output"]\<close> collects several lines.\<close>

definition add_output :: "string \<Rightarrow> headers \<Rightarrow> headers" where
  "add_output v h = kv_upsert ''Output'' (if hget ''Output'' h \<noteq> [] then hget ''Output'' h @ [LF] @ v else v) h"

text \<open>A non-blank line of a block.\<close>

definition header_step :: "string \<Rightarrow> headers \<Rightarrow> headers" where
  "header_step line h =
     (case Index line '': '' of
        Some (Suc i) \<Rightarrow>
          (let key = take (Suc i) line; val = drop (Suc i + 2) line
           in if key = ''Output'' then add_output val h else kv_upsert key val h)
      | _ \<Rightarrow> if h \<noteq> [] \<and> line \<noteq> ''--END COMMAND--'' then add_output line h else h)"

section \<open>The client\<close>

text \<open>
  \<open>clPending\<close> has for each action in flight the caller's channel, whose buffer holds one
  event; \<open>clEvents\<close> is the buffered event channel.
\<close>

record client =
  clConn :: bool
  clConnected :: bool
  clPending :: "(string \<times> headers list) list"
  clEvents :: "headers list"

definition NewClient :: client where
  "NewClient = \<lparr>clConn = False, clConnected = False, clPending = [], clEvents = []\<rparr>"

definition events_cap :: nat where "events_cap = 128"

datatype ami_error = AuthFailed string | ReadError | WriteError | NotConnected | AmiError string | Timeout | DialError

text \<open>A complete block: to the caller waiting for it, or to the login and the event channel.\<close>

definition dispatch :: "headers \<Rightarrow> client \<Rightarrow> ami_error option \<times> client" where
  "dispatch evt c =
     (let actionID = hget ''ActionID'' evt in
      case (if actionID \<noteq> [] then map_of (clPending c) actionID else None) of
        Some ch \<Rightarrow> (None, c\<lparr>clPending := kv_upsert actionID (try_send 1 evt ch) (clPending c)\<rparr>)
      | None \<Rightarrow>
          if IsResponse evt \<and> hget ''Response'' evt = ''Error''
          then (Some (AuthFailed (hget ''Message'' evt)), c)
          else let c1 = (if IsResponse evt \<and> hget ''Response'' evt = ''Success''
                            \<and> hget ''Message'' evt = ''Authentication accepted''
                         then c\<lparr>clConnected := True\<rparr> else c)
               in (None, c1\<lparr>clEvents := try_send events_cap evt (clEvents c1)\<rparr>))"

text \<open>
  One turn of the read loop finds the client stopped, or a line, or a read error; the list holds
  what the turns find. The loop still waits for input when the list is used up (\<open>None\<close>).
\<close>

datatype loop_input = Quit | RawLine string | ReadFailed

fun readLoop :: "loop_input list \<Rightarrow> headers \<Rightarrow> client \<Rightarrow> (ami_error option) option \<times> headers \<times> client" where
  "readLoop [] h c = (None, h, c)"
| "readLoop (Quit # ins) h c = (Some None, h, c)"
| "readLoop (ReadFailed # ins) h c = (Some (Some ReadError), h, c)"
| "readLoop (RawLine raw # ins) h c =
     (let line = TrimRight raw [CR, LF] in
      if line = [] then
        if h = [] then readLoop ins h c
        else (case dispatch h c of
            (Some e, c') \<Rightarrow> (Some (Some e), [], c')
          | (None, c') \<Rightarrow> readLoop ins [] c')
      else readLoop ins (header_step line h) c)"

section \<open>Connecting\<close>

definition login_action :: "string \<Rightarrow> string \<Rightarrow> string \<Rightarrow> headers" where
  "login_action actionID user pass =
     [(''Action'', ''Login''), (''ActionID'', actionID), (''Username'', user), (''Secret'', pass)]"

text \<open>
  \<open>connect\<close>: the bytes written and how the session ended. \<open>dialed\<close> and \<open>written\<close> say
  whether dialling and writing the login succeed; the first input is the banner.
\<close>

definition connect :: "bool \<Rightarrow> bool \<Rightarrow> string \<Rightarrow> string \<Rightarrow> loop_input list \<Rightarrow> client
    \<Rightarrow> string \<times> (ami_error option) option \<times> client" where
  "connect dialed written user pass ins c =
     (if \<not> dialed then ([], Some (Some DialError), c)
      else let closed = (\<lambda>c. c\<lparr>clConnected := False, clConn := False\<rparr>); c0 = c\<lparr>clConn := True\<rparr> in
        case ins of
          RawLine banner # rest \<Rightarrow>
            if \<not> written then ([], Some (Some WriteError), closed c0)
            else (case readLoop rest [] c0 of
                (None, h, c') \<Rightarrow> (writeAction (login_action ''auth-1'' user pass), None, c')
              | (Some r, h, c') \<Rightarrow> (writeAction (login_action ''auth-1'' user pass), Some r, closed c'))
        | [] \<Rightarrow> ([], None, c0)
        | _ \<Rightarrow> ([], Some (Some ReadError), closed c0))"

text \<open>
  The reconnect loop: the waits in seconds between the attempts, given how each attempt ends
  (\<open>True\<close>: with an error). The loop returns when it finds the client stopped.
\<close>

fun reconnect_waits :: "nat \<Rightarrow> bool list \<Rightarrow> nat list" where
  "reconnect_waits backoff [] = []"
| "reconnect_waits backoff (failed # rs) =
     (if failed then backoff # reconnect_waits (if backoff < 60 then backoff * 2 else backoff) rs
      else reconnect_waits 1 rs)"

text \<open>
  \<open>dialAMI\<close>: the host that is dialled. \<open>resolve\<close> is the mDNS lookup and \<open>lookup\<close> the
  system resolver.
\<close>

definition dial_host :: "(string \<Rightarrow> bool) \<Rightarrow> (string \<Rightarrow> string option) \<Rightarrow> (string \<Rightarrow> string list option)
    \<Rightarrow> string \<Rightarrow> string option" where
  "dial_host isLocal resolve lookup host =
     (if isLocal host then
        (case resolve host of
           Some ip \<Rightarrow> Some ip
         | None \<Rightarrow> (case lookup host of
               None \<Rightarrow> None | Some [] \<Rightarrow> None | Some (a # as) \<Rightarrow> Some a))
      else Some host)"

section \<open>Actions\<close>

definition SendAction :: "headers \<Rightarrow> client \<Rightarrow> ami_error + string" where
  "SendAction h c = (if clConn c then Inr (writeAction h) else Inl NotConnected)"

text \<open>
  \<open>SendActionWait\<close> in its three atomic parts: registering the caller's channel and writing,
  taking the event from it, and the deferred removal of the entry.
\<close>

definition wait_register :: "string \<Rightarrow> client \<Rightarrow> client" where
  "wait_register actionID c =
     (if clConn c then c\<lparr>clPending := kv_upsert actionID [] (clPending c)\<rparr> else c)"

definition wait_take :: "string \<Rightarrow> client \<Rightarrow> (ami_error + headers) option" where
  "wait_take actionID c =
     (case map_of (clPending c) actionID of
        Some (evt # _) \<Rightarrow> Some (if hget ''Response'' evt = ''Error'' then Inl (AmiError (hget ''Message'' evt)) else Inr evt)
      | _ \<Rightarrow> None)"

definition wait_remove :: "string \<Rightarrow> client \<Rightarrow> client" where
  "wait_remove actionID c = c\<lparr>clPending := filter (\<lambda>e. fst e \<noteq> actionID) (clPending c)\<rparr>"

section \<open>Testing a connection\<close>

datatype test_result = TestOk | TestFailed string | TestReadError | TestWaiting

fun test_read :: "loop_input list \<Rightarrow> headers \<Rightarrow> test_result" where
  "test_read [] h = TestWaiting"
| "test_read (RawLine raw # ins) h =
     (let line = TrimRight raw [CR, LF] in
      if line = [] then
        if h = [] then test_read ins h
        else if hget ''Response'' h = ''Success'' then TestOk
        else TestFailed (if hget ''Message'' h = [] then ''authentication failed'' else hget ''Message'' h)
      else (case Index line '': '' of
          Some (Suc i) \<Rightarrow> test_read ins (kv_upsert (take (Suc i) line) (drop (Suc i + 2) line) h)
        | _ \<Rightarrow> test_read ins h))"
| "test_read (_ # ins) h = TestReadError"

end
