(* ===== verification/Ami_Manager.thy ===== *)
theory Ami_Manager
  imports Ami_Client
begin

text \<open>
  \<open>internal/ami/manager.go\<close>: one AMI client per enabled node and the fan-out of its events. A
  client is a handle, its number in the order of creation; \<open>mgStopped\<close> are the handles whose \<open>Stop\<close> has been called, and a
  client that was started and not stopped keeps its connection loop running.
\<close>

record ami_conf =
  acNodeID :: int
  acName :: string
  acNodeNumber :: string
  acHost :: string
  acPort :: int
  acUser :: string
  acPass :: string

type_synonym node_event = "int \<times> headers"

record manager =
  mgClients :: "(int \<times> nat) list"
  mgHandles :: "ami_conf list"
  mgStopped :: "nat list"
  mgSubscribers :: "node_event list list"

definition NewManager :: manager where
  "NewManager = \<lparr>mgClients = [], mgHandles = [], mgStopped = [], mgSubscribers = []\<rparr>"

definition stop_client :: "int \<Rightarrow> manager \<Rightarrow> manager" where
  "stop_client nodeID m =
     (case map_of (mgClients m) nodeID of
        None \<Rightarrow> m
      | Some h \<Rightarrow> m\<lparr>mgStopped := h # mgStopped m, mgClients := kv_delete nodeID (mgClients m)\<rparr>)"

definition conf_of :: "node \<Rightarrow> ami_conf" where
  "conf_of n = \<lparr>acNodeID = nID n, acName = nName n, acNodeNumber = nNodeNumber n,
     acHost = (if nAMIHost n = [] then ''localhost'' else nAMIHost n),
     acPort = (if nAMIPort n = 0 then 5038 else nAMIPort n), acUser = nAMIUser n, acPass = nAMIPass n\<rparr>"

definition Add :: "node \<Rightarrow> manager \<Rightarrow> manager" where
  "Add n m =
     (let m1 = stop_client (nID n) m in
      if \<not> nEnabled n then m1
      else let h = length (mgHandles m1)
           in m1\<lparr>mgHandles := mgHandles m1 @ [conf_of n], mgClients := (nID n, h) # mgClients m1\<rparr>)"

definition LoadNodes :: "node list \<Rightarrow> manager \<Rightarrow> manager" where
  "LoadNodes ns m = fold (\<lambda>n m. if nEnabled n then Add n m else m) ns m"

definition Remove :: "int \<Rightarrow> manager \<Rightarrow> manager" where
  "Remove nodeID m = stop_client nodeID m"

text \<open>\<open>connected\<close> and \<open>cl\<close> give the state of a client by its handle.\<close>

definition IsConnected :: "(nat \<Rightarrow> bool) \<Rightarrow> int \<Rightarrow> manager \<Rightarrow> bool" where
  "IsConnected connected nodeID m =
     (case map_of (mgClients m) nodeID of None \<Rightarrow> False | Some h \<Rightarrow> connected h)"

definition MgrSendAction :: "(nat \<Rightarrow> client) \<Rightarrow> int \<Rightarrow> headers \<Rightarrow> manager \<Rightarrow> (ami_error + string) option" where
  "MgrSendAction cl nodeID h m =
     (case map_of (mgClients m) nodeID of None \<Rightarrow> None | Some i \<Rightarrow> Some (SendAction h (cl i)))"

definition subscriber_cap :: nat where "subscriber_cap = 256"

definition Subscribe :: "manager \<Rightarrow> nat \<times> manager" where
  "Subscribe m = (length (mgSubscribers m), m\<lparr>mgSubscribers := mgSubscribers m @ [[]]\<rparr>)"

definition publish :: "int \<Rightarrow> headers \<Rightarrow> manager \<Rightarrow> manager" where
  "publish nodeID evt m =
     m\<lparr>mgSubscribers := map (try_send subscriber_cap (nodeID, evt)) (mgSubscribers m)\<rparr>"

definition Shutdown :: "manager \<Rightarrow> manager" where
  "Shutdown m = m\<lparr>mgStopped := map snd (mgClients m) @ mgStopped m, mgClients := []\<rparr>"

section \<open>The clients that run\<close>

definition running :: "manager \<Rightarrow> nat list" where
  "running m = filter (\<lambda>h. h \<notin> set (mgStopped m)) [0..<length (mgHandles m)]"

definition manager_inv :: "manager \<Rightarrow> bool" where
  "manager_inv m \<longleftrightarrow> distinct (map fst (mgClients m)) \<and> distinct (map snd (mgClients m))
     \<and> set (mgStopped m) \<subseteq> {0..<length (mgHandles m)}
     \<and> set (running m) = snd ` set (mgClients m)
     \<and> (\<forall>e \<in> set (mgClients m). acNodeID (mgHandles m ! snd e) = fst e)"

lemma manager_invD:
  assumes "manager_inv m"
  shows "distinct (map fst (mgClients m))" "distinct (map snd (mgClients m))"
    "h \<in> set (mgStopped m) \<Longrightarrow> h < length (mgHandles m)" "h \<in> set (running m) \<Longrightarrow> h < length (mgHandles m)"
    "set (running m) = snd ` set (mgClients m)" "e \<in> set (mgClients m) \<Longrightarrow> acNodeID (mgHandles m ! snd e) = fst e"
    "e \<in> set (mgClients m) \<Longrightarrow> snd e < length (mgHandles m)"
proof -
  show "h \<in> set (running m) \<Longrightarrow> h < length (mgHandles m)" for h by (simp add: running_def)
  with assms show "e \<in> set (mgClients m) \<Longrightarrow> snd e < length (mgHandles m)" by (simp add: manager_inv_def)
qed (use assms in \<open>auto simp: manager_inv_def\<close>)

lemma running_stop: "running (m\<lparr>mgStopped := h # mgStopped m, mgClients := cs\<rparr>) = filter (\<lambda>x. x \<noteq> h) (running m)"
  by (simp add: running_def) (rule filter_cong, auto)

lemma set_kv_delete:
  assumes "distinct (map fst m)" and "map_of m k = Some v"
  shows "set (kv_delete k m) = set m - {(k, v)}"
proof -
  have "(fst e \<noteq> k) = (e \<noteq> (k, v))" if "e \<in> set m" for e
    using distinct_map_eqD [OF assms(1) that map_of_SomeD [OF assms(2)]] by auto
  then show ?thesis unfolding kv_delete_def set_filter by blast
qed

lemma stop_client_inv:
  assumes "manager_inv m"
  shows "manager_inv (stop_client i m)" "map_of (mgClients (stop_client i m)) i = None"
    "mgHandles (stop_client i m) = mgHandles m"
proof -
  show "map_of (mgClients (stop_client i m)) i = None" "mgHandles (stop_client i m) = mgHandles m"
    by (simp_all add: stop_client_def map_of_kv_delete split: option.splits)
  show "manager_inv (stop_client i m)"
  proof (cases "map_of (mgClients m) i")
    case (Some h)
    let ?m = "m\<lparr>mgStopped := h # mgStopped m, mgClients := kv_delete i (mgClients m)\<rparr>"
    note inv = manager_invD [OF assms]
    have in_m: "(i, h) \<in> set (mgClients m)" using Some by (rule map_of_SomeD)
    have sub: "set (kv_delete i (mgClients m)) = set (mgClients m) - {(i, h)}"
      by (rule set_kv_delete [OF inv(1) Some])
    have "snd ` (set (mgClients m) - {(i, h)}) = snd ` set (mgClients m) - {h}"
      using inj_on_image_set_diff [of snd "set (mgClients m)" "set (mgClients m)" "{(i, h)}"] inv(2) in_m
      by (simp add: distinct_map)
    moreover have "distinct (map fst (kv_delete i (mgClients m)))" "distinct (map snd (kv_delete i (mgClients m)))"
      using inv(1,2) by (simp_all add: kv_delete_def distinct_map_filter)
    moreover have "set (running ?m) = set (running m) - {h}" by (auto simp: running_stop)
    ultimately have "manager_inv ?m"
      using inv(3,5,6) inv(7) [OF in_m] sub by (auto simp: manager_inv_def)
    with Some show ?thesis by (simp add: stop_client_def)
  qed (use assms in \<open>simp add: stop_client_def\<close>)
qed

lemma Add_enabled:
  assumes "manager_inv m" and "nEnabled n"
  shows "running (Add n m) = running (stop_client (nID n) m) @ [length (mgHandles m)]"
    "mgHandles (Add n m) = mgHandles m @ [conf_of n]"
    "mgClients (Add n m) = (nID n, length (mgHandles m)) # mgClients (stop_client (nID n) m)"
    "mgStopped (Add n m) = mgStopped (stop_client (nID n) m)"
proof -
  note s = stop_client_inv [OF assms(1), of "nID n"]
  have "length (mgHandles m) \<notin> set (mgStopped (stop_client (nID n) m))"
    using manager_invD(3) [OF s(1)] s(3) by auto
  then show "running (Add n m) = running (stop_client (nID n) m) @ [length (mgHandles m)]"
    using assms(2) s(3) by (simp add: Add_def Let_def running_def)
qed (use assms(2) stop_client_inv(3) [OF assms(1), of "nID n"] in \<open>simp_all add: Add_def Let_def\<close>)

lemma Add_inv:
  assumes "manager_inv m"
  shows "manager_inv (Add n m)"
proof (cases "nEnabled n")
  case True
  let ?m = "stop_client (nID n) m"
  note s = stop_client_inv [OF assms, of "nID n"] and inv = manager_invD [OF stop_client_inv(1) [OF assms, of "nID n"]]
  have "nID n \<notin> fst ` set (mgClients ?m)" using s(2) by (simp add: map_of_eq_None_iff)
  moreover have "length (mgHandles m) \<notin> snd ` set (mgClients ?m)"
    using inv(7) s(3) by fastforce
  moreover have "acNodeID ((mgHandles m @ [conf_of n]) ! snd e) = fst e" if "e \<in> set (mgClients ?m)" for e
    using inv(6,7) [OF that] s(3) by (simp add: nth_append)
  moreover have "acNodeID (conf_of n) = nID n" by (simp add: conf_of_def)
  moreover have "h < Suc (length (mgHandles m))" if "h \<in> set (mgStopped ?m)" for h
    using inv(3) [OF that] s(3) by simp
  ultimately show ?thesis
    using inv(1,2,5) by (auto simp: manager_inv_def Add_enabled [OF assms True])
next
  case False
  with stop_client_inv(1) [OF assms] show ?thesis by (simp add: Add_def Let_def)
qed

lemma Shutdown_inv:
  assumes "manager_inv m"
  shows "manager_inv (Shutdown m) \<and> running (Shutdown m) = []"
proof -
  note inv = manager_invD [OF assms]
  have "running (Shutdown m) = filter (\<lambda>h. h \<notin> snd ` set (mgClients m)) (running m)"
    by (simp add: running_def Shutdown_def) (rule filter_cong, auto)
  also have "\<dots> = []" using inv(5) by (auto simp: filter_empty_conv)
  finally have "running (Shutdown m) = []" .
  moreover have "h < length (mgHandles m)" if "h \<in> snd ` set (mgClients m)" for h
    using inv(4) [of h] inv(5) that by simp
  then have "\<forall>e \<in> set (mgClients m). snd e < length (mgHandles m)" by blast
  ultimately show ?thesis
    using inv(3) by (fastforce simp: manager_inv_def Shutdown_def)
qed

lemma LoadNodes_inv: "manager_inv m \<Longrightarrow> manager_inv (LoadNodes ns m)"
  unfolding LoadNodes_def by (induction ns arbitrary: m) (simp_all add: Add_inv)

text \<open>What a caller can do with a manager, in any order.\<close>

inductive manager_reach :: "manager \<Rightarrow> bool" where
  new: "manager_reach NewManager"
| load: "manager_reach m \<Longrightarrow> manager_reach (LoadNodes ns m)"
| add: "manager_reach m \<Longrightarrow> manager_reach (Add n m)"
| remove: "manager_reach m \<Longrightarrow> manager_reach (Remove i m)"
| subscribe: "manager_reach m \<Longrightarrow> manager_reach (snd (Subscribe m))"
| publish: "manager_reach m \<Longrightarrow> manager_reach (publish i evt m)"
| shutdown: "manager_reach m \<Longrightarrow> manager_reach (Shutdown m)"

lemma manager_reach_inv: "manager_reach m \<Longrightarrow> manager_inv m"
proof (induction rule: manager_reach.induct)
  case new
  show ?case by (simp add: manager_inv_def NewManager_def running_def)
next
  case (subscribe m)
  then show ?case by (simp add: Subscribe_def manager_inv_def running_def)
next
  case (publish m i evt)
  then show ?case by (simp add: publish_def manager_inv_def running_def)
qed (simp_all add: LoadNodes_inv Add_inv Remove_def stop_client_inv Shutdown_inv)

section \<open>Properties\<close>

text \<open>At any time the clients that run are those of the manager's map, at most one for a node,
  each with its node's id: restarting, disabling or removing a node stops its client, and after a
  shutdown none runs.\<close>

lemma running_clients:
  assumes "manager_reach m"
  shows "distinct (map (\<lambda>h. acNodeID (mgHandles m ! h)) (running m))
    \<and> set (running m) = snd ` set (mgClients m) \<and> running (Shutdown m) = []"
proof -
  note inv = manager_invD [OF manager_reach_inv [OF assms]]
  have "inj_on (\<lambda>h. acNodeID (mgHandles m ! h)) (set (running m))"
    unfolding inv(5)
  proof (rule inj_onI, elim imageE)
    fix h h' e e' assume "acNodeID (mgHandles m ! h) = acNodeID (mgHandles m ! h')"
      and "h = snd e" "e \<in> set (mgClients m)" "h' = snd e'" "e' \<in> set (mgClients m)"
    with inv(6) distinct_map_eqD [OF inv(1), of e e'] show "h = h'" by auto
  qed
  moreover have "distinct (running m)" by (simp add: running_def)
  ultimately show ?thesis
    using inv(5) Shutdown_inv [OF manager_reach_inv [OF assms]] by (simp add: distinct_map)
qed

lemma running_clients_witness:
  "running (Shutdown (Add \<lparr>nID = 1, nName = ''hub'', nNodeNumber = ''2000'', nAMIHost = [], nAMIPort = 0,
     nAMIUser = ''admin'', nAMIPass = [], nEnabled = True, nDescription = [], nLocation = []\<rparr> NewManager)) = []"
  using running_clients [OF manager_reach.add [OF manager_reach.new]] by blast

text \<open>adding an enabled node starts a client with the node's settings, \<open>localhost\<close> and port
  5038 where it has none, in place of the client the node had; a disabled one has no client
  afterwards.\<close>

lemma Add_starts_client:
  assumes "manager_reach m"
  shows "case map_of (mgClients (Add n m)) (nID n) of
      None \<Rightarrow> \<not> nEnabled n
    | Some h \<Rightarrow> nEnabled n \<and> mgHandles (Add n m) ! h = conf_of n \<and> h \<notin> set (running m)
        \<and> h \<in> set (running (Add n m))"
proof (cases "nEnabled n")
  case True
  note inv = manager_reach_inv [OF assms]
  show ?thesis
    using True manager_invD(4) [OF inv, of "length (mgHandles m)"] by (auto simp: Add_enabled [OF inv True])
next
  case False
  with stop_client_inv(2) [OF manager_reach_inv [OF assms]] show ?thesis by (simp add: Add_def Let_def)
qed

lemma Add_starts_client_witness:
  "map_of (mgClients (Add \<lparr>nID = 1, nName = ''hub'', nNodeNumber = ''2000'', nAMIHost = [], nAMIPort = 0,
     nAMIUser = ''admin'', nAMIPass = [], nEnabled = True, nDescription = [], nLocation = []\<rparr> NewManager)) 1 \<noteq> None"
  using Add_starts_client [OF manager_reach.new, of "\<lparr>nID = 1, nName = ''hub'', nNodeNumber = ''2000'',
     nAMIHost = [], nAMIPort = 0, nAMIUser = ''admin'', nAMIPass = [], nEnabled = True, nDescription = [], nLocation = []\<rparr>"]
  by (auto split: option.splits)

end
