(* ===== verification/Sse_Broker.thy ===== *)
theory Sse_Broker
  imports Channels Go_Strings
begin

text \<open>
  \<open>internal/sse/broker.go\<close>: the event broker. Channels are numbered in the order they are made.
  A publisher takes the subscriber map under the lock and iterates over it after releasing it, so
  that picking a channel and sending to it are steps of their own, as are the two halves of a
  cancel, removing the channel and closing it.
\<close>

record broker =
  brTopics :: "(int \<times> nat list) list"
  brBufs :: "string list list"
  brClosed :: "nat list"
  brCancelling :: "nat list"
  brPicked :: "(string \<times> nat) list"
  brPanic :: bool

definition NewBroker :: broker where
  "NewBroker = \<lparr>brTopics = [], brBufs = [], brClosed = [], brCancelling = [], brPicked = [], brPanic = False\<rparr>"

definition channel_cap :: nat where "channel_cap = 16"

definition subs :: "int \<Rightarrow> broker \<Rightarrow> nat list" where
  "subs topicID b = (case map_of (brTopics b) topicID of None \<Rightarrow> [] | Some chs \<Rightarrow> chs)"

definition set_subs :: "int \<Rightarrow> nat list \<Rightarrow> broker \<Rightarrow> broker" where
  "set_subs topicID chs b = b\<lparr>brTopics := (if chs = [] then [] else [(topicID, chs)]) @
     filter (\<lambda>e. fst e \<noteq> topicID) (brTopics b)\<rparr>"

text \<open>\<open>Subscribe\<close> gives the new channel; the topic's entry is made when there is none.\<close>

definition SubscribeTopic :: "int \<Rightarrow> broker \<Rightarrow> nat \<times> broker" where
  "SubscribeTopic topicID b =
     (let ch = length (brBufs b)
      in (ch, set_subs topicID (subs topicID b @ [ch]) (b\<lparr>brBufs := brBufs b @ [[]]\<rparr>)))"

text \<open>The two halves of the cancel function; closing a closed channel panics.\<close>

definition cancel_remove :: "int \<Rightarrow> nat \<Rightarrow> broker \<Rightarrow> broker" where
  "cancel_remove topicID ch b =
     (set_subs topicID (filter (\<lambda>c. c \<noteq> ch) (subs topicID b)) b)\<lparr>brCancelling := ch # brCancelling b\<rparr>"

definition cancel_close :: "nat \<Rightarrow> broker \<Rightarrow> broker" where
  "cancel_close ch b =
     (if ch \<in> set (brClosed b) then b\<lparr>brPanic := True\<rparr>
      else b\<lparr>brClosed := ch # brClosed b, brCancelling := filter (\<lambda>c. c \<noteq> ch) (brCancelling b)\<rparr>)"

definition HasSubscribers :: "int \<Rightarrow> broker \<Rightarrow> bool" where
  "HasSubscribers topicID b = (0 < length (subs topicID b))"

text \<open>A non-blocking send; on a closed channel it panics.\<close>

definition send_to :: "string \<Rightarrow> nat \<Rightarrow> broker \<Rightarrow> broker" where
  "send_to d ch b =
     (if ch \<in> set (brClosed b) then b\<lparr>brPanic := True\<rparr>
      else b\<lparr>brBufs := (brBufs b)[ch := try_send channel_cap d (brBufs b ! ch)]\<rparr>)"

text \<open>\<open>Publish\<close> when no other goroutine runs in between.\<close>

definition Publish :: "int \<Rightarrow> string \<Rightarrow> broker \<Rightarrow> broker" where
  "Publish topicID d b = fold (send_to d) (subs topicID b) b"

section \<open>Interleavings\<close>

datatype baction =
    ASubscribe int
  | ARemove int nat
  | AClose nat
  | APick int nat string
  | ASend string nat
  | AReceive nat

text \<open>One atomic step; \<open>None\<close> when the action is not possible. A channel is cancelled once.\<close>

definition bstep :: "baction \<Rightarrow> broker \<Rightarrow> broker option" where
  "bstep a b =
     (case a of
        ASubscribe t \<Rightarrow> Some (snd (SubscribeTopic t b))
      | ARemove t ch \<Rightarrow> if ch \<in> set (subs t b) then Some (cancel_remove t ch b) else None
      | AClose ch \<Rightarrow> if ch \<in> set (brCancelling b) then Some (cancel_close ch b) else None
      | APick t ch d \<Rightarrow> if ch \<in> set (subs t b) then Some (b\<lparr>brPicked := (d, ch) # brPicked b\<rparr>) else None
      | ASend d ch \<Rightarrow> if (d, ch) \<in> set (brPicked b)
                      then Some ((send_to d ch b)\<lparr>brPicked := remove1 (d, ch) (brPicked b)\<rparr>) else None
      | AReceive ch \<Rightarrow> if ch < length (brBufs b) \<and> brBufs b ! ch \<noteq> []
                       then Some (b\<lparr>brBufs := (brBufs b)[ch := tl (brBufs b ! ch)]\<rparr>) else None)"

fun brun :: "baction list \<Rightarrow> broker \<Rightarrow> broker option" where
  "brun [] b = Some b"
| "brun (a # as) b = (case bstep a b of None \<Rightarrow> None | Some b' \<Rightarrow> brun as b')"

section \<open>The stream to a client\<close>

definition sse_frame :: "string \<Rightarrow> string" where
  "sse_frame d = ''data: '' @ d @ [LF, LF]"

datatype stream_input = SData string | SClosed | SHeartbeat | SDone

fun stream_loop :: "stream_input list \<Rightarrow> string" where
  "stream_loop [] = []"
| "stream_loop (SData d # ins) = sse_frame d @ stream_loop ins"
| "stream_loop (SHeartbeat # ins) = '': heartbeat'' @ [LF, LF] @ stream_loop ins"
| "stream_loop (_ # ins) = []"

text \<open>What \<open>StreamFrom\<close> writes; without a flusher the request is refused.\<close>

definition StreamFrom :: "bool \<Rightarrow> string list \<Rightarrow> stream_input list \<Rightarrow> (nat \<times> string) + string" where
  "StreamFrom flusher initial ins =
     (if \<not> flusher then Inl (500, ''streaming not supported'')
      else Inr (concat (map sse_frame (filter (\<lambda>m. m \<noteq> []) initial)) @ stream_loop ins))"

text \<open>\<open>Stream\<close> subscribes, streams and cancels; \<open>others\<close> is what other goroutines do to the broker meanwhile.\<close>

definition Stream :: "bool \<Rightarrow> int \<Rightarrow> string list \<Rightarrow> stream_input list \<Rightarrow> (broker \<Rightarrow> broker) \<Rightarrow> broker
    \<Rightarrow> ((nat \<times> string) + string) \<times> broker" where
  "Stream flusher topicID initial ins others b =
     (let (ch, b1) = SubscribeTopic topicID b
      in (StreamFrom flusher initial ins, cancel_close ch (cancel_remove topicID ch (others b1))))"

section \<open>The invariant\<close>

definition broker_inv :: "broker \<Rightarrow> bool" where
  "broker_inv b \<longleftrightarrow> distinct (map fst (brTopics b))
     \<and> (\<forall>e \<in> set (brTopics b). snd e \<noteq> [] \<and> distinct (snd e))
     \<and> (\<forall>t. \<forall>ch \<in> set (subs t b). ch < length (brBufs b) \<and> ch \<notin> set (brClosed b) \<and> ch \<notin> set (brCancelling b))
     \<and> (\<forall>t t' ch. ch \<in> set (subs t b) \<longrightarrow> ch \<in> set (subs t' b) \<longrightarrow> t = t')
     \<and> (\<forall>ch \<in> set (brCancelling b). ch < length (brBufs b) \<and> ch \<notin> set (brClosed b))
     \<and> (\<forall>ch \<in> set (brClosed b). ch < length (brBufs b))
     \<and> (\<forall>q \<in> set (brBufs b). length q \<le> channel_cap)"

lemma map_of_without: "map_of (filter (\<lambda>e. fst e \<noteq> k) m) j = (if j = k then None else map_of m j)"
  by (induction m) auto

lemma subs_set_subs: "subs t (set_subs t' chs b) = (if t = t' then chs else subs t b)"
  by (auto simp: subs_def set_subs_def map_add_def map_of_without split: option.splits)

lemma set_subs_sel [simp]:
  "brBufs (set_subs t chs b) = brBufs b" "brClosed (set_subs t chs b) = brClosed b"
  "brCancelling (set_subs t chs b) = brCancelling b" "brPanic (set_subs t chs b) = brPanic b"
  "brPicked (set_subs t chs b) = brPicked b"
  by (simp_all add: set_subs_def)

lemma subs_update [simp]:
  "subs t (b\<lparr>brBufs := x\<rparr>) = subs t b" "subs t (b\<lparr>brClosed := y\<rparr>) = subs t b"
  "subs t (b\<lparr>brCancelling := z\<rparr>) = subs t b" "subs t (b\<lparr>brPicked := u\<rparr>) = subs t b"
  "subs t (b\<lparr>brPanic := v\<rparr>) = subs t b"
  by (simp_all add: subs_def)

lemma set_subs_topics:
  assumes "distinct (map fst (brTopics b))" and "\<forall>e \<in> set (brTopics b). snd e \<noteq> [] \<and> distinct (snd e)"
    and "distinct chs"
  shows "distinct (map fst (brTopics (set_subs t chs b)))"
    "\<forall>e \<in> set (brTopics (set_subs t chs b)). snd e \<noteq> [] \<and> distinct (snd e)"
  using assms by (auto simp: set_subs_def distinct_map_filter)

lemma subs_distinct: "broker_inv b \<Longrightarrow> distinct (subs t b)"
  by (auto simp: subs_def broker_inv_def split: option.splits dest!: map_of_SomeD)

lemma SubscribeTopic_inv:
  assumes "broker_inv b"
  shows "broker_inv (snd (SubscribeTopic t b))"
proof -
  let ?ch = "length (brBufs b)" and ?b = "b\<lparr>brBufs := brBufs b @ [[]]\<rparr>"
  have new: "?ch \<notin> set (subs t' b)" "?ch \<notin> set (brClosed b)" "?ch \<notin> set (brCancelling b)" for t'
    using assms by (auto simp: broker_inv_def)
  have dist: "distinct (subs t b @ [?ch])" using subs_distinct [OF assms] new by simp
  have topics: "distinct (map fst (brTopics (set_subs t (subs t b @ [?ch]) ?b)))"
    "\<forall>e \<in> set (brTopics (set_subs t (subs t b @ [?ch]) ?b)). snd e \<noteq> [] \<and> distinct (snd e)"
    using assms dist by (intro set_subs_topics; simp add: broker_inv_def)+
  have "snd (SubscribeTopic t b) = set_subs t (subs t b @ [?ch]) ?b"
    by (simp add: SubscribeTopic_def Let_def)
  with assms new topics show ?thesis
    unfolding broker_inv_def by (simp add: subs_set_subs) (auto simp: less_Suc_eq)
qed

lemma cancel_remove_inv:
  assumes "broker_inv b" and "ch \<in> set (subs t b)"
  shows "broker_inv (cancel_remove t ch b)"
proof -
  let ?chs = "filter (\<lambda>c. c \<noteq> ch) (subs t b)"
  have topics: "distinct (map fst (brTopics (set_subs t ?chs b)))"
    "\<forall>e \<in> set (brTopics (set_subs t ?chs b)). snd e \<noteq> [] \<and> distinct (snd e)"
    using assms(1) subs_distinct [OF assms(1), of t] by (intro set_subs_topics; simp add: broker_inv_def)+
  have own: "ch < length (brBufs b)" "ch \<notin> set (brClosed b)" "\<And>t'. ch \<in> set (subs t' b) \<Longrightarrow> t' = t"
    using assms by (auto simp: broker_inv_def)
  with assms(1) topics show ?thesis
    unfolding broker_inv_def cancel_remove_def by (simp add: subs_set_subs) blast
qed

lemma cancel_close_inv:
  assumes "broker_inv b" and "ch \<in> set (brCancelling b)"
  shows "broker_inv (cancel_close ch b)" "brPanic (cancel_close ch b) = brPanic b"
  using assms by (auto simp: broker_inv_def cancel_close_def)

lemma broker_inv_bufs:
  assumes "broker_inv b" and "length q \<le> channel_cap"
  shows "broker_inv (b\<lparr>brBufs := (brBufs b)[ch := q]\<rparr>)"
  using assms set_update_subset_insert [of "brBufs b" ch q] unfolding broker_inv_def by (simp, blast)

lemma buf_bounded: "broker_inv b \<Longrightarrow> ch < length (brBufs b) \<Longrightarrow> length (brBufs b ! ch) \<le> channel_cap"
  by (simp add: broker_inv_def)

lemma send_to_inv:
  assumes "broker_inv b" and "ch < length (brBufs b)"
  shows "broker_inv (send_to d ch b)"
proof -
  have "length (try_send channel_cap d (brBufs b ! ch)) \<le> channel_cap"
    by (rule length_try_send [OF buf_bounded [OF assms]])
  from broker_inv_bufs [OF assms(1) this] assms(1) show ?thesis
    by (simp add: send_to_def) (simp add: broker_inv_def)
qed

text \<open>What publishers have picked exists.\<close>

definition picked_ok :: "broker \<Rightarrow> bool" where
  "picked_ok b \<longleftrightarrow> snd ` set (brPicked b) \<subseteq> {..<length (brBufs b)}"

lemma send_to_sel [simp]:
  "length (brBufs (send_to d ch b)) = length (brBufs b)" "subs t (send_to d ch b) = subs t b"
  "brClosed (send_to d ch b) = brClosed b" "brPicked (send_to d ch b) = brPicked b"
  by (simp_all add: send_to_def)

lemma broker_inv_picked [simp]: "broker_inv (b\<lparr>brPicked := ps\<rparr>) = broker_inv b"
  by (simp add: broker_inv_def)

lemma bstep_inv:
  assumes "broker_inv b" and "picked_ok b" and "bstep a b = Some b'"
  shows "broker_inv b' \<and> picked_ok b'"
proof (cases a)
  case (ASubscribe t)
  with assms(3) have b': "b' = snd (SubscribeTopic t b)" by (simp add: bstep_def)
  have "length (brBufs b') = Suc (length (brBufs b))" "brPicked b' = brPicked b"
    by (simp_all add: b' SubscribeTopic_def Let_def)
  with assms(2) SubscribeTopic_inv [OF assms(1), of t] show ?thesis
    by (auto simp: b' picked_ok_def less_Suc_eq)
next
  case (ARemove t ch)
  with assms(3) have ch: "ch \<in> set (subs t b)" and b': "b' = cancel_remove t ch b"
    by (auto simp: bstep_def split: if_splits)
  have "brBufs b' = brBufs b" "brPicked b' = brPicked b" by (simp_all add: b' cancel_remove_def)
  with assms(2) cancel_remove_inv [OF assms(1) ch] show ?thesis by (simp add: b' picked_ok_def)
next
  case (AClose ch)
  with assms(3) have ch: "ch \<in> set (brCancelling b)" and b': "b' = cancel_close ch b"
    by (auto simp: bstep_def split: if_splits)
  have "brBufs b' = brBufs b" "brPicked b' = brPicked b" by (simp_all add: b' cancel_close_def)
  with assms(2) cancel_close_inv(1) [OF assms(1) ch] show ?thesis by (simp add: b' picked_ok_def)
next
  case (APick t ch d)
  with assms(3) have ch: "ch \<in> set (subs t b)" and b': "b' = b\<lparr>brPicked := (d, ch) # brPicked b\<rparr>"
    by (auto simp: bstep_def split: if_splits)
  from ch assms(1) have "ch < length (brBufs b)" by (auto simp: broker_inv_def)
  with assms(1,2) show ?thesis by (simp add: b' picked_ok_def)
next
  case (ASend d ch)
  with assms(3) have in_p: "(d, ch) \<in> set (brPicked b)"
    and b': "b' = (send_to d ch b)\<lparr>brPicked := remove1 (d, ch) (brPicked b)\<rparr>"
    by (auto simp: bstep_def split: if_splits)
  have "ch \<in> snd ` set (brPicked b)" using in_p by force
  then have "ch < length (brBufs b)" using assms(2) by (auto simp: picked_ok_def)
  from send_to_inv [OF assms(1) this, of d] show ?thesis
    using assms(2) set_remove1_subset [of "(d, ch)" "brPicked b"] by (fastforce simp: b' picked_ok_def)
next
  case (AReceive ch)
  with assms(3) have ch: "ch < length (brBufs b)" and b': "b' = b\<lparr>brBufs := (brBufs b)[ch := tl (brBufs b ! ch)]\<rparr>"
    by (auto simp: bstep_def split: if_splits)
  have "length (tl (brBufs b ! ch)) \<le> channel_cap" using buf_bounded [OF assms(1) ch] by simp
  from broker_inv_bufs [OF assms(1) this] b' assms(2) show ?thesis by (simp add: picked_ok_def)
qed

lemma brun_inv:
  "brun as b = Some b' \<Longrightarrow> broker_inv b \<Longrightarrow> picked_ok b \<Longrightarrow> broker_inv b' \<and> picked_ok b'"
  by (induction as arbitrary: b) (auto split: option.splits dest: bstep_inv)

lemma NewBroker_inv: "broker_inv NewBroker" "picked_ok NewBroker"
  by (simp_all add: broker_inv_def picked_ok_def NewBroker_def subs_def)

lemma bstep_panic:
  assumes "broker_inv b" and "bstep a b = Some b'" and "\<not> brPanic b" and "\<And>d ch. a \<noteq> ASend d ch"
  shows "\<not> brPanic b'"
  using assms cancel_close_inv(2) [OF assms(1)]
  by (auto simp: bstep_def SubscribeTopic_def Let_def cancel_remove_def split: baction.splits if_splits)

lemma brun_no_panic:
  assumes "brun as b = Some b'" and "broker_inv b" and "picked_ok b" and "\<not> brPanic b"
    and "\<forall>d ch. ASend d ch \<notin> set as"
  shows "\<not> brPanic b'"
  using assms
proof (induction as arbitrary: b)
  case (Cons a as)
  from Cons.prems(1) obtain b1 where step: "bstep a b = Some b1" and run: "brun as b1 = Some b'"
    by (auto split: option.splits)
  have "\<And>d ch. a \<noteq> ASend d ch" using Cons.prems(5) by auto
  with bstep_panic [OF Cons.prems(2) step Cons.prems(4)] bstep_inv [OF Cons.prems(2,3) step]
  show ?case using Cons.IH [OF run] Cons.prems(5) by simp
qed simp

section \<open>Publishing\<close>

lemma fold_send:
  assumes "set chs \<inter> set (brClosed b) = {}" and "distinct chs" and "\<forall>ch \<in> set chs. ch < length (brBufs b)"
  shows "brBufs (fold (send_to d) chs b) =
      map (\<lambda>ch. if ch \<in> set chs then try_send channel_cap d (brBufs b ! ch) else brBufs b ! ch) [0..<length (brBufs b)]"
    "brPanic (fold (send_to d) chs b) = brPanic b"
    "subs t (fold (send_to d) chs b) = subs t b" "brClosed (fold (send_to d) chs b) = brClosed b"
proof -
  have "brBufs (fold (send_to d) chs b) =
      map (\<lambda>ch. if ch \<in> set chs then try_send channel_cap d (brBufs b ! ch) else brBufs b ! ch) [0..<length (brBufs b)]
    \<and> brPanic (fold (send_to d) chs b) = brPanic b"
    using assms
  proof (induction chs arbitrary: b)
    case Nil
    show ?case by (simp add: map_nth)
  next
    case (Cons ch chs)
    have "set chs \<inter> set (brClosed (send_to d ch b)) = {}" using Cons.prems(1) by auto
    with Cons.IH [of "send_to d ch b"] Cons.prems show ?case
      by (auto simp: send_to_def nth_list_update intro!: map_cong)
  qed
  then show "brBufs (fold (send_to d) chs b) =
      map (\<lambda>ch. if ch \<in> set chs then try_send channel_cap d (brBufs b ! ch) else brBufs b ! ch) [0..<length (brBufs b)]"
    "brPanic (fold (send_to d) chs b) = brPanic b" by simp_all
  show "subs t (fold (send_to d) chs b) = subs t b" "brClosed (fold (send_to d) chs b) = brClosed b"
    by (induction chs arbitrary: b) simp_all
qed

lemma Publish_effect:
  assumes "broker_inv b"
  shows "brPanic (Publish t d b) = brPanic b" "subs t' (Publish t d b) = subs t' b"
    "brClosed (Publish t d b) = brClosed b"
    "ch \<in> set (subs t b) \<Longrightarrow> brBufs (Publish t d b) ! ch = try_send channel_cap d (brBufs b ! ch)"
    "ch < length (brBufs b) \<Longrightarrow> ch \<notin> set (subs t b) \<Longrightarrow> brBufs (Publish t d b) ! ch = brBufs b ! ch"
    "broker_inv (Publish t d b)"
proof -
  have ok: "set (subs t b) \<inter> set (brClosed b) = {}" "distinct (subs t b)"
    "\<forall>ch \<in> set (subs t b). ch < length (brBufs b)"
    using assms subs_distinct [OF assms] by (auto simp: broker_inv_def)
  note f = fold_send [OF ok]
  show "brPanic (Publish t d b) = brPanic b" "subs t' (Publish t d b) = subs t' b"
    "brClosed (Publish t d b) = brClosed b"
    by (simp_all add: Publish_def f)
  show "ch \<in> set (subs t b) \<Longrightarrow> brBufs (Publish t d b) ! ch = try_send channel_cap d (brBufs b ! ch)"
    "ch < length (brBufs b) \<Longrightarrow> ch \<notin> set (subs t b) \<Longrightarrow> brBufs (Publish t d b) ! ch = brBufs b ! ch"
    using ok(3) by (simp_all add: Publish_def f)
  have "broker_inv (fold (send_to d) chs c) " if "broker_inv c" "\<forall>ch \<in> set chs. ch < length (brBufs c)" for chs c
    using that by (induction chs arbitrary: c) (simp_all add: send_to_inv)
  from this [OF assms ok(3)] show "broker_inv (Publish t d b)" by (simp add: Publish_def)
qed

lemma Publish_all:
  assumes "broker_inv b" and "ch \<in> set (subs t b)"
  shows "brBufs (fold (Publish t) ds b) ! ch = fold (try_send channel_cap) ds (brBufs b ! ch)"
  using assms
proof (induction ds arbitrary: b)
  case (Cons d ds)
  note pub = Publish_effect [OF Cons.prems(1)]
  show ?case
    using Cons.IH [of "Publish t d b"] pub(4) [OF Cons.prems(2)] Cons.prems(2) by (simp add: pub(2,6))
qed simp

section \<open>Properties\<close>

text \<open>C14: however subscriptions, cancels and receives are interleaved, a publisher that runs between
  them reaches open channels only: nothing panics, each subscriber of the topic gets what its buffer
  has room for, in the order of publication, and no other channel gets anything.\<close>

theorem publish_delivers:
  assumes "brun actions NewBroker = Some b" and "\<forall>d ch. ASend d ch \<notin> set actions"
    and "ch < length (brBufs b)"
  shows "\<not> brPanic (fold (Publish topic) ds b)
    \<and> (ch \<in> set (subs topic b) \<longrightarrow>
         (\<exists>ys. brBufs (fold (Publish topic) ds b) ! ch = brBufs b ! ch @ ys \<and> subseq ys ds
            \<and> (length (brBufs b ! ch) + length ds \<le> 16 \<longrightarrow> ys = ds)))
    \<and> (ch \<notin> set (subs topic b) \<longrightarrow> brBufs (Publish topic d b) ! ch = brBufs b ! ch)"
proof -
  have inv: "broker_inv b" using brun_inv [OF assms(1)] NewBroker_inv by simp
  have quiet: "\<not> brPanic b"
    by (rule brun_no_panic [OF assms(1) NewBroker_inv _ assms(2)]) (simp add: NewBroker_def)
  have panic: "brPanic (fold (Publish topic) ds b) = brPanic b"
    using inv by (induction ds arbitrary: b) (simp_all add: Publish_effect)
  have "\<exists>ys. brBufs (fold (Publish topic) ds b) ! ch = brBufs b ! ch @ ys \<and> subseq ys ds
      \<and> (length (brBufs b ! ch) + length ds \<le> 16 \<longrightarrow> ys = ds)" if "ch \<in> set (subs topic b)"
  proof -
    have len: "length (brBufs b ! ch) \<le> channel_cap" by (rule buf_bounded [OF inv assms(3)])
    from list_channel.sends_subseq [OF this, of ds] obtain ys
      where "fold (try_send channel_cap) ds (brBufs b ! ch) = brBufs b ! ch @ ys" "subseq ys ds" by blast
    moreover from list_channel.sends_all [of "brBufs b ! ch" ds channel_cap]
    have "length (brBufs b ! ch) + length ds \<le> 16 \<Longrightarrow>
        fold (try_send channel_cap) ds (brBufs b ! ch) = brBufs b ! ch @ ds" by (simp add: channel_cap_def)
    ultimately show ?thesis using Publish_all [OF inv that, of ds] by auto
  qed
  then show ?thesis using panic quiet Publish_effect(5) [OF inv assms(3)] by simp
qed

theorem publish_delivers_witness:
  "\<not> brPanic (fold (Publish 7) [''a'', ''b''] (the (brun [ASubscribe 7, ASubscribe 8, ARemove 8 1, AClose 1] NewBroker)))
   \<and> brBufs (Publish 7 ''c'' (the (brun [ASubscribe 7, ASubscribe 8, ARemove 8 1, AClose 1] NewBroker))) ! 1 = []"
proof -
  define b where "b = the (brun [ASubscribe 7, ASubscribe 8, ARemove 8 1, AClose 1] NewBroker)"
  have run: "brun [ASubscribe 7, ASubscribe 8, ARemove 8 1, AClose 1] NewBroker = Some b"
    unfolding b_def by code_simp
  have facts: "1 < length (brBufs b)" "1 \<notin> set (subs 7 b)" "brBufs b ! 1 = []"
    unfolding b_def by code_simp+
  from publish_delivers [OF run _ facts(1), of 7 "[''a'', ''b'']" "''c''"] facts(2,3)
  have "\<not> brPanic (fold (Publish 7) [''a'', ''b''] b) \<and> brBufs (Publish 7 ''c'' b) ! 1 = []" by simp
  then show ?thesis unfolding b_def .
qed

text \<open>The broker keeps an entry for a topic exactly while it has subscribers, no channel is
  registered twice, and no buffer exceeds its 16 messages, in every interleaving, sends of publishers
  that were overtaken included.\<close>

lemma broker_bookkeeping:
  assumes "brun actions NewBroker = Some b"
  shows "(HasSubscribers topic b \<longleftrightarrow> map_of (brTopics b) topic \<noteq> None) \<and> distinct (subs topic b)
    \<and> list_all (\<lambda>q. length q \<le> 16) (brBufs b)"
proof -
  have inv: "broker_inv b" using brun_inv [OF assms] NewBroker_inv by simp
  then have "map_of (brTopics b) topic \<noteq> Some []"
    by (auto simp: broker_inv_def dest!: map_of_SomeD)
  then show ?thesis
    using inv subs_distinct [OF inv]
    by (auto simp: HasSubscribers_def subs_def broker_inv_def channel_cap_def list_all_iff split: option.splits)
qed

lemma broker_bookkeeping_witness:
  "distinct (subs 1 (the (brun [ASubscribe 1, APick 1 0 ''x'', ASubscribe 1, ASend ''x'' 0] NewBroker)))"
proof -
  have "brun [ASubscribe 1, APick 1 0 ''x'', ASubscribe 1, ASend ''x'' 0] NewBroker =
    Some (the (brun [ASubscribe 1, APick 1 0 ''x'', ASubscribe 1, ASend ''x'' 0] NewBroker))"
    by code_simp
  from broker_bookkeeping [OF this] show ?thesis by blast
qed

section \<open>The race\<close>

text \<open>A client that leaves between a publisher's step onto its channel and the send: the send panics.\<close>

lemma publish_cancel_race:
  "map_option brPanic (brun [ASubscribe 1, APick 1 0 ''x'', ARemove 1 0, AClose 0, ASend ''x'' 0] NewBroker) = Some True"
  by code_simp

end
