(* ===== verification/Server_Links.thy ===== *)
theory Server_Links
  imports Db_Passkeys Ami_Manager Sse_Broker
begin

text \<open>
  \<open>internal/server/links.go\<close>: the link state of the home nodes, read from the output of
  \<open>rpt show variables\<close>, cached with the time each link was first seen, and published when it
  changes. A Go map is an association list with distinct keys.
\<close>

section \<open>Parsing the variables\<close>

record LinkState =
  lsType :: string
  lsKeyed :: bool
  lsConnectedAt :: int

type_synonym links = "(string \<times> LinkState) list"

text \<open>\<open>string(b)\<close> of a byte is the UTF-8 encoding of the code point of that number.\<close>

definition byte_string :: "char \<Rightarrow> string" where
  "byte_string b = (if of_char b < (128 :: nat) then [b]
     else [char_of (192 + of_char b div 64 :: nat), char_of (128 + of_char b mod 64 :: nat)])"

definition cut_value :: "string \<Rightarrow> string \<Rightarrow> string option" where
  "cut_value marker output =
     (case Index output marker of
        None \<Rightarrow> None
      | Some idx \<Rightarrow>
          (let val = drop (idx + length marker) output
           in Some (TrimSpace (case IndexAny val [CR, LF] of None \<Rightarrow> val | Some nl \<Rightarrow> take nl val))))"

definition parse_link :: "string \<Rightarrow> links \<Rightarrow> links" where
  "parse_link p0 m =
     (let p = TrimSpace p0 in
      if length p < 3 then m
      else kv_upsert (take (length p - 2) p)
        \<lparr>lsType = byte_string (p ! (length p - 2)), lsKeyed = (p ! (length p - 1) = CHR ''K''),
         lsConnectedAt = zero_time\<rparr> m)"

definition parseRPTALinks :: "string \<Rightarrow> links option" where
  "parseRPTALinks output =
     (case cut_value ''RPT_ALINKS='' output of
        None \<Rightarrow> None
      | Some val \<Rightarrow>
          (let parts = Split val (CHR '','')
           in if length parts < 2 then None else Some (fold parse_link (tl parts) [])))"

definition parseRPTTXKeyed :: "string \<Rightarrow> bool" where
  "parseRPTTXKeyed output = (cut_value ''RPT_TXKEYED='' output = Some ''1'')"

section \<open>The cache\<close>

type_synonym links_cache = "(int \<times> links) list"

definition links_get :: "int \<Rightarrow> links_cache \<Rightarrow> links \<times> bool" where
  "links_get nodeID c = (case map_of c nodeID of None \<Rightarrow> ([], False) | Some m \<Rightarrow> (m, True))"

definition eqLinkMaps :: "links \<Rightarrow> links \<Rightarrow> bool" where
  "eqLinkMaps a b \<longleftrightarrow> length a = length b \<and>
     list_all (\<lambda>(k, va). case map_of b k of None \<Rightarrow> False
        | Some vb \<Rightarrow> lsType va = lsType vb \<and> lsKeyed va = lsKeyed vb) a"

definition stamp_links :: "int \<Rightarrow> links \<Rightarrow> links \<Rightarrow> links" where
  "stamp_links now old linked =
     map (\<lambda>(num, ls). (num, ls\<lparr>lsConnectedAt :=
        (case map_of old num of
           Some prev \<Rightarrow> if lsConnectedAt prev \<noteq> zero_time then lsConnectedAt prev else now
         | None \<Rightarrow> now)\<rparr>)) linked"

text \<open>\<open>linksCache.set\<close>; the stored map is the argument itself, stamped.\<close>

definition links_set :: "int \<Rightarrow> int \<Rightarrow> links option \<Rightarrow> links_cache \<Rightarrow> (bool \<times> links) \<times> links_cache" where
  "links_set now nodeID linked0 c =
     (let (old, exists) = links_get nodeID c;
          linked = stamp_links now old (case linked0 of None \<Rightarrow> [] | Some m \<Rightarrow> m)
      in ((\<not> exists \<or> \<not> eqLinkMaps old linked, linked), kv_upsert nodeID linked c))"

section \<open>Polling\<close>

text \<open>
  What is published; \<open>json\<close> is the serialisation of the messages. The links of a message are the nil
  map (JSON null) when the poll found none: \<open>linksCache.set\<close> replaces its own copy of the nil map only.
\<close>

datatype 's message = LinksMsg int "links option" bool | StatsMsg int "(string \<times> 's) list"

record link_server =
  lvHomeNums :: "(string \<times> int) list"
  lvLinks :: links_cache
  lvBroker :: broker

definition links_command :: "string \<Rightarrow> headers" where
  "links_command nodeNumber = [(''Action'', ''Command''), (''Command'', ''rpt show variables '' @ nodeNumber)]"

text \<open>
  A poll touches the shared state twice, under a lock each time: it sets the cache, and then it publishes
  the message, if the links have changed. \<open>resp\<close> is the outcome of \<open>SendActionWait\<close> with \<open>links_command\<close>.
\<close>

definition poll_set :: "('s message \<Rightarrow> string) \<Rightarrow> int \<Rightarrow> (ami_error + headers) \<Rightarrow> int \<Rightarrow> link_server
    \<Rightarrow> string option \<times> link_server" where
  "poll_set json now resp nodeID sv =
     (case resp of
        Inl e \<Rightarrow> (None, sv)
      | Inr h \<Rightarrow>
          (let output = hget ''Output'' h;
               ((changed, linked), cache) = links_set now nodeID (parseRPTALinks output) (lvLinks sv)
           in (if changed
               then Some (json (LinksMsg nodeID (map_option (\<lambda>_. linked) (parseRPTALinks output)) (parseRPTTXKeyed output)))
               else None, sv\<lparr>lvLinks := cache\<rparr>)))"

definition poll_publish :: "int \<Rightarrow> string option \<Rightarrow> link_server \<Rightarrow> link_server" where
  "poll_publish nodeID msg sv =
     (case msg of None \<Rightarrow> sv | Some data \<Rightarrow> sv\<lparr>lvBroker := Publish nodeID data (lvBroker sv)\<rparr>)"

text \<open>A poll that no other interrupts.\<close>

definition pollNodeLinksInner :: "('s message \<Rightarrow> string) \<Rightarrow> int \<Rightarrow> (ami_error + headers) \<Rightarrow> int \<Rightarrow> link_server \<Rightarrow> link_server" where
  "pollNodeLinksInner json now resp nodeID sv =
     (case poll_set json now resp nodeID sv of (msg, sv') \<Rightarrow> poll_publish nodeID msg sv')"

lemma pollNodeLinksInner_whole:
  "pollNodeLinksInner json now resp nodeID sv =
     (case resp of
        Inl e \<Rightarrow> sv
      | Inr h \<Rightarrow>
          (let output = hget ''Output'' h;
               ((changed, linked), cache) = links_set now nodeID (parseRPTALinks output) (lvLinks sv)
           in sv\<lparr>lvLinks := cache,
                 lvBroker := (if changed
                   then Publish nodeID (json (LinksMsg nodeID (map_option (\<lambda>_. linked) (parseRPTALinks output))
                          (parseRPTTXKeyed output))) (lvBroker sv)
                   else lvBroker sv)\<rparr>))"
  by (simp add: pollNodeLinksInner_def poll_set_def poll_publish_def Let_def split: sum.split prod.split)

definition pollNodeLinks :: "('s message \<Rightarrow> string) \<Rightarrow> int \<Rightarrow> (int \<Rightarrow> bool) \<Rightarrow> (int \<Rightarrow> ami_error + headers)
    \<Rightarrow> store \<Rightarrow> int \<Rightarrow> link_server \<Rightarrow> link_server" where
  "pollNodeLinks json now connected resp s nodeID sv =
     (case GetNodeByID nodeID s of
        Inl e \<Rightarrow> sv
      | Inr n \<Rightarrow> if \<not> nEnabled n \<or> \<not> connected nodeID then sv
                 else pollNodeLinksInner json now (resp nodeID) nodeID sv)"

definition poll_one :: "('s message \<Rightarrow> string) \<Rightarrow> int \<Rightarrow> (int \<Rightarrow> bool) \<Rightarrow> (int \<Rightarrow> ami_error + headers)
    \<Rightarrow> node \<Rightarrow> link_server \<Rightarrow> link_server" where
  "poll_one json now connected resp n sv0 =
     (let sv = sv0\<lparr>lvHomeNums := kv_upsert (nNodeNumber n) (nID n) (lvHomeNums sv0)\<rparr>
      in if \<not> nEnabled n \<or> \<not> connected (nID n) then sv
         else pollNodeLinksInner json now (resp (nID n)) (nID n) sv)"

definition pollLinks :: "('s message \<Rightarrow> string) \<Rightarrow> int \<Rightarrow> (int \<Rightarrow> bool) \<Rightarrow> (int \<Rightarrow> ami_error + headers)
    \<Rightarrow> store \<Rightarrow> link_server \<Rightarrow> link_server" where
  "pollLinks json now connected resp s sv = fold (poll_one json now connected resp) (ListNodes s) sv"

section \<open>Link maps\<close>

lemma stamp_links_keys [simp]: "map fst (stamp_links now old m) = map fst m"
  by (simp add: stamp_links_def comp_def case_prod_beta)

lemma map_of_stamp_links:
  "map_of (stamp_links now old m) num = map_option (\<lambda>ls. ls\<lparr>lsConnectedAt :=
     (case map_of old num of
        Some prev \<Rightarrow> if lsConnectedAt prev \<noteq> zero_time then lsConnectedAt prev else now
      | None \<Rightarrow> now)\<rparr>) (map_of m num)"
  by (induction m) (auto simp: stamp_links_def)

text \<open>What a link map shows: type and keying of each link.\<close>

definition visible :: "links \<Rightarrow> string \<Rightarrow> (string \<times> bool) option" where
  "visible m num = map_option (\<lambda>ls. (lsType ls, lsKeyed ls)) (map_of m num)"

lemma visible_stamp: "visible (stamp_links now old m) = visible m"
  by (auto simp: visible_def map_of_stamp_links fun_eq_iff option.map_comp comp_def)

lemma eqLinkMaps_visible:
  assumes "distinct (map fst a)" and "distinct (map fst b)"
  shows "eqLinkMaps a b \<longleftrightarrow> visible a = visible b"
proof
  assume eq: "eqLinkMaps a b"
  then have in_b: "visible b k = Some (lsType v, lsKeyed v)" if "(k, v) \<in> set a" for k v
    using that by (fastforce simp: eqLinkMaps_def list_all_iff visible_def split: option.splits)
  have "fst ` set a \<subseteq> fst ` set b"
  proof
    fix k assume "k \<in> fst ` set a"
    then obtain v where "(k, v) \<in> set a" by auto
    from in_b [OF this] show "k \<in> fst ` set b"
      by (auto simp: visible_def dest!: map_of_SomeD intro: fst_in_imageI)
  qed
  moreover have "card (fst ` set a) = card (fst ` set b)"
    using eq assms distinct_card [of "map fst a"] distinct_card [of "map fst b"] by (simp add: eqLinkMaps_def)
  ultimately have keys: "fst ` set a = fst ` set b" by (intro card_subset_eq) simp_all
  show "visible a = visible b"
  proof
    fix k
    show "visible a k = visible b k"
    proof (cases "map_of a k")
      case None
      then have "map_of b k = None" using keys by (simp add: map_of_eq_None_iff)
      with None show ?thesis by (simp add: visible_def)
    next
      case (Some v)
      from in_b [OF map_of_SomeD [OF Some]] Some show ?thesis by (auto simp: visible_def)
    qed
  qed
next
  assume vis: "visible a = visible b"
  have "(k \<in> fst ` set a) = (k \<in> fst ` set b)" for k
  proof -
    have "(map_of a k = None) = (map_of b k = None)"
      using fun_cong [OF vis, of k] by (auto simp: visible_def)
    then show ?thesis by (simp add: map_of_eq_None_iff)
  qed
  then have "length a = length b"
    using assms distinct_card [of "map fst a"] distinct_card [of "map fst b"]
    by (metis length_map list.set_map set_eqI)
  moreover have "case map_of b k of None \<Rightarrow> False | Some vb \<Rightarrow> lsType v = lsType vb \<and> lsKeyed v = lsKeyed vb"
    if "(k, v) \<in> set a" for k v
    using fun_cong [OF vis, of k] map_of_is_SomeI [OF assms(1) that]
    by (cases "map_of b k") (auto simp: visible_def)
  ultimately show "eqLinkMaps a b" by (auto simp: eqLinkMaps_def list_all_iff)
qed

lemma distinct_parse_link: "distinct (map fst m) \<Longrightarrow> distinct (map fst (parse_link p m))"
  by (simp add: parse_link_def Let_def distinct_kv_upsert)

lemma distinct_fold_parse: "distinct (map fst m) \<Longrightarrow> distinct (map fst (fold parse_link ps m))"
  by (induction ps arbitrary: m) (simp_all add: distinct_parse_link)

lemma parseRPTALinks_distinct: "parseRPTALinks out = Some m \<Longrightarrow> distinct (map fst m)"
  by (auto simp: parseRPTALinks_def Let_def distinct_fold_parse split: option.splits if_splits)

text \<open>Every map in the cache has distinct keys, as a Go map has.\<close>

definition cache_ok :: "links_cache \<Rightarrow> bool" where
  "cache_ok c \<longleftrightarrow> list_all (\<lambda>(i, m). distinct (map fst m)) c"

lemma kv_upsert_all:
  "list_all P c \<Longrightarrow> P (k, v) \<Longrightarrow> list_all P (kv_upsert k v c)"
  by (induction k v c rule: kv_upsert.induct) auto

lemma links_set_ok:
  assumes "cache_ok c" and "case linked of None \<Rightarrow> True | Some m \<Rightarrow> distinct (map fst m)"
  shows "cache_ok (snd (links_set now i linked c))"
  using assms by (auto simp: cache_ok_def links_set_def Let_def case_prod_beta split: option.splits
      intro!: kv_upsert_all)

lemma cache_ok_get: "cache_ok c \<Longrightarrow> distinct (map fst (fst (links_get i c)))"
  by (auto simp: cache_ok_def links_get_def list_all_iff split: option.splits dest!: map_of_SomeD)

section \<open>Reading a printed link list\<close>

definition print_link :: "string \<times> LinkState \<Rightarrow> string" where
  "print_link l = fst l @ lsType (snd l) @ (if lsKeyed (snd l) then ''K'' else ''U'')"

definition print_alinks :: "links \<Rightarrow> string" where
  "print_alinks ls = nat_digits (length ls) @ concat (map (\<lambda>l. CHR '','' # print_link l) ls)"

text \<open>A link as \<open>app_rpt\<close> prints it: a node name, one type character, the keyed state.\<close>

definition link_ok :: "string \<times> LinkState \<Rightarrow> bool" where
  "link_ok l \<longleftrightarrow> fst l \<noteq> [] \<and> list_all (\<lambda>c. plain c \<and> c \<noteq> CHR '','') (fst l)
     \<and> (case lsType (snd l) of [c] \<Rightarrow> is_letter c | _ \<Rightarrow> False) \<and> lsConnectedAt (snd l) = zero_time"

lemma Split_none: "b \<notin> set s \<Longrightarrow> Split s b = [s]"
  by (induction s) auto

lemma Split_append: "b \<notin> set x \<Longrightarrow> Split (x @ b # s) b = x # Split s b"
  by (induction x) auto

lemma Split_print: "\<forall>x \<in> set xs. b \<notin> set x \<Longrightarrow> b \<notin> set x0 \<Longrightarrow>
    Split (x0 @ concat (map (\<lambda>x. b # x) xs)) b = x0 # xs"
  by (induction xs arbitrary: x0) (simp_all add: Split_none Split_append)

lemma IndexAny_first: "set x \<inter> set cs = {} \<Longrightarrow> c \<in> set cs \<Longrightarrow> IndexAny (x @ c # t) cs = Some (length x)"
  by (induction x) auto

lemma Index_length: "Index s pat = Some i \<Longrightarrow> length pat \<le> length s"
  by (induction s arbitrary: i) (fastforce split: if_splits dest: prefix_length_le)+

lemma Index_extend: "Index s pat = Some i \<Longrightarrow> Index (s @ t) pat = Some i"
proof (induction s arbitrary: i)
  case (Cons c s)
  show ?case
  proof (cases "prefix pat (c # s)")
    case True
    then have "prefix pat ((c # s) @ t)" by (rule prefix_prefix)
    with True Cons.prems show ?thesis by simp
  next
    case False
    with Cons.prems obtain j where j: "Index s pat = Some j" "i = Suc j" by auto
    have "\<not> prefix pat ((c # s) @ t)"
    proof
      assume "prefix pat ((c # s) @ t)"
      then have "prefix pat (c # s)"
        by (rule prefix_length_prefix) (use Index_length [OF j(1)] in simp_all)
      with False show False ..
    qed
    with Cons.IH [OF j(1)] j(2) show ?thesis by simp
  qed
next
  case Nil
  then show ?case by (cases t) (simp_all split: if_splits)
qed

lemma letter_plain: "is_letter c \<Longrightarrow> plain c"
proof -
  have "list_all (\<lambda>c. \<not> is_letter c) (concat space_runes)" by code_simp
  then show "is_letter c \<Longrightarrow> plain c" by (auto simp: plain_def list_all_iff)
qed

lemma plain_K [simp]: "plain (CHR ''K'')" "plain (CHR ''U'')"
  by code_simp+

lemma byte_string_letter: "is_letter c \<Longrightarrow> byte_string c = [c]"
  by (auto simp: is_letter_def byte_string_def less_eq_char_def)

lemma print_link_parts:
  assumes "link_ok l"
  obtains c where "print_link l = fst l @ [c, if lsKeyed (snd l) then CHR ''K'' else CHR ''U'']" "is_letter c"
    "lsType (snd l) = [c]"
  using assms that by (auto simp: link_ok_def print_link_def split: list.splits)

lemma parse_print_link:
  assumes "link_ok l" and "fst l \<notin> fst ` set m"
  shows "parse_link (print_link l) m = m @ [l]"
proof -
  from print_link_parts [OF assms(1)] obtain c
    where p: "print_link l = fst l @ [c, if lsKeyed (snd l) then CHR ''K'' else CHR ''U'']" "is_letter c"
      "lsType (snd l) = [c]" .
  have ne: "fst l \<noteq> []" "plain (hd (fst l))"
    using assms(1) by (cases "fst l"; simp add: link_ok_def)+
  then have t: "TrimSpace (print_link l) = print_link l" by (intro TrimSpace_plain) (simp_all add: p(1))
  have len: "length (print_link l) = length (fst l) + 2" "3 \<le> length (print_link l)"
    using ne(1) by (simp_all add: p(1) Suc_le_eq)
  have "snd l = \<lparr>lsType = byte_string c, lsKeyed = lsKeyed (snd l), lsConnectedAt = zero_time\<rparr>"
    using assms(1) p(2,3) by (cases "snd l") (simp add: link_ok_def byte_string_letter)
  moreover have "print_link l ! (length (print_link l) - 2) = c" "take (length (print_link l) - 2) (print_link l) = fst l"
    "(print_link l ! (length (print_link l) - 1) = CHR ''K'') = lsKeyed (snd l)"
    unfolding len(1) by (simp_all add: p(1) nth_append)
  moreover have "kv_upsert (fst l) v m = m @ [(fst l, v)]" for v
    using assms(2) by (induction m) auto
  ultimately show ?thesis
    using len(2) by (simp add: parse_link_def t Let_def)
qed

lemma parse_print_links:
  assumes "list_all link_ok ls" and "distinct (map fst (m @ ls))"
  shows "fold parse_link (map print_link ls) m = m @ ls"
  using assms
proof (induction ls arbitrary: m)
  case (Cons l ls)
  then show ?case using Cons.IH [of "m @ [l]"] by (simp add: parse_print_link)
qed simp

lemma print_link_chars:
  assumes "link_ok l" and "c \<in> set (print_link l)"
  shows "plain c \<and> c \<noteq> CHR '',''"
proof -
  from assms(1) obtain d
    where p: "print_link l = fst l @ [d, if lsKeyed (snd l) then CHR ''K'' else CHR ''U'']" "is_letter d"
    by (rule print_link_parts)
  have "\<not> is_letter (CHR '','')" by code_simp
  with p(2) have "plain d" "d \<noteq> CHR '',''" by (auto intro: letter_plain)
  moreover have "list_all (\<lambda>c. plain c \<and> c \<noteq> CHR '','') (fst l)" using assms(1) by (simp add: link_ok_def)
  moreover have "c \<in> set (fst l) \<or> c = d \<or> c = CHR ''K'' \<or> c = CHR ''U''"
    using assms(2) by (cases "lsKeyed (snd l)") (simp_all add: p(1), blast+)
  ultimately show ?thesis
    by (elim disjE) (simp_all add: list_all_iff)
qed

lemma print_alinks_chars:
  assumes "list_all link_ok ls" and "c \<in> set (print_alinks ls)"
  shows "plain c"
proof -
  have "plain (CHR '','')" by code_simp
  moreover have "list_all plain (nat_digits (length ls))"
    using nat_digits_digits [of "length ls"] digit_plain by (auto simp: list_all_iff)
  moreover have "list_all plain (print_link l)" if "l \<in> set ls" for l
    using print_link_chars [of l] assms(1) that by (simp add: list_all_iff)
  ultimately show ?thesis
    using assms(2) by (fastforce simp: print_alinks_def list_all_iff split: if_splits)
qed

section \<open>Properties\<close>

text \<open>the links a node reports are read as they were printed, wherever the variable stands in
  the output: every node with its type and keyed state, and with no time yet.\<close>

lemma parseRPTALinks_print:
  assumes "list_all link_ok ls" and "distinct (map fst ls)" and "ls \<noteq> []"
    and "Index (pre @ ''RPT_ALINKS='') ''RPT_ALINKS='' = Some (length pre)"
  shows "parseRPTALinks (pre @ ''RPT_ALINKS='' @ print_alinks ls @ LF # post) = Some ls"
proof -
  let ?v = "print_alinks ls"
  have idx: "Index (pre @ ''RPT_ALINKS='' @ ?v @ LF # post) ''RPT_ALINKS='' = Some (length pre)"
    using Index_extend [OF assms(4), of "?v @ LF # post"] by simp
  have "\<not> plain CR" "\<not> plain LF" by code_simp+
  then have "set ?v \<inter> set [CR, LF] = {}" using print_alinks_chars [OF assms(1)] by auto
  then have any: "IndexAny (?v @ LF # post) [CR, LF] = Some (length ?v)" by (rule IndexAny_first) simp
  have "?v \<noteq> []" using nat_digits_digits [of "length ls"] by (simp add: print_alinks_def)
  then have trim: "TrimSpace ?v = ?v"
    using print_alinks_chars [OF assms(1)] by (intro TrimSpace_plain) simp_all
  have "cut_value ''RPT_ALINKS='' (pre @ ''RPT_ALINKS='' @ ?v @ LF # post) = Some ?v"
    unfolding cut_value_def idx using any trim by simp
  moreover have "Split ?v (CHR '','') = nat_digits (length ls) # map print_link ls"
  proof -
    have "\<not> is_digit (CHR '','')" by code_simp
    then have "CHR '','' \<notin> set (nat_digits (length ls))"
      using nat_digits_digits [of "length ls"] by (auto simp: list_all_iff)
    moreover have "\<forall>x \<in> set (map print_link ls). CHR '','' \<notin> set x"
      using assms(1) print_link_chars by (auto simp: list_all_iff)
    ultimately show ?thesis
      using Split_print [of "map print_link ls" "CHR '',''" "nat_digits (length ls)"]
      by (simp add: print_alinks_def comp_def)
  qed
  ultimately show ?thesis
    using parse_print_links [OF assms(1), of "[]"] assms(2,3) by (cases ls) (simp_all add: parseRPTALinks_def Let_def)
qed

lemma parseRPTALinks_print_witness:
  "parseRPTALinks (''RPT_TXKEYED=0'' @ [LF] @ ''RPT_ALINKS='' @ print_alinks
      [(''41522'', \<lparr>lsType = ''T'', lsKeyed = True, lsConnectedAt = zero_time\<rparr>),
       (''KR4YXX'', \<lparr>lsType = ''M'', lsKeyed = False, lsConnectedAt = zero_time\<rparr>)] @ LF # ''RPT_LINKS=0'')
   = Some [(''41522'', \<lparr>lsType = ''T'', lsKeyed = True, lsConnectedAt = zero_time\<rparr>),
       (''KR4YXX'', \<lparr>lsType = ''M'', lsKeyed = False, lsConnectedAt = zero_time\<rparr>)]"
proof -
  have "list_all (\<lambda>c. plain c \<and> c \<noteq> CHR '','') ''41522'' \<and> list_all (\<lambda>c. plain c \<and> c \<noteq> CHR '','') ''KR4YXX''
     \<and> is_letter (CHR ''T'') \<and> is_letter (CHR ''M'')" by code_simp
  then show ?thesis
    using parseRPTALinks_print [of "[(''41522'', \<lparr>lsType = ''T'', lsKeyed = True, lsConnectedAt = zero_time\<rparr>),
       (''KR4YXX'', \<lparr>lsType = ''M'', lsKeyed = False, lsConnectedAt = zero_time\<rparr>)]" "''RPT_TXKEYED=0'' @ [LF]" "''RPT_LINKS=0''"]
    by (simp add: link_ok_def)
qed

text \<open>storing a poll result keeps the connection time of every link that was there, stamps the
  others with the current time, and reports a change exactly when it is the first result or a link
  has come, gone, or changed its type or keyed state.\<close>

lemma links_set_spec:
  assumes "cache_ok c" and "case linked of None \<Rightarrow> True | Some m \<Rightarrow> distinct (map fst m)"
    and "links_set now nodeID linked c = ((changed, stored), c')"
  shows "links_get nodeID c' = (stored, True)
    \<and> visible stored = visible (case linked of None \<Rightarrow> [] | Some m \<Rightarrow> m)
    \<and> (changed \<longleftrightarrow> \<not> snd (links_get nodeID c) \<or> visible (fst (links_get nodeID c)) \<noteq> visible stored)
    \<and> (\<forall>num ls. map_of stored num = Some ls \<longrightarrow> lsConnectedAt ls =
         (case map_of (fst (links_get nodeID c)) num of
            Some prev \<Rightarrow> if lsConnectedAt prev \<noteq> zero_time then lsConnectedAt prev else now
          | None \<Rightarrow> now))"
proof -
  let ?old = "fst (links_get nodeID c)" and ?m = "case linked of None \<Rightarrow> [] | Some m \<Rightarrow> m"
  from assms(3) have st: "stored = stamp_links now ?old ?m" and c': "c' = kv_upsert nodeID stored c"
    and ch: "changed = (\<not> snd (links_get nodeID c) \<or> \<not> eqLinkMaps ?old stored)"
    by (auto simp: links_set_def Let_def case_prod_beta)
  have "distinct (map fst stored)" using assms(2) by (simp add: st split: option.splits)
  from eqLinkMaps_visible [OF cache_ok_get [OF assms(1)] this] ch
  have "changed \<longleftrightarrow> \<not> snd (links_get nodeID c) \<or> visible ?old \<noteq> visible stored" by simp
  moreover have "lsConnectedAt ls = (case map_of ?old num of
            Some prev \<Rightarrow> if lsConnectedAt prev \<noteq> zero_time then lsConnectedAt prev else now
          | None \<Rightarrow> now)" if "map_of stored num = Some ls" for num ls
    using that by (auto simp: st map_of_stamp_links)
  ultimately show ?thesis
    by (simp add: c' links_get_def st visible_stamp)
qed

lemma links_set_spec_witness:
  "fst (fst (links_set 50 1 (Some [(''2000'', \<lparr>lsType = ''T'', lsKeyed = True, lsConnectedAt = zero_time\<rparr>)])
      [(1, [(''2000'', \<lparr>lsType = ''T'', lsKeyed = False, lsConnectedAt = 20\<rparr>)])]))
   \<and> map_option lsConnectedAt (map_of (snd (fst (links_set 50 1 (Some [(''2000'', \<lparr>lsType = ''T'', lsKeyed = True, lsConnectedAt = zero_time\<rparr>)])
      [(1, [(''2000'', \<lparr>lsType = ''T'', lsKeyed = False, lsConnectedAt = 20\<rparr>)])]))) ''2000'') = Some 20"
proof -
  let ?c = "[(1, [(''2000'', \<lparr>lsType = ''T'', lsKeyed = False, lsConnectedAt = 20\<rparr>)])] :: links_cache"
  let ?m = "Some [(''2000'', \<lparr>lsType = ''T'', lsKeyed = True, lsConnectedAt = zero_time\<rparr>)]"
  have "links_set 50 1 ?m ?c = ((fst (fst (links_set 50 1 ?m ?c)), snd (fst (links_set 50 1 ?m ?c))), snd (links_set 50 1 ?m ?c))"
    by simp
  from links_set_spec [OF _ _ this]
  have spec: "fst (fst (links_set 50 1 ?m ?c)) \<longleftrightarrow> visible (fst (links_get 1 ?c)) \<noteq> visible (snd (fst (links_set 50 1 ?m ?c)))"
    "visible (snd (fst (links_set 50 1 ?m ?c))) = visible (the ?m)"
    by (simp_all add: cache_ok_def links_get_def)
  have "visible (fst (links_get 1 ?c)) ''2000'' \<noteq> visible (the ?m) ''2000''"
    by (simp add: visible_def links_get_def)
  moreover have "map_option lsConnectedAt (map_of (snd (fst (links_set 50 1 ?m ?c))) ''2000'') = Some 20"
    by code_simp
  ultimately show ?thesis using spec by metis
qed

end
