(* ===== verification/Asl_Fetcher.thy ===== *)
theory Asl_Fetcher
  imports Db_Tables "HOL-Library.Word"
begin

text \<open>
  \<open>internal/aslstats/fetcher.go\<close>: node statistics from the AllStarLink API, with the token
  bucket that limits the requests. The HTTP exchange is a parameter: what it delivers for one
  node, and for the bulk request. A \<open>float64\<close> is kept as its 64 bits; times are Unix seconds.
\<close>

record NodeStats =
  asNodeNumber :: string
  asCallsign :: string
  asDescription :: string
  asLocation :: string
  asKeyed :: bool
  asTotalTxTime :: "64 word"
  asTotalKeyups :: int
  asLinkedNodes :: "string list"
  asConnectedLinks :: nat
  asWeb :: bool
  asFetchedAt :: int
  asError :: string

type_synonym stats_map = "(string \<times> NodeStats) list"

definition Stale :: "int \<Rightarrow> NodeStats \<Rightarrow> bool" where
  "Stale now s \<longleftrightarrow> 90 < now - asFetchedAt s"

section \<open>The rate limiter\<close>

record rate_limiter =
  rlTokens :: nat
  rlCap :: nat

definition newRateLimiter :: "nat \<Rightarrow> rate_limiter" where
  "newRateLimiter perMinute =
     \<lparr>rlTokens = (if perMinute div 4 < 1 then 1 else perMinute div 4), rlCap = perMinute\<rparr>"

text \<open>The ticker's refill, and a wait that finds a token (\<open>None\<close>: it blocks).\<close>

definition rl_tick :: "rate_limiter \<Rightarrow> rate_limiter" where
  "rl_tick rl = (if rlTokens rl < rlCap rl then rl\<lparr>rlTokens := rlTokens rl + 1\<rparr> else rl)"

definition rl_wait :: "rate_limiter \<Rightarrow> rate_limiter option" where
  "rl_wait rl = (if 0 < rlTokens rl then Some (rl\<lparr>rlTokens := rlTokens rl - 1\<rparr>) else None)"

definition fetcher_limiter :: rate_limiter where
  "fetcher_limiter = newRateLimiter 10"

datatype rl_event = Tick | Pass

text \<open>A run of refills and waits that went through.\<close>

fun rl_run :: "rl_event list \<Rightarrow> rate_limiter \<Rightarrow> rate_limiter option" where
  "rl_run [] rl = Some rl"
| "rl_run (Tick # es) rl = rl_run es (rl_tick rl)"
| "rl_run (Pass # es) rl = (case rl_wait rl of None \<Rightarrow> None | Some rl' \<Rightarrow> rl_run es rl')"

section \<open>Entries\<close>

text \<open>The decoded response; the fields that may be a string or a number stay as their JSON text.\<close>

record rawNodeEntry =
  rwCallsign :: string
  rwAccess :: string
  rwFrequency :: string
  rwKeyed :: bool
  rwTotalTxTime :: string
  rwTotalKeyups :: string
  rwLinks :: string

definition parseEntry :: "(string \<Rightarrow> 64 word option) \<Rightarrow> (string \<Rightarrow> string list option) \<Rightarrow> int \<Rightarrow> string
    \<Rightarrow> rawNodeEntry \<Rightarrow> NodeStats" where
  "parseEntry parseFloat stringArray now nodeNumber raw =
     (let s = \<lparr>asNodeNumber = nodeNumber, asCallsign = rwCallsign raw, asDescription = rwFrequency raw,
            asLocation = [], asKeyed = rwKeyed raw, asTotalTxTime = 0, asTotalKeyups = 0, asLinkedNodes = [],
            asConnectedLinks = 0, asWeb = (rwAccess raw \<noteq> [] \<and> rwAccess raw \<noteq> ''0''), asFetchedAt = now,
            asError = []\<rparr>;
          s1 = (case parseFloat (Trim (rwTotalTxTime raw) ''\"'') of None \<Rightarrow> s | Some v \<Rightarrow> s\<lparr>asTotalTxTime := v\<rparr>);
          s2 = (case ParseInt (Trim (rwTotalKeyups raw) ''\"'') of None \<Rightarrow> s1 | Some v \<Rightarrow> s1\<lparr>asTotalKeyups := v\<rparr>)
      in if rwLinks raw \<noteq> [] \<and> hd (rwLinks raw) = CHR ''[''
         then (case stringArray (rwLinks raw) of
             None \<Rightarrow> s2
           | Some links \<Rightarrow> s2\<lparr>asLinkedNodes := links, asConnectedLinks := length links\<rparr>)
         else s2)"

text \<open>What the HTTP client delivers: an error of its own, a status, or a body that decodes or not.\<close>

datatype 'a http_result = HttpFailed string | HttpStatus nat | HttpUndecodable string | HttpOk 'a

definition error_stats :: "int \<Rightarrow> string \<Rightarrow> string \<Rightarrow> NodeStats" where
  "error_stats now nodeNumber err =
     \<lparr>asNodeNumber = nodeNumber, asCallsign = [], asDescription = [], asLocation = [], asKeyed = False,
      asTotalTxTime = 0, asTotalKeyups = 0, asLinkedNodes = [], asConnectedLinks = 0, asWeb = False,
      asFetchedAt = now, asError = err\<rparr>"

definition Fetch :: "(string \<Rightarrow> 64 word option) \<Rightarrow> (string \<Rightarrow> string list option) \<Rightarrow> (string \<Rightarrow> rawNodeEntry http_result)
    \<Rightarrow> int \<Rightarrow> string \<Rightarrow> NodeStats" where
  "Fetch parseFloat stringArray http now nodeNumber =
     (case http nodeNumber of
        HttpFailed e \<Rightarrow> error_stats now nodeNumber e
      | HttpStatus c \<Rightarrow> error_stats now nodeNumber (''HTTP '' @ nat_digits c)
      | HttpUndecodable e \<Rightarrow> error_stats now nodeNumber e
      | HttpOk raw \<Rightarrow> parseEntry parseFloat stringArray now nodeNumber raw)"

definition FetchBulk :: "(string \<Rightarrow> 64 word option) \<Rightarrow> (string \<Rightarrow> string list option)
    \<Rightarrow> (string \<times> rawNodeEntry) list http_result \<Rightarrow> int \<Rightarrow> stats_map option" where
  "FetchBulk parseFloat stringArray response now =
     (case response of
        HttpOk raw \<Rightarrow> Some (map (\<lambda>(num, entry). (num, parseEntry parseFloat stringArray now num entry)) raw)
      | _ \<Rightarrow> None)"

text \<open>
  The workers of one call write into one map, each under its own number; \<open>fetch\<close> is
  \<open>Fetch\<close> at the time the worker runs. \<open>passes\<close> says whose wait for a token ends with one.
\<close>

definition FetchDirect :: "(string \<Rightarrow> NodeStats) \<Rightarrow> string list \<Rightarrow> nat \<Rightarrow> stats_map" where
  "FetchDirect fetch nodeNumbers maxNodes =
     fold (\<lambda>n out. kv_upsert n (fetch n) out) (take maxNodes nodeNumbers) []"

definition FetchAll :: "(string \<Rightarrow> NodeStats) \<Rightarrow> (string \<Rightarrow> bool) \<Rightarrow> string list \<Rightarrow> stats_map" where
  "FetchAll fetch passes nodeNumbers =
     fold (\<lambda>n out. kv_upsert n (fetch n) out) (filter passes nodeNumbers) []"

section \<open>Lemmas\<close>

lemma fold_upsert_map_of:
  "map_of (fold (\<lambda>n out. kv_upsert n (f n) out) ns out) k =
     (if k \<in> set ns then Some (f k) else map_of out k)"
  by (induction ns arbitrary: out) auto

lemma fold_upsert_distinct:
  "distinct (map fst out) \<Longrightarrow> distinct (map fst (fold (\<lambda>n out. kv_upsert n (f n) out) ns out))"
  by (induction ns arbitrary: out) (simp_all add: distinct_kv_upsert)

lemma rl_run_tokens:
  "rl_run es rl = Some rl' \<Longrightarrow>
     rlTokens rl' + count_list es Pass \<le> rlTokens rl + count_list es Tick \<and> rlCap rl' = rlCap rl"
proof (induction es rl rule: rl_run.induct)
  case (2 es rl)
  then show ?case by (auto simp: rl_tick_def split: if_splits)
next
  case (3 es rl)
  then show ?case by (auto simp: rl_wait_def split: option.splits if_splits)
qed simp

lemma rl_run_cap: "rl_run es rl = Some rl' \<Longrightarrow> rlTokens rl \<le> rlCap rl \<Longrightarrow> rlTokens rl' \<le> rlCap rl'"
proof (induction es rl rule: rl_run.induct)
  case (2 es rl)
  then show ?case by (auto simp: rl_tick_def split: if_splits)
next
  case (3 es rl)
  then show ?case by (auto simp: rl_wait_def split: option.splits if_splits)
qed simp

lemma rl_run_append: "rl_run (es @ es') rl = (case rl_run es rl of None \<Rightarrow> None | Some rl' \<Rightarrow> rl_run es' rl')"
  by (induction es rl rule: rl_run.induct) (auto split: option.splits)

section \<open>Properties\<close>

text \<open>C37: in any stretch of a run the requests that pass the limiter number at most the bucket's ten
  tokens plus the refills of that stretch, and from the start at most two plus the refills.\<close>

theorem requests_limited:
  assumes "rl_run (before @ stretch) fetcher_limiter = Some rl"
  shows "count_list stretch Pass \<le> 10 + count_list stretch Tick
    \<and> count_list (before @ stretch) Pass \<le> 2 + count_list (before @ stretch) Tick"
proof -
  have start: "rlTokens fetcher_limiter = 2" "rlCap fetcher_limiter = 10"
    by (simp_all add: fetcher_limiter_def newRateLimiter_def)
  from assms obtain rl1 where r1: "rl_run before fetcher_limiter = Some rl1" and r2: "rl_run stretch rl1 = Some rl"
    by (auto simp: rl_run_append split: option.splits)
  have "rlTokens rl1 \<le> 10"
    using rl_run_cap [OF r1] rl_run_tokens [OF r1] start by simp
  with rl_run_tokens [OF r2] rl_run_tokens [OF assms] start show ?thesis by simp
qed

theorem requests_limited_witness:
  "count_list [Pass, Tick, Pass] Pass \<le> 10 + count_list [Pass, Tick, Pass] Tick"
proof -
  have "rl_run ([Pass, Pass, Tick] @ [Pass, Tick, Pass]) fetcher_limiter = Some \<lparr>rlTokens = 0, rlCap = 10\<rparr>"
    by code_simp
  from requests_limited [OF this] show ?thesis by blast
qed

text \<open>A direct fetch has one entry for each of the first numbers it was asked for; a
  rate-limited one has an entry exactly for the numbers whose wait was not cancelled.\<close>

lemma fetch_results:
  "map_of (FetchDirect fetch nums k) num = (if num \<in> set (take k nums) then Some (fetch num) else None)
    \<and> map_of (FetchAll fetch passes nums) num = (if num \<in> set nums \<and> passes num then Some (fetch num) else None)
    \<and> distinct (map fst (FetchDirect fetch nums k)) \<and> distinct (map fst (FetchAll fetch passes nums))"
  by (simp add: FetchDirect_def FetchAll_def fold_upsert_map_of fold_upsert_distinct)

text \<open>The linked nodes of an entry are those of its array, counted, and none when the field is
  the number the API sends in place of an empty array; a field that cannot be read is zero.\<close>

lemma parseEntry_links:
  "asConnectedLinks (parseEntry pf sa now num raw) = length (asLinkedNodes (parseEntry pf sa now num raw))
    \<and> (HasPrefix (rwLinks raw) ''['' \<longrightarrow> asLinkedNodes (parseEntry pf sa now num raw) =
         (case sa (rwLinks raw) of None \<Rightarrow> [] | Some ls \<Rightarrow> ls))
    \<and> (\<not> HasPrefix (rwLinks raw) ''['' \<longrightarrow> asLinkedNodes (parseEntry pf sa now num raw) = [])
    \<and> (ParseInt (Trim (rwTotalKeyups raw) ''\"'') = None \<longrightarrow> asTotalKeyups (parseEntry pf sa now num raw) = 0)"
  by (cases "rwLinks raw") (auto simp: parseEntry_def Let_def HasPrefix_def split: option.splits)

lemma parseEntry_links_witness:
  "asLinkedNodes (parseEntry (\<lambda>s. None) (\<lambda>s. Some [''2000'', ''29332'']) 0 ''1999''
     \<lparr>rwCallsign = ''W1AW'', rwAccess = ''1'', rwFrequency = [], rwKeyed = False, rwTotalTxTime = ''0'',
      rwTotalKeyups = ''x'', rwLinks = ''[2000,29332]''\<rparr>) = [''2000'', ''29332'']"
  using parseEntry_links [of "\<lambda>s. None" "\<lambda>s. Some [''2000'', ''29332'']" 0 "''1999''"
     "\<lparr>rwCallsign = ''W1AW'', rwAccess = ''1'', rwFrequency = [], rwKeyed = False, rwTotalTxTime = ''0'',
      rwTotalKeyups = ''x'', rwLinks = ''[2000,29332]''\<rparr>"]
  by (simp add: HasPrefix_def)

end
