(* ===== verification/Base64.thy ===== *)
theory Base64
  imports Go_Strings
begin

text \<open>
  The two encodings of Go's \<open>encoding/base64\<close> the program uses: \<open>RawURLEncoding\<close> (session
  tokens, passkey handles) and \<open>StdEncoding\<close> (stored secrets), with the decoder's behaviour
  on line breaks, foreign characters and short input.
\<close>

definition url_alphabet :: string where
  "url_alphabet = ''ABCDEFGHIJKLMNOPQRSTUVWXYZabcdefghijklmnopqrstuvwxyz0123456789-_''"

definition std_alphabet :: string where
  "std_alphabet = ''ABCDEFGHIJKLMNOPQRSTUVWXYZabcdefghijklmnopqrstuvwxyz0123456789+/''"

abbreviation byte_nat :: "char \<Rightarrow> nat" where "byte_nat \<equiv> of_char"
abbreviation nat_byte :: "nat \<Rightarrow> char" where "nat_byte \<equiv> char_of"

text \<open>The sextets of a byte sequence: three bytes give four, a rest of one or two bytes two or three.\<close>

fun sextets :: "string \<Rightarrow> nat list" where
  "sextets [] = []"
| "sextets [a] = [byte_nat a div 4, byte_nat a mod 4 * 16]"
| "sextets [a, b] = [byte_nat a div 4, byte_nat a mod 4 * 16 + byte_nat b div 16, byte_nat b mod 16 * 4]"
| "sextets (a # b # c # s) =
     byte_nat a div 4 # (byte_nat a mod 4 * 16 + byte_nat b div 16) # (byte_nat b mod 16 * 4 + byte_nat c div 64)
       # byte_nat c mod 64 # sextets s"

text \<open>Reading them back; a single sextet left over is an error, unused low bits are ignored.\<close>

fun unsextets :: "nat list \<Rightarrow> string option" where
  "unsextets [] = Some []"
| "unsextets [x] = None"
| "unsextets [x, y] = Some [nat_byte (x * 4 + y div 16)]"
| "unsextets [x, y, z] = Some [nat_byte (x * 4 + y div 16), nat_byte (y mod 16 * 16 + z div 4)]"
| "unsextets (x # y # z # w # xs) =
     map_option (\<lambda>s. nat_byte (x * 4 + y div 16) # nat_byte (y mod 16 * 16 + z div 4)
       # nat_byte (z mod 4 * 64 + w) # s) (unsextets xs)"

definition sextet_of :: "string \<Rightarrow> char \<Rightarrow> nat option" where
  "sextet_of alphabet c = find (\<lambda>n. alphabet ! n = c) [0..<64]"

fun those :: "'a option list \<Rightarrow> 'a list option" where
  "those [] = Some []"
| "those (x # xs) =
     (case x of None \<Rightarrow> None | Some y \<Rightarrow> (case those xs of None \<Rightarrow> None | Some ys \<Rightarrow> Some (y # ys)))"

section \<open>Raw URL encoding\<close>

definition RawURLEncode :: "string \<Rightarrow> string" where
  "RawURLEncode s = map ((!) url_alphabet) (sextets s)"

definition not_newline :: "char \<Rightarrow> bool" where
  "not_newline c \<longleftrightarrow> c \<noteq> LF \<and> c \<noteq> CR"

definition RawURLDecode :: "string \<Rightarrow> string option" where
  "RawURLDecode s =
     (case those (map (sextet_of url_alphabet) (filter not_newline s)) of
        None \<Rightarrow> None | Some xs \<Rightarrow> unsextets xs)"

section \<open>Standard encoding, padded\<close>

definition pad64 :: "string \<Rightarrow> string" where
  "pad64 s = (if length s mod 4 = 0 then s else s @ replicate (4 - length s mod 4) (CHR ''=''))"

definition StdEncode :: "string \<Rightarrow> string" where
  "StdEncode s = pad64 (map ((!) std_alphabet) (sextets s))"

text \<open>
  The padding is one or two \<open>=\<close> that complete the last group of four; \<open>=\<close> anywhere else
  is corrupt input, as it is no character of the alphabet.
\<close>

definition unpad64 :: "string \<Rightarrow> string option" where
  "unpad64 s =
     (if length s mod 4 \<noteq> 0 then None
      else if HasSuffix s ''=='' then Some (take (length s - 2) s)
      else if HasSuffix s ''='' then Some (take (length s - 1) s)
      else Some s)"

definition StdDecode :: "string \<Rightarrow> string option" where
  "StdDecode s =
     (case unpad64 (filter not_newline s) of
        None \<Rightarrow> None
      | Some t \<Rightarrow> (case those (map (sextet_of std_alphabet) t) of
            None \<Rightarrow> None | Some xs \<Rightarrow> unsextets xs))"

section \<open>Round trip\<close>

lemma byte_less: "byte_nat c < 256"
proof -
  have "byte_nat c \<in> {0..<256}" using nat_of_char_less_256 by simp
  then show ?thesis by simp
qed

lemma byte_div: "byte_nat c div 4 < 64" "byte_nat c div 16 < 16" "byte_nat c div 64 < 4"
  using byte_less [of c] by (simp_all add: less_mult_imp_div_less)

lemma sextets_bound: "x \<in> set (sextets s) \<Longrightarrow> x < 64"
proof (induction s rule: sextets.induct)
  case (2 a)
  have "byte_nat a mod 4 < 4" by simp
  with 2 byte_div(1) [of a] show ?case by auto
next
  case (3 a b)
  have "byte_nat a mod 4 < 4" "byte_nat b mod 16 < 16" by simp_all
  with 3 byte_div(1) [of a] byte_div(2) [of b] show ?case by auto
next
  case (4 a b c s)
  have "byte_nat a mod 4 < 4" "byte_nat b mod 16 < 16" by simp_all
  with 4 byte_div(1) [of a] byte_div(2) [of b] byte_div(3) [of c] show ?case by auto
qed simp

lemma repack:
  fixes x y k :: nat
  assumes "y < k"
  shows "(x * k + y) div k = x" "(x * k + y) mod k = y"
  using assms by simp_all

lemma unsextets_sextets: "unsextets (sextets s) = Some s"
proof (induction s rule: sextets.induct)
  case (2 a)
  have "byte_nat a div 4 * 4 + byte_nat a mod 4 * 16 div 16 = byte_nat a" by simp
  then show ?case by (simp del: div_mult_mod_eq)
next
  case (3 a b)
  show ?case
    using repack [OF byte_div(2), of "byte_nat a mod 4" b] by simp
next
  case (4 a b c s)
  show ?case
    using repack [OF byte_div(2), of "byte_nat a mod 4" b] repack [OF byte_div(3), of "byte_nat b mod 16" c] 4
    by simp
qed simp

lemma those_map_Some: "(\<And>x. x \<in> set xs \<Longrightarrow> f x = Some (g x)) \<Longrightarrow> those (map f xs) = Some (map g xs)"
  by (induction xs) auto

lemma alphabet_tables:
  "list_all (\<lambda>n. sextet_of url_alphabet (url_alphabet ! n) = Some n \<and> not_newline (url_alphabet ! n)
     \<and> url_alphabet ! n \<noteq> CHR ''.'') [0..<64]"
  "list_all (\<lambda>n. sextet_of std_alphabet (std_alphabet ! n) = Some n \<and> not_newline (std_alphabet ! n)
     \<and> std_alphabet ! n \<noteq> CHR ''='') [0..<64]"
  by code_simp+

lemma sextet_of_nth:
  "n < 64 \<Longrightarrow> sextet_of url_alphabet (url_alphabet ! n) = Some n"
  "n < 64 \<Longrightarrow> sextet_of std_alphabet (std_alphabet ! n) = Some n"
  "n < 64 \<Longrightarrow> not_newline (url_alphabet ! n)"
  "n < 64 \<Longrightarrow> not_newline (std_alphabet ! n)"
  "n < 64 \<Longrightarrow> url_alphabet ! n \<noteq> CHR ''.''"
  "n < 64 \<Longrightarrow> std_alphabet ! n \<noteq> CHR ''=''"
  using alphabet_tables by (auto simp: list_all_iff)

lemma RawURLEncode_no_dot: "CHR ''.'' \<notin> set (RawURLEncode s)"
  using sextet_of_nth(5) sextets_bound by (fastforce simp: RawURLEncode_def)

lemma RawURL_roundtrip: "RawURLDecode (RawURLEncode s) = Some s"
proof -
  have "filter not_newline (RawURLEncode s) = RawURLEncode s"
    using sextet_of_nth(3) sextets_bound by (auto simp: RawURLEncode_def filter_id_conv)
  moreover have "those (map (sextet_of url_alphabet) (RawURLEncode s)) = Some (map (\<lambda>n. n) (sextets s))"
    unfolding RawURLEncode_def map_map
    by (rule those_map_Some) (use sextet_of_nth(1) sextets_bound in auto)
  ultimately show ?thesis by (simp add: RawURLDecode_def unsextets_sextets)
qed

lemma sextets_length: "length (sextets s) mod 4 \<noteq> 1"
  by (induction s rule: sextets.induct) simp_all

lemma unpad64_pad64:
  assumes "length t mod 4 \<noteq> 1" and "CHR ''='' \<notin> set t"
  shows "unpad64 (pad64 t) = Some t"
proof -
  have rest: "length t mod 4 = 0 \<or> length t mod 4 = 2 \<or> length t mod 4 = 3" using assms(1) by linarith
  have no: "\<not> suffix ''='' t" "\<not> suffix ''=='' t" using assms(2) by (auto simp: suffix_def)
  have one: "\<not> suffix ''=='' (t @ ''='')"
  proof
    assume "suffix ''=='' (t @ ''='')"
    then obtain zs where "t @ ''='' = (zs @ ''='') @ ''=''" by (auto simp: suffix_def)
    then have "t = zs @ ''=''" by blast
    with assms(2) show False by simp
  qed
  have two: "replicate 2 c = [c, c]" for c :: char by (simp add: numeral_2_eq_2)
  from rest show ?thesis
  proof (elim disjE)
    assume m: "length t mod 4 = 0"
    then show ?thesis using no by (simp add: unpad64_def pad64_def HasSuffix_def)
  next
    assume m: "length t mod 4 = 2"
    then have "pad64 t = t @ ''==''" by (simp add: pad64_def two)
    moreover have "(length t + 2) mod 4 = 0" using m by presburger
    ultimately show ?thesis by (simp add: unpad64_def HasSuffix_def suffix_def)
  next
    assume m: "length t mod 4 = 3"
    then have "pad64 t = t @ ''=''" by (simp add: pad64_def)
    moreover have "Suc (length t) mod 4 = 0" using m by presburger
    ultimately show ?thesis using one by (simp add: unpad64_def HasSuffix_def)
  qed
qed

lemma Std_roundtrip: "StdDecode (StdEncode s) = Some s"
proof -
  let ?t = "map ((!) std_alphabet) (sextets s)"
  have "not_newline c \<and> c \<noteq> CHR ''=''" if "c \<in> set ?t" for c
    using that sextet_of_nth(4,6) sextets_bound by auto
  then have t: "filter not_newline ?t = ?t" "CHR ''='' \<notin> set ?t"
    by (auto simp: filter_id_conv)
  then have "filter not_newline (pad64 ?t) = pad64 ?t"
    by (auto simp: pad64_def not_newline_def)
  moreover have "unpad64 (pad64 ?t) = Some ?t"
    using t(2) sextets_length [of s] by (intro unpad64_pad64) simp_all
  moreover have "those (map (sextet_of std_alphabet) ?t) = Some (map (\<lambda>n. n) (sextets s))"
    unfolding map_map by (rule those_map_Some) (use sextet_of_nth(2) sextets_bound in auto)
  ultimately show ?thesis by (simp add: StdDecode_def StdEncode_def unsextets_sextets)
qed

lemma StdEncode_nonempty: "data \<noteq> [] \<Longrightarrow> StdEncode data \<noteq> []"
  using Std_roundtrip [of data] Std_roundtrip [of "[]"] by (auto simp: StdEncode_def pad64_def)

end
