(* ===== verification/Auth_Session.thy ===== *)
theory Auth_Session
  imports Base64 Db_Users
begin

text \<open>
  \<open>internal/auth/session.go\<close>: session cookies signed with an HMAC, the middleware that puts a
  session into the request context, and the permission check of the routes. \<open>mac\<close> stands for
  HMAC-SHA256 under the manager's secret and \<open>marshal\<close>/\<open>unmarshal\<close> for the JSON coding of
  the session; times are Unix seconds.
\<close>

record Session =
  sUserID :: int
  sUsername :: string
  sPermission :: string
  sFullName :: string
  sAvatarURL :: string
  sExpires :: int
  sAuthMethod :: string
  sExternalUsername :: string

record Cookie =
  ckName :: string
  ckValue :: string
  ckPath :: string
  ckMaxAge :: int
  ckHttpOnly :: bool
  ckSecure :: bool
  ckSameSiteStrict :: bool

definition cookieName :: string where "cookieName = ''yaamon_session''"
definition sessionTTL :: int where "sessionTTL = 7 * 24 * 3600"

text \<open>\<open>sign\<close>, and the token of an encoded payload.\<close>

definition sign :: "(string \<Rightarrow> string) \<Rightarrow> string \<Rightarrow> string" where
  "sign mac d = RawURLEncode (mac d)"

definition newSession :: "int \<Rightarrow> int \<Rightarrow> string \<Rightarrow> string \<Rightarrow> string \<Rightarrow> string \<Rightarrow> Session" where
  "newSession now userID username permission fullName avatarURL =
     \<lparr>sUserID = userID, sUsername = username, sPermission = permission, sFullName = fullName,
      sAvatarURL = avatarURL, sExpires = now + sessionTTL, sAuthMethod = [], sExternalUsername = []\<rparr>"

definition SetSession :: "(string \<Rightarrow> string) \<Rightarrow> (Session \<Rightarrow> string option) \<Rightarrow> bool \<Rightarrow> int
    \<Rightarrow> int \<Rightarrow> string \<Rightarrow> string \<Rightarrow> string \<Rightarrow> string \<Rightarrow> Cookie option" where
  "SetSession mac marshal secure now userID username permission fullName avatarURL =
     (case marshal (newSession now userID username permission fullName avatarURL) of
        None \<Rightarrow> None
      | Some payload \<Rightarrow>
          Some \<lparr>ckName = cookieName, ckValue = RawURLEncode payload @ ''.'' @ sign mac (RawURLEncode payload),
            ckPath = ''/'', ckMaxAge = sessionTTL, ckHttpOnly = True, ckSecure = secure,
            ckSameSiteStrict = True\<rparr>)"

definition ClearSession :: "bool \<Rightarrow> Cookie" where
  "ClearSession secure = \<lparr>ckName = cookieName, ckValue = [], ckPath = ''/'', ckMaxAge = -1,
     ckHttpOnly = True, ckSecure = secure, ckSameSiteStrict = True\<rparr>"

definition parseToken :: "(string \<Rightarrow> string) \<Rightarrow> (string \<Rightarrow> Session option) \<Rightarrow> int \<Rightarrow> string \<Rightarrow> Session option" where
  "parseToken mac unmarshal now token =
     (case LastIndexByte token (CHR ''.'') of
        None \<Rightarrow> None
      | Some idx \<Rightarrow>
          if sign mac (take idx token) \<noteq> drop (idx + 1) token then None
          else (case RawURLDecode (take idx token) of
              None \<Rightarrow> None
            | Some payload \<Rightarrow> (case unmarshal payload of
                  None \<Rightarrow> None
                | Some s \<Rightarrow> if sExpires s < now then None else Some s)))"

text \<open>\<open>r.Cookie\<close> returns the first cookie of the name.\<close>

definition GetSession :: "(string \<Rightarrow> string) \<Rightarrow> (string \<Rightarrow> Session option) \<Rightarrow> int
    \<Rightarrow> (string \<times> string) list \<Rightarrow> Session option" where
  "GetSession mac unmarshal now cookies =
     (case map_of cookies cookieName of None \<Rightarrow> None | Some v \<Rightarrow> parseToken mac unmarshal now v)"

text \<open>The request context holds at most one session, set by the proxy middleware or by this one.\<close>

definition Middleware :: "(string \<Rightarrow> string) \<Rightarrow> (string \<Rightarrow> Session option) \<Rightarrow> int
    \<Rightarrow> (string \<times> string) list \<Rightarrow> Session option \<Rightarrow> Session option" where
  "Middleware mac unmarshal now cookies ctx =
     (case ctx of Some s \<Rightarrow> Some s | None \<Rightarrow> GetSession mac unmarshal now cookies)"

definition session_rank :: "string \<Rightarrow> int" where
  "session_rank p = (case map_of [(''superuser'', 4), (''admin'', 3), (''readwrite'', 2), (''readonly'', 1), (''none'', 0)] p of
     None \<Rightarrow> 0 | Some r \<Rightarrow> r)"

definition permissionAtLeast :: "string \<Rightarrow> string \<Rightarrow> bool" where
  "permissionAtLeast have need = (session_rank need \<le> session_rank have)"

datatype access = Allowed Session | RedirectTo string | Forbidden string

definition RequirePermission :: "string \<Rightarrow> string \<Rightarrow> string \<Rightarrow> Session option \<Rightarrow> access" where
  "RequirePermission loginURL minPerm requestURI ctx =
     (case ctx of
        None \<Rightarrow> RedirectTo (loginURL @ ''?next='' @ requestURI)
      | Some s \<Rightarrow>
          if \<not> permissionAtLeast (sPermission s) minPerm
          then Forbidden (''forbidden: requires '' @ minPerm @ '' permission'')
          else Allowed s)"

section \<open>Tokens\<close>

lemma LastIndexByte_None: "b \<notin> set s \<Longrightarrow> LastIndexByte s b = None"
  by (induction s) auto

lemma LastIndexByte_split:
  assumes "b \<notin> set t"
  shows "LastIndexByte (s @ b # t) b = Some (length s)"
  using LastIndexByte_None [OF assms] by (induction s) auto

lemma LastIndexByte_SomeD:
  "LastIndexByte s b = Some i \<Longrightarrow> i < length s \<and> s ! i = b \<and> b \<notin> set (drop (Suc i) s)"
proof (induction s arbitrary: i)
  case (Cons c s)
  have none: "LastIndexByte s b = None \<Longrightarrow> b \<notin> set s" for s
    by (induction s) (auto split: option.splits if_splits)
  from Cons show ?case by (auto split: option.splits if_splits dest: none)
qed simp

lemma parseToken_signed:
  "parseToken mac unmarshal now (enc @ ''.'' @ sign mac enc) =
     (case RawURLDecode enc of None \<Rightarrow> None
      | Some payload \<Rightarrow> (case unmarshal payload of None \<Rightarrow> None
          | Some s \<Rightarrow> if sExpires s < now then None else Some s))"
proof -
  have "LastIndexByte (enc @ CHR ''.'' # sign mac enc) (CHR ''.'') = Some (length enc)"
    by (rule LastIndexByte_split) (simp add: sign_def RawURLEncode_no_dot)
  then show ?thesis by (simp add: parseToken_def)
qed

lemma parseToken_SomeD:
  assumes "parseToken mac unmarshal now token = Some s"
  shows "\<exists>enc payload. token = enc @ ''.'' @ sign mac enc \<and> RawURLDecode enc = Some payload
    \<and> unmarshal payload = Some s \<and> now \<le> sExpires s"
proof -
  from assms obtain idx payload where idx: "LastIndexByte token (CHR ''.'') = Some idx"
    and sig: "sign mac (take idx token) = drop (idx + 1) token"
    and rest: "RawURLDecode (take idx token) = Some payload" "unmarshal payload = Some s" "now \<le> sExpires s"
    by (auto simp: parseToken_def split: option.splits if_splits)
  from LastIndexByte_SomeD [OF idx] have "token = take idx token @ CHR ''.'' # drop (Suc idx) token"
    by (metis id_take_nth_drop)
  with sig rest show ?thesis by (intro exI [where x = "take idx token"] exI [where x = payload]) simp
qed

section \<open>Properties\<close>

text \<open>C35: the token of a session that has been set is read back as that session until it expires,
  seven days later to the second, and is rejected from then on.\<close>

theorem session_roundtrip:
  assumes "SetSession mac marshal secure t0 uid name perm fullName avatar = Some ck"
    and "\<forall>payload. marshal (newSession t0 uid name perm fullName avatar) = Some payload \<longrightarrow>
      unmarshal payload = Some (newSession t0 uid name perm fullName avatar)"
  shows "GetSession mac unmarshal now [(ckName ck, ckValue ck)] =
    (if now \<le> t0 + 604800 then Some (newSession t0 uid name perm fullName avatar) else None)"
proof -
  from assms(1) obtain payload where "marshal (newSession t0 uid name perm fullName avatar) = Some payload"
    and ck: "ckName ck = cookieName" "ckValue ck = RawURLEncode payload @ ''.'' @ sign mac (RawURLEncode payload)"
    by (auto simp: SetSession_def split: option.splits)
  with assms(2) have "unmarshal payload = Some (newSession t0 uid name perm fullName avatar)" by simp
  with ck show ?thesis
    using parseToken_signed [of mac unmarshal now "RawURLEncode payload"]
    by (simp add: GetSession_def RawURL_roundtrip newSession_def sessionTTL_def)
qed

theorem session_roundtrip_witness:
  "GetSession rev (\<lambda>p. if p = ''pay'' then Some (newSession 100 7 ''ann'' ''admin'' [] []) else None) 604700
     [(cookieName, RawURLEncode ''pay'' @ ''.'' @ sign rev (RawURLEncode ''pay''))]
   = Some (newSession 100 7 ''ann'' ''admin'' [] [])"
proof -
  let ?m = "\<lambda>s. if s = newSession 100 7 ''ann'' ''admin'' [] [] then Some ''pay'' else None"
  let ?u = "\<lambda>p. if p = ''pay'' then Some (newSession 100 7 ''ann'' ''admin'' [] []) else None"
  have set: "SetSession rev ?m True 100 7 ''ann'' ''admin'' [] [] =
      Some \<lparr>ckName = cookieName, ckValue = RawURLEncode ''pay'' @ ''.'' @ sign rev (RawURLEncode ''pay''),
        ckPath = ''/'', ckMaxAge = sessionTTL, ckHttpOnly = True, ckSecure = True, ckSameSiteStrict = True\<rparr>"
    by (simp add: SetSession_def)
  show ?thesis
    using session_roundtrip [OF set, of ?u 604700] by simp
qed

text \<open>C13: no token is accepted but an encoded payload followed by a dot and its own signature, and
  then the session is the payload's and has not expired.\<close>

theorem accepted_token_is_signed:
  assumes "GetSession mac unmarshal now cookies = Some s"
  shows "\<exists>enc payload. map_of cookies ''yaamon_session'' = Some (enc @ ''.'' @ sign mac enc)
    \<and> RawURLDecode enc = Some payload \<and> unmarshal payload = Some s \<and> now \<le> sExpires s"
  using assms by (auto simp: GetSession_def cookieName_def split: option.splits dest!: parseToken_SomeD)

theorem accepted_token_is_signed_witness:
  "\<exists>enc payload. RawURLEncode ''pay'' @ ''.'' @ sign rev (RawURLEncode ''pay'') = enc @ ''.'' @ sign rev enc
    \<and> RawURLDecode enc = Some payload \<and> payload = ''pay''"
proof -
  let ?s = "newSession 100 7 ''ann'' ''admin'' [] []"
  let ?u = "\<lambda>p. if p = ''pay'' then Some ?s else None"
  let ?tok = "RawURLEncode ''pay'' @ ''.'' @ sign rev (RawURLEncode ''pay'')"
  have "GetSession rev ?u 100 [(''yaamon_session'', ?tok)] = Some ?s"
    using parseToken_signed [of rev ?u 100 "RawURLEncode ''pay''"]
    by (simp add: GetSession_def cookieName_def RawURL_roundtrip newSession_def sessionTTL_def)
  from accepted_token_is_signed [OF this] show ?thesis by (auto split: if_splits)
qed

text \<open>The middleware and the database layer order the permissions alike.\<close>

lemma session_rank_permRankOf: "session_rank p = permRankOf p"
  by (simp add: session_rank_def permRankOf_def permRank_def perm_defs)

lemma permissionAtLeast_eq: "permissionAtLeast have need = PermissionAtLeast have need"
  by (simp add: permissionAtLeast_def PermissionAtLeast_def session_rank_permRankOf)

text \<open>A route is reached exactly with a session whose permission ranks at least as high as the
  one required, which is also the order of the database layer; without a session the answer is a
  redirect to the login page, with too low a permission it is 403.\<close>

lemma RequirePermission_gate:
  "RequirePermission loginURL minPerm uri ctx =
     (case ctx of
        None \<Rightarrow> RedirectTo (loginURL @ ''?next='' @ uri)
      | Some s \<Rightarrow> if PermissionAtLeast (sPermission s) minPerm then Allowed s
                  else Forbidden (''forbidden: requires '' @ minPerm @ '' permission''))"
  by (simp add: RequirePermission_def permissionAtLeast_eq split: option.splits)

end
