(* ===== verification/Http.thy ===== *)
theory Http
  imports Auth_Session
begin

text \<open>
  The HTTP side of the handlers in \<open>internal/server\<close>: what a handler reads of a request and
  what it answers. Header names are in canonical form, path parameters come from the router.
\<close>

record request =
  rqMethod :: string
  rqPath :: string
  rqURI :: string
  rqHost :: string
  rqRemoteAddr :: string
  rqTLS :: bool
  rqHeader :: "(string \<times> string) list"
  rqCookies :: "(string \<times> string) list"
  rqForm :: "(string \<times> string) list"
  rqParam :: "(string \<times> string) list"

text \<open>\<open>Header.Get\<close>, \<open>FormValue\<close>, \<open>chi.URLParam\<close>: the empty string when absent.\<close>

definition get_key :: "string \<Rightarrow> (string \<times> string) list \<Rightarrow> string" where
  "get_key k kvs = (case map_of kvs k of None \<Rightarrow> [] | Some v \<Rightarrow> v)"

text \<open>\<open>textproto.CanonicalMIMEHeaderKey\<close>: a name with a byte that is no token byte is left alone.\<close>

fun canonical_from :: "bool \<Rightarrow> string \<Rightarrow> string" where
  "canonical_from up [] = []"
| "canonical_from up (c # cs) = (if up then upper_char c else lower_char c) # canonical_from (c = CHR ''-'') cs"

definition token_byte :: "char \<Rightarrow> bool" where
  "token_byte c \<longleftrightarrow> is_letter c \<or> is_digit c \<or> c \<in> set ''!#$%&*+-.^_|~'' \<or> c = CHR 0x27 \<or> c = CHR 0x60"

definition CanonicalHeaderKey :: "string \<Rightarrow> string" where
  "CanonicalHeaderKey k = (if list_all token_byte k then canonical_from True k else k)"

definition HeaderGet :: "string \<Rightarrow> request \<Rightarrow> string" where
  "HeaderGet k r = get_key (CanonicalHeaderKey k) (rqHeader r)"

definition FormValue :: "string \<Rightarrow> request \<Rightarrow> string" where
  "FormValue k r = get_key k (rqForm r)"

definition URLParam :: "string \<Rightarrow> request \<Rightarrow> string" where
  "URLParam k r = get_key k (rqParam r)"

text \<open>\<open>http.Error\<close>, a redirect, a JSON answer, a bare status, a rendered page, a body of bytes.\<close>

datatype 'a reply =
    HttpError nat string
  | HttpRedirect nat string
  | Json nat 'a
  | Status nat
  | Page nat string 'a
  | Body string string

text \<open>Two dashes that occur in messages, in UTF-8.\<close>

definition en_dash :: string where "en_dash = [CHR 0xE2, CHR 0x80, CHR 0x93]"
definition em_dash :: string where "em_dash = [CHR 0xE2, CHR 0x80, CHR 0x94]"

section \<open>Addresses\<close>

text \<open>\<open>net.SplitHostPort\<close>, \<open>None\<close> for its errors: the host may be in square brackets, and outside
  them it has no colon.\<close>

definition SplitHostPort :: "string \<Rightarrow> (string \<times> string) option" where
  "SplitHostPort hp =
     (case LastIndexByte hp (CHR '':'') of
        None \<Rightarrow> None
      | Some i \<Rightarrow>
          if hd hp = CHR ''['' then
            (case Index hp '']'' of
               None \<Rightarrow> None
             | Some e \<Rightarrow>
                 if e + 1 = i \<and> CHR ''['' \<notin> set (tl hp) \<and> CHR '']'' \<notin> set (drop (e + 1) hp)
                 then Some (take (e - 1) (tl hp), drop (i + 1) hp) else None)
          else if CHR '':'' \<in> set (take i hp) \<or> CHR ''['' \<in> set hp \<or> CHR '']'' \<in> set hp then None
          else Some (take i hp, drop (i + 1) hp))"

end
