(* ===== verification/Server_Stats.thy ===== *)
theory Server_Stats
  imports Server_Links Asl_Fetcher Http
begin

text \<open>
  \<open>internal/server/stats.go\<close>: the statistics cache with its copy in the database, the poller
  with its choice between bulk and individual requests, the enrichment from the node database and
  from AMI, and the connect and disconnect handlers.
\<close>

section \<open>The cache\<close>

definition stats_getMany :: "string list \<Rightarrow> stats_map \<Rightarrow> stats_map" where
  "stats_getMany nums c =
     fold (\<lambda>n out. case map_of c n of None \<Rightarrow> out | Some st \<Rightarrow> kv_upsert n st out) nums []"

definition stats_update :: "stats_map \<Rightarrow> stats_map \<Rightarrow> stats_map" where
  "stats_update results c = fold (\<lambda>(k, v) c. if asError v = [] then kv_upsert k v c else c) results c"

text \<open>\<open>marshal\<close> and \<open>unmarshal\<close> are the JSON coding of one entry.\<close>

definition loadFromDB :: "(string \<Rightarrow> NodeStats option) \<Rightarrow> store \<Rightarrow> stats_map \<Rightarrow> stats_map" where
  "loadFromDB unmarshal s c =
     fold (\<lambda>(num, raw) c. case unmarshal raw of None \<Rightarrow> c | Some st \<Rightarrow> kv_upsert num st c) (LoadStatsCache s) c"

definition saveStatsCacheToDB :: "(NodeStats \<Rightarrow> string option) \<Rightarrow> stats_map \<Rightarrow> store \<Rightarrow> store" where
  "saveStatsCacheToDB marshal results s =
     SaveStatsCache (fold (\<lambda>(num, st) es. if asError st \<noteq> [] then es
        else (case marshal st of None \<Rightarrow> es | Some raw \<Rightarrow> kv_upsert num raw es)) results []) s"

section \<open>The server state of the pollers\<close>

record stats_server =
  ssLink :: link_server
  ssStats :: stats_map
  ssInBulk :: bool
  ssLastBulkAt :: int
  ssStore :: store

section \<open>Bulk or individual requests\<close>

definition bulkHighMark :: nat where "bulkHighMark = 10"
definition bulkLowMark :: nat where "bulkLowMark = 4"
definition bulkMinInterval :: int where "bulkMinInterval = 5 * 60"

definition adaptive_mode :: "nat \<Rightarrow> bool \<Rightarrow> bool" where
  "adaptive_mode n inBulk = (if bulkHighMark < n then True else if n \<le> bulkLowMark then False else inBulk)"

text \<open>
  \<open>start\<close> and \<open>done\<close> are the times before and after the request; \<open>bulk\<close> is the outcome of
  \<open>FetchBulk\<close>, \<open>each\<close> that of \<open>FetchAll\<close>.
\<close>

definition fetchAdaptive :: "int \<Rightarrow> int \<Rightarrow> stats_map option \<Rightarrow> (string list \<Rightarrow> stats_map) \<Rightarrow> string list
    \<Rightarrow> stats_server \<Rightarrow> stats_map \<times> stats_server" where
  "fetchAdaptive start done bulk each stale sv0 =
     (let sv = sv0\<lparr>ssInBulk := adaptive_mode (length stale) (ssInBulk sv0)\<rparr>;
          canBulk = (bulkMinInterval \<le> start - ssLastBulkAt sv)
      in if ssInBulk sv \<and> canBulk
         then (case bulk of
             Some all \<Rightarrow> (all, sv\<lparr>ssLastBulkAt := done\<rparr>)
           | None \<Rightarrow> (each stale, sv))
         else (each stale, sv))"

section \<open>Enrichment and publication\<close>

text \<open>\<open>lookup\<close> is \<open>nodeDB.Lookup\<close>: callsign and location of a node.\<close>

definition enrichFromAstdb :: "(string \<Rightarrow> (string \<times> string) option) \<Rightarrow> stats_map \<Rightarrow> stats_map" where
  "enrichFromAstdb lookup stats =
     map (\<lambda>(num, st). (num,
        if asLocation st \<noteq> [] then st
        else (case lookup num of
            None \<Rightarrow> st
          | Some (callsign, location) \<Rightarrow>
              st\<lparr>asLocation := location, asCallsign := (if asCallsign st = [] then callsign else asCallsign st)\<rparr>))) stats"

definition enrichFromAMI :: "link_server \<Rightarrow> stats_map \<Rightarrow> stats_map" where
  "enrichFromAMI lv stats =
     map (\<lambda>(num, st). (num,
        (case map_of (lvHomeNums lv) num of
           None \<Rightarrow> st
         | Some nodeID \<Rightarrow>
             (case links_get nodeID (lvLinks lv) of
                (links, hasData) \<Rightarrow> if hasData then st\<lparr>asConnectedLinks := length links\<rparr> else st)))) stats"

definition publishCachedStats :: "(NodeStats message \<Rightarrow> string) \<Rightarrow> (string \<Rightarrow> (string \<times> string) option)
    \<Rightarrow> int \<times> string list \<Rightarrow> stats_server \<Rightarrow> stats_server" where
  "publishCachedStats json lookup ns sv =
     (let subset = enrichFromAMI (ssLink sv) (enrichFromAstdb lookup (stats_getMany (snd ns) (ssStats sv)))
      in sv\<lparr>ssLink := (ssLink sv)\<lparr>lvBroker := Publish (fst ns) (json (StatsMsg (fst ns) subset)) (lvBroker (ssLink sv))\<rparr>\<rparr>)"

section \<open>The poller\<close>

definition add_num :: "string \<Rightarrow> string list \<Rightarrow> string list" where
  "add_num num nums = (if num \<in> set nums then nums else nums @ [num])"

text \<open>A home node, its favorites and its links, each number once.\<close>

definition node_nums :: "node \<Rightarrow> store \<Rightarrow> link_server \<Rightarrow> string list" where
  "node_nums n s lv =
     fold add_num (nNodeNumber n # map fNodeNumber (ListFavoritesByNode (nID n) s)
        @ map fst (fst (links_get (nID n) (lvLinks lv)))) []"

definition poll_sets :: "stats_server \<Rightarrow> (int \<times> string list) list" where
  "poll_sets sv =
     map (\<lambda>n. (nID n, node_nums n (ssStore sv) (ssLink sv)))
       (filter (\<lambda>n. nEnabled n \<and> HasSubscribers (nID n) (lvBroker (ssLink sv))) (ListNodes (ssStore sv)))"

definition stale_nums :: "int \<Rightarrow> stats_map \<Rightarrow> string list \<Rightarrow> string list" where
  "stale_nums now c nums = filter (\<lambda>num. case map_of c num of None \<Rightarrow> True | Some st \<Rightarrow> Stale now st) nums"

text \<open>Storing what a fetch returned, in the cache and in the database.\<close>

definition keep_results :: "(NodeStats \<Rightarrow> string option) \<Rightarrow> stats_map \<Rightarrow> stats_server \<Rightarrow> stats_server" where
  "keep_results marshal results sv =
     sv\<lparr>ssStats := stats_update results (ssStats sv), ssStore := saveStatsCacheToDB marshal results (ssStore sv)\<rparr>"

definition pollStats :: "(NodeStats message \<Rightarrow> string) \<Rightarrow> (NodeStats \<Rightarrow> string option)
    \<Rightarrow> (string \<Rightarrow> (string \<times> string) option) \<Rightarrow> int \<Rightarrow> int \<Rightarrow> stats_map option \<Rightarrow> (string list \<Rightarrow> stats_map)
    \<Rightarrow> stats_server \<Rightarrow> stats_server" where
  "pollStats json marshal lookup start done bulk each sv0 =
     (let sets = poll_sets sv0;
          global = fold add_num (concat (map snd sets)) []
      in if global = [] then sv0
         else let stale = stale_nums start (ssStats sv0) global;
                  sv1 = (if stale = [] then sv0
                         else (case fetchAdaptive start done bulk each stale sv0 of
                             (results, sv) \<Rightarrow> keep_results marshal results sv))
              in fold (publishCachedStats json lookup) sets sv1)"

text \<open>The fetch a new subscriber triggers for its node alone.\<close>

definition pollNodeStats :: "(NodeStats message \<Rightarrow> string) \<Rightarrow> (NodeStats \<Rightarrow> string option)
    \<Rightarrow> (string \<Rightarrow> (string \<times> string) option) \<Rightarrow> int \<Rightarrow> (string \<Rightarrow> NodeStats) \<Rightarrow> int \<Rightarrow> stats_server \<Rightarrow> stats_server" where
  "pollNodeStats json marshal lookup now fetch nodeID sv0 =
     (case GetNodeByID nodeID (ssStore sv0) of
        Inl e \<Rightarrow> sv0
      | Inr n \<Rightarrow>
          (let nums = node_nums n (ssStore sv0) (ssLink sv0);
               stale = stale_nums now (ssStats sv0) nums;
               sv1 = (if stale = [] then sv0
                      else keep_results marshal (FetchDirect fetch stale (length stale)) sv0)
           in publishCachedStats json lookup (nodeID, nums) sv1))"

text \<open>What \<open>handleSSE\<close> sends first: the cached statistics and the cached links.\<close>

definition sse_initial :: "(NodeStats message \<Rightarrow> string) \<Rightarrow> (links \<Rightarrow> string) \<Rightarrow> int \<Rightarrow> stats_server \<Rightarrow> string list" where
  "sse_initial json jsonLinks nodeID sv =
     (let nums = (case GetNodeByID nodeID (ssStore sv) of Inl e \<Rightarrow> [] | Inr n \<Rightarrow> [nNodeNumber n])
            @ map fNodeNumber (ListFavoritesByNode nodeID (ssStore sv));
          current = stats_getMany nums (ssStats sv)
      in (if nums \<noteq> [] \<and> current \<noteq> [] then [json (StatsMsg nodeID current)] else []) @
         (case links_get nodeID (lvLinks (ssLink sv)) of
            (links, ok) \<Rightarrow> if ok then [jsonLinks links] else []))"

definition handleAPINodeStats :: "(string \<Rightarrow> (string \<times> string) option) \<Rightarrow> request \<Rightarrow> stats_server \<Rightarrow> stats_map reply" where
  "handleAPINodeStats lookup r sv =
     (case ParseInt (URLParam ''id'' r) of
        None \<Rightarrow> HttpError 400 ''invalid node id''
      | Some nodeID \<Rightarrow> (case GetNodeByID nodeID (ssStore sv) of
            Inl e \<Rightarrow> HttpError 404 ''node not found''
          | Inr n \<Rightarrow> Json 200 (enrichFromAstdb lookup
              (stats_getMany (nNodeNumber n # map fNodeNumber (ListFavoritesByNode nodeID (ssStore sv))) (ssStats sv)))))"

section \<open>Connecting and disconnecting\<close>

record connect_body =
  cbTarget :: string
  cbMode :: string
  cbExclusive :: bool

definition ilinkMap :: "(string \<times> string) list" where
  "ilinkMap = [(''transceive'', ''3''), (''transceive_perm'', ''13''), (''monitor'', ''2''),
     (''monitor_perm'', ''12''), (''monitor_local'', ''8''), (''monitor_local_perm'', ''18'')]"

definition command_action :: "string \<Rightarrow> headers" where
  "command_action cmd = [(''Action'', ''Command''), (''Command'', cmd)]"

datatype ami_reply = AmiOk | AmiFailed ami_error

text \<open>
  The actions sent to the node's manager, in order, with the answer; \<open>body\<close> is \<open>None\<close> when
  it does not decode, \<open>send\<close> gives the outcome of an action.
\<close>

definition handleConnect :: "(headers \<Rightarrow> ami_error + headers) \<Rightarrow> store \<Rightarrow> links_cache \<Rightarrow> request \<Rightarrow> connect_body option
    \<Rightarrow> ami_reply reply \<times> (int \<times> headers) list" where
  "handleConnect send s cache r body =
     (case ParseInt (URLParam ''id'' r) of
        None \<Rightarrow> (HttpError 400 ''invalid node id'', [])
      | Some nodeID \<Rightarrow> (case GetNodeByID nodeID s of
            Inl e \<Rightarrow> (HttpError 404 ''node not found'', [])
          | Inr n \<Rightarrow> (case body of
                None \<Rightarrow> (HttpError 400 ''body must be {\"target\":\"NNNNN\"}'', [])
              | Some b \<Rightarrow>
                  if cbTarget b = [] then (HttpError 400 ''body must be {\"target\":\"NNNNN\"}'', [])
                  else
                    let ilink = (case map_of ilinkMap (cbMode b) of None \<Rightarrow> ''3'' | Some c \<Rightarrow> c);
                        first = (if cbExclusive b \<and> 0 < length (fst (links_get nodeID cache))
                                 then [(nodeID, command_action (''rpt cmd '' @ nNodeNumber n @ '' ilink 6''))] else []);
                        cmd = ''rpt cmd '' @ nNodeNumber n @ '' ilink '' @ ilink @ '' '' @ cbTarget b
                    in (case send (command_action cmd) of
                          Inl e \<Rightarrow> (Json 200 (AmiFailed e), first @ [(nodeID, command_action cmd)])
                        | Inr _ \<Rightarrow> (Json 200 AmiOk, first @ [(nodeID, command_action cmd)])))))"

text \<open>A body that does not decode leaves the zero values: disconnect all.\<close>

definition handleDisconnect :: "(headers \<Rightarrow> ami_error + headers) \<Rightarrow> store \<Rightarrow> request \<Rightarrow> string \<Rightarrow> bool
    \<Rightarrow> ami_reply reply \<times> (int \<times> headers) list" where
  "handleDisconnect send s r target permanent =
     (case ParseInt (URLParam ''id'' r) of
        None \<Rightarrow> (HttpError 400 ''invalid node id'', [])
      | Some nodeID \<Rightarrow> (case GetNodeByID nodeID s of
            Inl e \<Rightarrow> (HttpError 404 ''node not found'', [])
          | Inr n \<Rightarrow>
              (let cmd = (if target = [] then ''rpt cmd '' @ nNodeNumber n @ '' ilink 6''
                     else if permanent then ''rpt cmd '' @ nNodeNumber n @ '' ilink 11 '' @ target
                     else ''rpt cmd '' @ nNodeNumber n @ '' ilink 1 '' @ target)
               in (case send (command_action cmd) of
                     Inl e \<Rightarrow> (Json 200 (AmiFailed e), [(nodeID, command_action cmd)])
                   | Inr _ \<Rightarrow> (Json 200 AmiOk, [(nodeID, command_action cmd)])))))"

end
