(* ===== verification/Ami_Props.thy ===== *)
theory Ami_Props
  imports Ami_Client
begin

text \<open>
  Properties of the AMI client: what is written is read back as the same headers, responses reach
  the caller they belong to, the buffers stay bounded, and when the loops end.
\<close>

section \<open>Splitting the stream into lines\<close>

text \<open>What repeated \<open>ReadString\<close> calls give on a stream that ends; an unfinished line is lost.\<close>

function ReadLines :: "string \<Rightarrow> loop_input list" where
  "ReadLines s =
     (if s = [] then []
      else (case cut_line s of (l, None) \<Rightarrow> [ReadFailed] | (l, Some t) \<Rightarrow> RawLine (l @ [LF]) # ReadLines t))"
  by pat_completeness auto
termination
  by (relation "measure length") (auto dest: cut_line_shorter [OF sym])

declare ReadLines.simps [simp del]

lemma ReadLines_Nil [simp]: "ReadLines [] = []"
  by (simp add: ReadLines.simps)

lemma ReadLines_line: "LF \<notin> set l \<Longrightarrow> ReadLines (l @ LF # t) = RawLine (l @ [LF]) # ReadLines t"
  by (subst ReadLines.simps) (simp add: cut_line_LF)

section \<open>Header lines\<close>

definition no_newline :: "string \<Rightarrow> bool" where
  "no_newline s \<longleftrightarrow> CR \<notin> set s \<and> LF \<notin> set s"

text \<open>What a header must be like to be read back.\<close>

definition header_ok :: "string \<times> string \<Rightarrow> bool" where
  "header_ok kv \<longleftrightarrow> fst kv \<noteq> [] \<and> no_newline (fst kv) \<and> no_newline (snd kv) \<and> \<not> Contains (fst kv) '': ''"

lemma Index_colon: "\<not> Contains k '': '' \<Longrightarrow> Index (k @ CHR '':'' # CHR '' '' # v) '': '' = Some (length k)"
proof (induction k)
  case (Cons c k)
  then have "\<not> prefix '': '' (c # k)" "\<not> Contains k '': ''"
    by (auto simp: Contains_def split: if_splits)
  moreover from this(1) have "\<not> prefix '': '' ((c # k) @ CHR '':'' # CHR '' '' # v)"
    by (cases k) auto
  ultimately show ?case using Cons.IH by simp
qed simp

lemma TrimRight_line: "no_newline x \<Longrightarrow> TrimRight (x @ [CR, LF]) [CR, LF] = x"
  by (cases x rule: rev_cases) (auto simp: TrimRight_def no_newline_def)

lemma header_line_parse:
  assumes "header_ok kv"
  shows "TrimRight (header_line kv) [CR, LF] = fst kv @ '': '' @ snd kv"
    and "fst kv @ '': '' @ snd kv \<noteq> []"
    and "ReadLines (header_line kv @ t) = RawLine (header_line kv) # ReadLines t"
proof -
  have nl: "no_newline (fst kv @ '': '' @ snd kv)"
    using assms by (simp add: header_ok_def no_newline_def)
  show "TrimRight (header_line kv) [CR, LF] = fst kv @ '': '' @ snd kv"
    using TrimRight_line [OF nl] by (simp add: header_line_def CRLF_def)
  show "fst kv @ '': '' @ snd kv \<noteq> []" by simp
  have "LF \<notin> set ((fst kv @ '': '' @ snd kv) @ [CR])" using nl by (simp add: no_newline_def)
  from ReadLines_line [OF this] show "ReadLines (header_line kv @ t) = RawLine (header_line kv) # ReadLines t"
    by (simp add: header_line_def CRLF_def)
qed

lemma kv_upsert_new: "k \<notin> fst ` set h \<Longrightarrow> kv_upsert k v h = h @ [(k, v)]"
  by (induction k v h rule: kv_upsert.induct) auto

lemma header_step_new:
  assumes "header_ok kv" and "fst kv \<notin> fst ` set h"
  shows "header_step (fst kv @ '': '' @ snd kv) h = h @ [kv]"
proof -
  obtain n where n: "length (fst kv) = Suc n" using assms(1) by (cases "fst kv") (auto simp: header_ok_def)
  have idx: "Index (fst kv @ CHR '':'' # CHR '' '' # snd kv) '': '' = Some (Suc n)"
    using Index_colon assms(1) n by (simp add: header_ok_def)
  have parts: "take (Suc n) (fst kv @ CHR '':'' # CHR '' '' # snd kv) = fst kv"
    "drop (Suc n + 2) (fst kv @ CHR '':'' # CHR '' '' # snd kv) = snd kv"
    by (simp_all flip: n)
  have "hget (fst kv) h = []"
    using assms(2) by (simp add: hget_def map_of_eq_None_iff split: option.splits) (metis map_of_eq_None_iff option.distinct(1))
  then have "add_output (snd kv) h = kv_upsert (fst kv) (snd kv) h" if "fst kv = ''Output''"
    using that by (simp add: add_output_def)
  with idx parts kv_upsert_new [OF assms(2), of "snd kv"] show ?thesis
    by (auto simp: header_step_def Let_def)
qed

section \<open>A block\<close>

lemma readLoop_headers:
  assumes "list_all header_ok kvs" and "distinct (map fst (h @ kvs))"
  shows "readLoop (map (RawLine \<circ> header_line) kvs @ ins) h c = readLoop ins (h @ kvs) c"
  using assms
proof (induction kvs arbitrary: h)
  case (Cons kv kvs)
  then have "header_step (fst kv @ '': '' @ snd kv) h = h @ [kv]"
    by (intro header_step_new) auto
  with Cons.IH [of "h @ [kv]"] Cons.prems header_line_parse(1) [of kv] show ?case
    by (simp add: Let_def)
qed simp

lemma ReadLines_headers:
  "list_all header_ok kvs \<Longrightarrow> ReadLines (concat (map header_line kvs) @ t) = map (RawLine \<circ> header_line) kvs @ ReadLines t"
  by (induction kvs) (simp_all add: header_line_parse(3))

text \<open>The headers in the order they are written.\<close>

definition action_first :: "headers \<Rightarrow> headers" where
  "action_first h = (case map_of h ''Action'' of None \<Rightarrow> [] | Some v \<Rightarrow> [(''Action'', v)]) @
     filter (\<lambda>kv. fst kv \<noteq> ''Action'') h"

lemma writeAction_ordered: "writeAction h = concat (map header_line (action_first h)) @ CRLF"
  by (simp add: writeAction_def action_first_def split: option.splits)

lemma map_of_action_first: "map_of (action_first h) = map_of h"
proof
  fix k
  have "map_of (filter (\<lambda>kv. fst kv \<noteq> ''Action'') h) k = (if k = ''Action'' then None else map_of h k)"
    by (induction h) auto
  then show "map_of (action_first h) k = map_of h k"
    by (auto simp: action_first_def map_add_def split: option.splits)
qed

lemma action_first_ok:
  assumes "list_all header_ok h" and "distinct (map fst h)" and "h \<noteq> []"
  shows "list_all header_ok (action_first h)" "distinct (map fst (action_first h))" "action_first h \<noteq> []"
proof -
  show "list_all header_ok (action_first h)"
    using assms(1) by (cases "map_of h ''Action''") (auto simp: action_first_def list_all_iff dest: map_of_SomeD)
  show "distinct (map fst (action_first h))"
    using assms(2) by (auto simp: action_first_def distinct_map_filter split: option.splits)
  have "map_of (action_first h) \<noteq> Map.empty" using assms(3) by (simp add: map_of_action_first)
  then show "action_first h \<noteq> []" by auto
qed

lemma ReadLines_action:
  assumes "list_all header_ok h" and "distinct (map fst h)" and "h \<noteq> []"
  shows "ReadLines (writeAction h) = map (RawLine \<circ> header_line) (action_first h) @ [RawLine [CR, LF]]"
proof -
  have "ReadLines CRLF = [RawLine [CR, LF]]"
    using ReadLines_line [of "[CR]" "[]"] by (simp add: CRLF_def)
  then show ?thesis
    using ReadLines_headers [OF action_first_ok(1) [OF assms], of CRLF] by (simp add: writeAction_ordered)
qed

lemma blank_line [simp]: "TrimRight [CR, LF] [CR, LF] = []"
  by (simp add: TrimRight_def)

lemma read_block:
  assumes "list_all header_ok h" and "distinct (map fst h)" and "h \<noteq> []"
  shows "readLoop (ReadLines (writeAction h) @ ins) [] c =
    (case dispatch (action_first h) c of
       (Some e, c') \<Rightarrow> (Some (Some e), [], c') | (None, c') \<Rightarrow> readLoop ins [] c')"
proof -
  note ok = action_first_ok [OF assms]
  have "ReadLines (writeAction h) = map (RawLine \<circ> header_line) (action_first h) @ [RawLine [CR, LF]]"
    by (rule ReadLines_action [OF assms])
  then have "readLoop (ReadLines (writeAction h) @ ins) [] c =
      readLoop (RawLine [CR, LF] # ins) (action_first h) c"
    using readLoop_headers [OF ok(1), of "[]" "RawLine [CR, LF] # ins" c] ok(2) by simp
  also have "readLoop (RawLine [CR, LF] # ins) (action_first h) c =
    (case dispatch (action_first h) c of
       (Some e, c') \<Rightarrow> (Some (Some e), [], c') | (None, c') \<Rightarrow> readLoop ins [] c')"
    using ok(3) by (simp add: Let_def)
  finally show ?thesis .
qed

section \<open>The client's states\<close>

text \<open>
  The steps of the read loop and of the callers of \<open>SendActionWait\<close>, in any order: each is
  atomic in the code, under the client's mutex or on a channel.
\<close>

inductive client_reach :: "client \<Rightarrow> bool" where
  start: "client_reach NewClient"
| dialled: "client_reach c \<Longrightarrow> client_reach (c\<lparr>clConn := True\<rparr>)"
| closed: "client_reach c \<Longrightarrow> client_reach (c\<lparr>clConnected := False, clConn := False\<rparr>)"
| block: "client_reach c \<Longrightarrow> dispatch evt c = (r, c') \<Longrightarrow> client_reach c'"
| register: "client_reach c \<Longrightarrow> actionID \<noteq> [] \<Longrightarrow> client_reach (wait_register actionID c)"
| remove: "client_reach c \<Longrightarrow> client_reach (wait_remove actionID c)"
| drain: "client_reach c \<Longrightarrow> recv (clEvents c) = Some (evt, es) \<Longrightarrow> client_reach (c\<lparr>clEvents := es\<rparr>)"

definition client_inv :: "client \<Rightarrow> bool" where
  "client_inv c \<longleftrightarrow> length (clEvents c) \<le> events_cap
     \<and> (\<forall>k ch. map_of (clPending c) k = Some ch \<longrightarrow>
          k \<noteq> [] \<and> length ch \<le> 1 \<and> (\<forall>evt \<in> set ch. hget ''ActionID'' evt = k))"

lemma client_inv_fields [simp]:
  "client_inv (c\<lparr>clConn := b\<rparr>) = client_inv c"
  "client_inv (c\<lparr>clConnected := b\<rparr>) = client_inv c"
  by (simp_all add: client_inv_def)

lemma client_inv_send: "client_inv c \<Longrightarrow> client_inv (c\<lparr>clEvents := try_send events_cap evt (clEvents c)\<rparr>)"
  by (simp add: client_inv_def length_try_send)

lemma dispatch_inv:
  assumes "client_inv c" and "dispatch evt c = (r, c')"
  shows "client_inv c'"
proof (cases "if hget ''ActionID'' evt \<noteq> [] then map_of (clPending c) (hget ''ActionID'' evt) else None")
  case None
  with assms client_inv_send [of c evt] client_inv_send [of "c\<lparr>clConnected := True\<rparr>" evt] show ?thesis
    by (auto simp: dispatch_def Let_def split: if_splits)
next
  case (Some ch)
  let ?id = "hget ''ActionID'' evt"
  have ch: "map_of (clPending c) ?id = Some ch" "?id \<noteq> []" using Some by (auto split: if_splits)
  have "c' = c\<lparr>clPending := kv_upsert ?id (try_send 1 evt ch) (clPending c)\<rparr>"
    using assms(2) ch by (simp add: dispatch_def Let_def)
  with ch assms(1) length_try_send [of ch 1 evt] set_try_send [of 1 evt ch] show ?thesis
    by (auto simp: client_inv_def)
qed

lemma map_of_filter_key: "map_of (filter (\<lambda>e. fst e \<noteq> k) es) j = (if j = k then None else map_of es j)"
  by (induction es) auto

lemma client_reach_inv: "client_reach c \<Longrightarrow> client_inv c"
proof (induction rule: client_reach.induct)
  case (block c evt r c')
  then show ?case using dispatch_inv by blast
next
  case (drain c evt es)
  then show ?case by (auto simp: client_inv_def recv_def split: list.splits)
qed (auto simp: client_inv_def NewClient_def wait_register_def wait_remove_def map_of_filter_key split: if_splits)

inductive_cases client_reach_cases: "client_reach c"

section \<open>The loops\<close>

lemma readLoop_nil_quit: "readLoop ins h c = (Some None, h', c') \<Longrightarrow> Quit \<in> set ins"
  by (induction ins h c rule: readLoop.induct) (auto simp: Let_def split: if_splits prod.splits option.splits)

lemma waits_from:
  assumes "k \<le> 6"
  shows "reconnect_waits (2 ^ k) (replicate n True) = map (\<lambda>i. 2 ^ min (k + i) 6) [0..<n]"
  using assms
proof (induction n arbitrary: k)
  case (Suc n)
  have up: "[0..<Suc n] = 0 # map Suc [0..<n]" by (simp add: upt_conv_Cons map_Suc_upt del: upt_Suc)
  show ?case
  proof (cases "k = 6")
    case True
    with Suc.IH [of 6] show ?thesis unfolding up by (simp add: comp_def)
  next
    case False
    with Suc.prems have "k \<le> 5" by simp
    then have "(2 :: nat) ^ k \<le> 2 ^ 5" by (intro power_increasing) simp_all
    then have "(2 :: nat) ^ k < 60" by simp
    with Suc.IH [of "Suc k"] \<open>k \<le> 5\<close> show ?thesis unfolding up by (simp add: comp_def mult.commute)
  qed
qed simp

section \<open>Properties\<close>

text \<open>C38: the block \<open>writeAction\<close> writes is read as one event with the same headers, whatever
  the order of the map, as long as no key or value has a line break and no key a colon and space.\<close>

theorem action_roundtrip:
  assumes "list_all header_ok h" and "distinct (map fst h)" and "h \<noteq> []"
  shows "\<exists>evt. map_of evt = map_of h \<and>
    readLoop (ReadLines (writeAction h) @ ins) [] c =
      (case dispatch evt c of
         (Some e, c') \<Rightarrow> (Some (Some e), [], c') | (None, c') \<Rightarrow> readLoop ins [] c')"
  using read_block [OF assms, of ins c] map_of_action_first by blast

theorem action_roundtrip_witness:
  "\<exists>evt. map_of evt = map_of [(''Command'', ''rpt cmd 2000 ilink 3 29332''), (''Action'', ''Command'')] \<and>
    readLoop (ReadLines (writeAction [(''Command'', ''rpt cmd 2000 ilink 3 29332''), (''Action'', ''Command'')]) @ [Quit]) [] NewClient =
      (case dispatch evt NewClient of
         (Some e, c') \<Rightarrow> (Some (Some e), [], c') | (None, c') \<Rightarrow> readLoop [Quit] [] c')"
  by (rule action_roundtrip) (simp_all add: header_ok_def no_newline_def Contains_def)

text \<open>C16: a caller of \<open>SendActionWait\<close> is given an event with its own action id and no other, in
  every state the read loop and concurrent callers can reach; and no event of an error response is
  given as a success.\<close>

theorem response_routed_to_caller:
  assumes "client_reach c" and "wait_take actionID c = Some (Inr evt)"
  shows "hget ''ActionID'' evt = actionID \<and> hget ''Response'' evt \<noteq> ''Error''"
  using client_reach_inv [OF assms(1)] assms(2)
  by (fastforce simp: wait_take_def client_inv_def split: option.splits list.splits if_splits)

theorem response_routed_to_caller_witness:
  "hget ''ActionID'' [(''Response'', ''Success''), (''ActionID'', ''ya-1'')] = ''ya-1''"
proof -
  let ?evt = "[(''Response'', ''Success''), (''ActionID'', ''ya-1'')]"
  let ?c = "wait_register ''ya-1'' (NewClient\<lparr>clConn := True\<rparr>)"
  have "client_reach ?c" by (rule client_reach.register [OF client_reach.dialled [OF client_reach.start]]) simp
  moreover have "dispatch ?evt ?c = (None, ?c\<lparr>clPending := [(''ya-1'', [?evt])]\<rparr>)" by code_simp
  ultimately have "client_reach (?c\<lparr>clPending := [(''ya-1'', [?evt])]\<rparr>)" by (rule client_reach.block)
  moreover have "wait_take ''ya-1'' (?c\<lparr>clPending := [(''ya-1'', [?evt])]\<rparr>) = Some (Inr ?evt)" by code_simp
  ultimately show ?thesis using response_routed_to_caller by blast
qed

text \<open>The event channel never holds more than its 128 events, a caller's never more than one.\<close>

lemma client_buffers_bounded:
  assumes "client_reach c"
  shows "length (clEvents c) \<le> 128 \<and> (\<forall>k ch. map_of (clPending c) k = Some ch \<longrightarrow> length ch \<le> 1)"
  using client_reach_inv [OF assms] by (simp add: client_inv_def events_cap_def)

lemma client_buffers_bounded_witness:
  "length (clEvents (snd (dispatch [(''Event'', ''RPT_LINKS'')] NewClient))) \<le> 128"
proof -
  have d: "dispatch [(''Event'', ''RPT_LINKS'')] NewClient = (None, NewClient\<lparr>clEvents := [[(''Event'', ''RPT_LINKS'')]]\<rparr>)"
    by code_simp
  from client_buffers_bounded [OF client_reach.block [OF client_reach.start d]] show ?thesis by (simp add: d)
qed

text \<open>The waits between failing attempts double from one second up to 64 and stay there.\<close>

lemma reconnect_backoff:
  "reconnect_waits 1 (replicate n True) = map (\<lambda>i. 2 ^ min i 6) [0..<n]"
  using waits_from [of 0 n] by simp

text \<open>The read loop returns without an error only when the client was stopped: a connection that
  is lost always ends it with one, so that only then \<open>connect\<close> succeeds and the backoff is reset.\<close>

lemma readLoop_clean_only_when_stopped:
  assumes "connect dialed written user pass ins c = (out, Some None, c')"
  shows "Quit \<in> set ins"
  using assms by (auto simp: connect_def Let_def split: if_splits list.splits loop_input.splits prod.splits
      option.splits dest: readLoop_nil_quit)

lemma readLoop_clean_only_when_stopped_witness:
  "Quit \<in> set [RawLine ''Asterisk'', Quit]"
proof (rule readLoop_clean_only_when_stopped)
  show "connect True True ''u'' ''p'' [RawLine ''Asterisk'', Quit] NewClient =
    (writeAction (login_action ''auth-1'' ''u'' ''p''), Some None, NewClient\<lparr>clConnected := False, clConn := False\<rparr>)"
    by (simp add: connect_def Let_def NewClient_def)
qed

section \<open>What can go wrong\<close>

text \<open>A line break in a value starts another header: the caller's value becomes a header of its own.\<close>

lemma header_injection:
  "snd (snd (readLoop (ReadLines (writeAction [(''Action'', ''Command''), (''Command'', ''x'' @ CRLF @ ''Action: Originate'')]))
     [] NewClient)) = NewClient\<lparr>clEvents := [[(''Action'', ''Originate''), (''Command'', ''x'')]]\<rparr>"
  by code_simp

text \<open>An error response whose caller has given up ends the session like a refused login.\<close>

lemma late_error_ends_session:
  "fst (readLoop (ReadLines (writeAction [(''Response'', ''Error''), (''ActionID'', ''ya-7''), (''Message'', ''No such node'')]))
     [] (NewClient\<lparr>clConn := True, clConnected := True\<rparr>)) = Some (Some (AuthFailed ''No such node''))"
  by code_simp

end
