(* ===== verification/Server_Stats_Props.thy ===== *)
theory Server_Stats_Props
  imports Server_Stats Ami_Props
begin

text \<open>
  Properties of the statistics poller: the spacing of bulk requests, the cache and its persisted
  copy, idle polls, and the commands the connect handler sends.
\<close>

section \<open>Bulk requests\<close>

text \<open>A history of fetches: start, end, outcome of the bulk request, stale numbers.\<close>

type_synonym fetch_event = "int \<times> int \<times> stats_map option \<times> string list"

definition uses_bulk :: "int \<Rightarrow> string list \<Rightarrow> stats_server \<Rightarrow> bool" where
  "uses_bulk start stale sv \<longleftrightarrow>
     adaptive_mode (length stale) (ssInBulk sv) \<and> bulkMinInterval \<le> start - ssLastBulkAt sv"

fun fetch_run :: "fetch_event list \<Rightarrow> stats_server \<Rightarrow> stats_server" where
  "fetch_run [] sv = sv"
| "fetch_run ((start, done, bulk, stale) # es) sv =
     fetch_run es (snd (fetchAdaptive start done bulk (\<lambda>_. []) stale sv))"

text \<open>The times of the bulk requests that succeed.\<close>

fun bulk_log :: "fetch_event list \<Rightarrow> stats_server \<Rightarrow> (int \<times> int) list" where
  "bulk_log [] sv = []"
| "bulk_log ((start, done, bulk, stale) # es) sv =
     (if uses_bulk start stale sv \<and> bulk \<noteq> None then [(start, done)] else []) @
     bulk_log es (snd (fetchAdaptive start done bulk (\<lambda>_. []) stale sv))"

lemma fetchAdaptive_last:
  "ssLastBulkAt (snd (fetchAdaptive start done bulk each stale sv)) =
     (if uses_bulk start stale sv \<and> bulk \<noteq> None then done else ssLastBulkAt sv)"
  by (auto simp: fetchAdaptive_def uses_bulk_def Let_def split: option.splits)

lemma bulk_log_spaced:
  assumes "\<forall>(start, done, e) \<in> set es. start \<le> done"
  shows "(\<forall>b \<in> set (bulk_log es sv). ssLastBulkAt sv + 300 \<le> fst b)
    \<and> sorted_wrt (\<lambda>a b. snd a + 300 \<le> fst b) (bulk_log es sv)"
  using assms
proof (induction es arbitrary: sv)
  case (Cons ev es)
  obtain start fin bulk stale where ev: "ev = (start, fin, bulk, stale)" by (cases ev) auto
  let ?sv = "snd (fetchAdaptive start fin bulk (\<lambda>_. []) stale sv)"
  have IH: "(\<forall>b \<in> set (bulk_log es ?sv). ssLastBulkAt ?sv + 300 \<le> fst b)
    \<and> sorted_wrt (\<lambda>a b. snd a + 300 \<le> fst b) (bulk_log es ?sv)"
    using Cons.IH [of ?sv] Cons.prems by simp
  show ?case
  proof (cases "uses_bulk start stale sv \<and> bulk \<noteq> None")
    case True
    then have "ssLastBulkAt ?sv = fin" unfolding fetchAdaptive_last by (rule if_P)
    moreover have "ssLastBulkAt sv + 300 \<le> start"
      using True by (simp add: uses_bulk_def bulkMinInterval_def)
    ultimately show ?thesis using True IH Cons.prems by (fastforce simp: ev)
  next
    case False
    then have "ssLastBulkAt ?sv = ssLastBulkAt sv" unfolding fetchAdaptive_last by (rule if_not_P)
    with False IH show ?thesis by (auto simp: ev)
  qed
qed simp

section \<open>The cache as a map\<close>

lemma map_of_stats_update:
  assumes "distinct (map fst results)"
  shows "map_of (stats_update results c) k =
    (case map_of results k of
       None \<Rightarrow> map_of c k | Some st \<Rightarrow> if asError st = [] then Some st else map_of c k)"
  using assms unfolding stats_update_def
proof (induction results arbitrary: c)
  case (Cons r results)
  obtain k' v where r: "r = (k', v)" by (cases r)
  have "map_of results k' = None" using Cons.prems by (simp add: r map_of_eq_None_iff)
  then show ?case using Cons.IH Cons.prems by (auto simp: r split: option.splits)
qed simp

lemma map_of_load:
  assumes "distinct (map fst rows)"
  shows "map_of (fold (\<lambda>(num, raw) c. case u raw of None \<Rightarrow> c | Some st \<Rightarrow> kv_upsert num st c) rows c) k =
    (case Option.bind (map_of rows k) u of None \<Rightarrow> map_of c k | Some st \<Rightarrow> Some st)"
  using assms
proof (induction rows arbitrary: c)
  case (Cons r rows)
  obtain k' v where r: "r = (k', v)" by (cases r)
  have "map_of rows k' = None" using Cons.prems by (simp add: r map_of_eq_None_iff)
  then show ?case using Cons.IH Cons.prems by (auto simp: r split: option.splits)
qed simp

lemma map_of_upsert_all:
  "distinct (map fst es) \<Longrightarrow> map_of (upsert_all es t) k = (case map_of es k of None \<Rightarrow> map_of t k | Some v \<Rightarrow> Some v)"
proof (induction es t rule: upsert_all.induct)
  case (2 num raw es t)
  have "map_of es num = None" using "2.prems" by (simp add: map_of_eq_None_iff)
  then show ?case using 2 by (auto split: option.splits)
qed simp

lemma saved_entries:
  assumes "distinct (map fst results)" and "distinct (map fst es0)"
  shows "map_of (fold (\<lambda>(num, st) es. if asError st \<noteq> [] then es
      else (case marshal st of None \<Rightarrow> es | Some raw \<Rightarrow> kv_upsert num raw es)) results es0) k =
    (case Option.bind (map_of results k) (\<lambda>st. if asError st = [] then marshal st else None) of
       None \<Rightarrow> map_of es0 k | Some raw \<Rightarrow> Some raw)"
    and "distinct (map fst (fold (\<lambda>(num, st) es. if asError st \<noteq> [] then es
      else (case marshal st of None \<Rightarrow> es | Some raw \<Rightarrow> kv_upsert num raw es)) results es0))"
  using assms
proof (induction results arbitrary: es0)
  case (Cons r results)
  {
    case 1
    obtain k' v where r: "r = (k', v)" by (cases r)
    have none: "map_of results k' = None" using 1 by (simp add: r map_of_eq_None_iff)
    have d: "distinct (map fst (kv_upsert k' x es0))" for x using 1 by (simp add: distinct_kv_upsert)
    from 1 none Cons.IH(1) d show ?case by (auto simp: r split: option.splits)
  next
    case 2
    then show ?case using Cons.IH(2) by (auto simp: distinct_kv_upsert case_prod_beta split: option.splits)
  }
qed simp_all

section \<open>Properties\<close>

text \<open>Two successful bulk requests are at least five minutes apart, whatever the number of stale
  nodes does in between, and the mode follows the two marks: above ten bulk, up to four individual,
  in between as before.\<close>

lemma bulk_requests_spaced:
  assumes "\<forall>(start, done, e) \<in> set history. start \<le> done"
  shows "sorted_wrt (\<lambda>a b. snd a + 300 \<le> fst b) (bulk_log history sv)
    \<and> ssInBulk (snd (fetchAdaptive start done bulk each stale sv)) =
        (if 10 < length stale then True else if length stale \<le> 4 then False else ssInBulk sv)"
  using bulk_log_spaced [OF assms, of sv]
  by (auto simp: fetchAdaptive_def Let_def adaptive_mode_def bulkHighMark_def bulkLowMark_def split: option.splits)

definition demoStats :: stats_server where
  "demoStats = \<lparr>ssLink = \<lparr>lvHomeNums = [], lvLinks = [], lvBroker = NewBroker\<rparr>, ssStats = [], ssInBulk = True,
     ssLastBulkAt = 0, ssStore = store_empty\<rparr>"

lemma bulk_requests_spaced_witness:
  "sorted_wrt (\<lambda>a b. snd a + 300 \<le> fst b)
     (bulk_log [(300, 310, Some [], replicate 5 ''1''), (330, 340, Some [], replicate 7 ''1''), (610, 615, Some [], replicate 11 ''1'')] demoStats)
   \<and> bulk_log [(300, 310, Some [], replicate 5 ''1''), (330, 340, Some [], replicate 7 ''1''), (610, 615, Some [], replicate 11 ''1'')] demoStats
     = [(300, 310), (610, 615)]"
proof -
  have "bulk_log [(300, 310, Some [], replicate 5 ''1''), (330, 340, Some [], replicate 7 ''1''), (610, 615, Some [], replicate 11 ''1'')] demoStats
     = [(300, 310), (610, 615)]" by code_simp
  with bulk_requests_spaced [of "[(300, 310, Some [], replicate 5 ''1''), (330, 340, Some [], replicate 7 ''1''), (610, 615, Some [], replicate 11 ''1'')]" demoStats]
  show ?thesis by simp
qed

text \<open>A failed fetch never replaces what is known of a node, neither in the cache nor in the
  database: loading what was saved is the same as updating what was loaded.\<close>

lemma saved_stats_agree:
  assumes "distinct (map fst results)" and "distinct (map fst (stats_cache s))"
    and "\<forall>(num, st) \<in> set results. asError st = [] \<longrightarrow> Option.bind (marshal st) unmarshal = Some st"
  shows "map_of (loadFromDB unmarshal (saveStatsCacheToDB marshal results s) c) k =
      map_of (stats_update results (loadFromDB unmarshal s c)) k
    \<and> (\<forall>st. map_of results k = Some st \<and> asError st \<noteq> [] \<longrightarrow>
         map_of (stats_update results c) k = map_of c k)"
proof -
  let ?es = "fold (\<lambda>(num, st) es. if asError st \<noteq> [] then es
      else (case marshal st of None \<Rightarrow> es | Some raw \<Rightarrow> kv_upsert num raw es)) results []"
  have es: "map_of ?es k = Option.bind (map_of results k) (\<lambda>st. if asError st = [] then marshal st else None)"
    "distinct (map fst ?es)"
    using saved_entries [OF assms(1), of "[]" marshal]
    by (cases "Option.bind (map_of results k) (\<lambda>st. if asError st = [] then marshal st else None)"; simp)+
  have rows: "map_of (stats_cache (saveStatsCacheToDB marshal results s)) k =
      (case map_of ?es k of None \<Rightarrow> map_of (stats_cache s) k | Some v \<Rightarrow> Some v)"
    "distinct (map fst (stats_cache (saveStatsCacheToDB marshal results s)))"
    using es(2) assms(2) map_of_upsert_all [OF es(2)] upsert_all_distinct
    by (auto simp: saveStatsCacheToDB_def SaveStatsCache_def Let_def split: option.splits)
  have "map_of (loadFromDB unmarshal (saveStatsCacheToDB marshal results s) c) k =
      map_of (stats_update results (loadFromDB unmarshal s c)) k"
  proof (cases "map_of results k")
    case None
    then show ?thesis
      using rows es(1) assms(2) by (simp add: loadFromDB_def LoadStatsCache_def map_of_load map_of_stats_update [OF assms(1)])
  next
    case (Some st)
    show ?thesis
    proof (cases "asError st = []")
      case True
      with assms(3) map_of_SomeD [OF Some] have "Option.bind (marshal st) unmarshal = Some st" by fastforce
      then obtain raw where "marshal st = Some raw" "unmarshal raw = Some st" by (cases "marshal st") auto
      with Some True rows es(1) assms(2) show ?thesis
        by (simp add: loadFromDB_def LoadStatsCache_def map_of_load map_of_stats_update [OF assms(1)])
    next
      case False
      with Some rows es(1) assms(2) show ?thesis
        by (simp add: loadFromDB_def LoadStatsCache_def map_of_load map_of_stats_update [OF assms(1)])
    qed
  qed
  then show ?thesis by (simp add: map_of_stats_update [OF assms(1)])
qed

lemma saved_stats_agree_witness:
  "map_of (stats_update [(''2000'', error_stats 9 ''2000'' ''HTTP 500'')] [(''2000'', error_stats 1 ''2000'' [])]) ''2000''
     = Some (error_stats 1 ''2000'' [])"
proof -
  let ?r = "[(''2000'', error_stats 9 ''2000'' ''HTTP 500'')]"
  have "\<forall>(num, st) \<in> set ?r. asError st = [] \<longrightarrow> Option.bind (None :: string option) (\<lambda>_. None) = Some st"
    by (simp add: error_stats_def)
  from saved_stats_agree [of ?r store_empty "\<lambda>_. None" "\<lambda>_. None" "[(''2000'', error_stats 1 ''2000'' [])]" "''2000''"] this
  have "asError (error_stats 9 ''2000'' ''HTTP 500'') \<noteq> [] \<longrightarrow>
      map_of (stats_update ?r [(''2000'', error_stats 1 ''2000'' [])]) ''2000'' = map_of [(''2000'', error_stats 1 ''2000'' [])] ''2000''"
    by (simp add: store_empty_def)
  moreover have "asError (error_stats 9 ''2000'' ''HTTP 500'') \<noteq> []" by (simp add: error_stats_def)
  ultimately show ?thesis by simp
qed

text \<open>While no enabled node has a subscriber a poll changes nothing and fetches nothing.\<close>

lemma pollStats_idle:
  assumes "\<forall>n \<in> set (t_rows (nodes (ssStore sv))). nEnabled n \<longrightarrow> \<not> HasSubscribers (nID n) (lvBroker (ssLink sv))"
  shows "pollStats json marshal lookup start done bulk each sv = sv"
proof -
  have "poll_sets sv = []"
    using assms by (auto simp: poll_sets_def filter_empty_conv)
  then show ?thesis by (simp add: pollStats_def)
qed

lemma pollStats_idle_witness:
  "pollStats (\<lambda>m. []) (\<lambda>st. None) (\<lambda>n. None) 100 101 None (\<lambda>ns. []) demoStats = demoStats"
  by (rule pollStats_idle) (simp add: demoStats_def store_empty_def tbl_empty_def)

text \<open>a connect request reaches the radio only for a node that exists and a target that is
  given, as one \<open>ilink\<close> command of that node with a code of app_rpt, preceded by a disconnect of
  all exactly when it is exclusive and there are links; and without line breaks in the target and
  the number each action is read by the manager as that one command.\<close>

lemma connect_sends_ilink:
  assumes "handleConnect send s cache r body = (rep, acts)" and "acts \<noteq> []"
  shows "\<exists>n b code. body = Some b \<and> cbTarget b \<noteq> [] \<and> ParseInt (URLParam ''id'' r) = Some (nID n)
      \<and> GetNodeByID (nID n) s = Inr n \<and> code \<in> {''3'', ''13'', ''2'', ''12'', ''8'', ''18''}
      \<and> last acts = (nID n, command_action (''rpt cmd '' @ nNodeNumber n @ '' ilink '' @ code @ '' '' @ cbTarget b))
      \<and> butlast acts = (if cbExclusive b \<and> fst (links_get (nID n) cache) \<noteq> []
           then [(nID n, command_action (''rpt cmd '' @ nNodeNumber n @ '' ilink 6''))] else [])
      \<and> (no_newline (nNodeNumber n) \<and> no_newline (cbTarget b) \<longrightarrow>
           list_all (\<lambda>a. list_all header_ok (snd a)) acts)"
proof -
  from assms obtain nodeID n b where id: "ParseInt (URLParam ''id'' r) = Some nodeID"
    and n: "GetNodeByID nodeID s = Inr n" and b: "body = Some b" "cbTarget b \<noteq> []"
    by (auto simp: handleConnect_def Let_def split: option.splits sum.splits if_splits)
  have nid: "nodeID = nID n" using GetNodeByID_InrD [OF n] by simp
  define code where "code = (case map_of ilinkMap (cbMode b) of None \<Rightarrow> ''3'' | Some c \<Rightarrow> c)"
  define cmd where "cmd = ''rpt cmd '' @ nNodeNumber n @ '' ilink '' @ code @ '' '' @ cbTarget b"
  have code: "code \<in> {''3'', ''13'', ''2'', ''12'', ''8'', ''18''}"
    by (simp add: code_def ilinkMap_def split: option.splits)
  have acts: "acts = (if cbExclusive b \<and> fst (links_get (nID n) cache) \<noteq> []
      then [(nID n, command_action (''rpt cmd '' @ nNodeNumber n @ '' ilink 6''))] else []) @ [(nID n, command_action cmd)]"
    using assms(1) id n b
    by (auto simp: handleConnect_def Let_def nid code_def cmd_def split: sum.splits if_splits)
  have "no_newline code" using code by (auto simp: no_newline_def)
  then have "list_all (\<lambda>a. list_all header_ok (snd a)) acts" if "no_newline (nNodeNumber n)" "no_newline (cbTarget b)"
    using that by (auto simp: acts command_action_def header_ok_def Contains_def no_newline_def cmd_def)
  with id n b nid code acts show ?thesis
    by (intro exI [where x = n] exI [where x = b] exI [where x = code]) (simp add: cmd_def)
qed

definition demoReq :: "string \<Rightarrow> request" where
  "demoReq i = \<lparr>rqMethod = ''POST'', rqPath = ''/'', rqURI = ''/'', rqHost = ''h'', rqRemoteAddr = ''192.0.2.1:9'', rqTLS = True,
     rqHeader = [], rqCookies = [], rqForm = [], rqParam = [(''id'', i)]\<rparr>"

definition demoNode :: node where
  "demoNode = \<lparr>nID = 1, nName = ''hub'', nNodeNumber = ''2000'', nAMIHost = [], nAMIPort = 0,
     nAMIUser = ''admin'', nAMIPass = [], nEnabled = True, nDescription = [], nLocation = []\<rparr>"

definition demoNodeStore :: store where
  "demoNodeStore = snd (CreateNode demoNode store_empty)"

lemma connect_sends_ilink_witness:
  "\<exists>n b code. Some \<lparr>cbTarget = ''29332'', cbMode = ''monitor'', cbExclusive = True\<rparr> = Some b \<and> cbTarget b \<noteq> []
     \<and> GetNodeByID (nID n) demoNodeStore = Inr n \<and> code \<in> {''3'', ''13'', ''2'', ''12'', ''8'', ''18''}"
proof -
  let ?b = "Some \<lparr>cbTarget = ''29332'', cbMode = ''monitor'', cbExclusive = True\<rparr>"
  have "handleConnect (\<lambda>h. Inr []) demoNodeStore [] (demoReq ''1'') ?b =
    (Json 200 AmiOk, [(1, command_action ''rpt cmd 2000 ilink 2 29332'')])"
    by code_simp
  from connect_sends_ilink [OF this] show ?thesis by blast
qed

section \<open>Injected actions\<close>

text \<open>A target with a line break: the node's manager reads a second header, here another action.\<close>

lemma connect_injects:
  "(case handleConnect (\<lambda>h. Inr []) demoNodeStore [] (demoReq ''1'')
      (Some \<lparr>cbTarget = ''1'' @ CRLF @ ''Action: Logoff'', cbMode = [], cbExclusive = False\<rparr>) of
     (rep, acts) \<Rightarrow> clEvents (snd (snd (readLoop (ReadLines (writeAction (snd (hd acts)))) [] NewClient))))
   = [[(''Action'', ''Logoff''), (''Command'', ''rpt cmd 2000 ilink 3 1'')]]"
  by code_simp

text \<open>A failing bulk request is made again at every poll: only a success starts the five minutes.\<close>

lemma failed_bulk_retried:
  "uses_bulk 330 (replicate 11 ''1'') (snd (fetchAdaptive 300 301 None (\<lambda>_. []) (replicate 11 ''1'') demoStats))"
  by code_simp

end
