(* ===== verification/Backup_File.thy ===== *)
theory Backup_File
  imports Db_Passkeys "HOL-Library.Word"
begin

unbundle bit_operations_syntax

text \<open>
  \<open>internal/backup/backup.go\<close> and \<open>encrypt.go\<close>: the \<open>.owbackup\<close> file, a header with a
  32-bit manifest length, the manifest in JSON and the body, a tar.gz archive that may be
  encrypted. The JSON, archive and cipher packages are the fields of a \<open>codec\<close>; the file system
  is a map from paths to contents.
\<close>

section \<open>The file format\<close>

record Manifest =
  mfFormat :: string
  mfFormatVersion :: int
  mfAppVersion :: string
  mfSchemaVersion :: nat
  mfCreatedAt :: int
  mfHostname :: string
  mfEncrypted :: bool
  mfContents :: Stats

record codec =
  cManifestJSON :: "Manifest \<Rightarrow> string"
  cManifestIndent :: "Manifest \<Rightarrow> string"
  cManifestParse :: "string \<Rightarrow> Manifest option"
  cArchive :: "(string \<times> string) list \<Rightarrow> string"
  cUnarchive :: "string \<Rightarrow> (string \<times> string) list \<times> bool"
  cKDF :: "string \<Rightarrow> string \<Rightarrow> string"
  cSeal :: "string \<Rightarrow> string \<Rightarrow> string \<Rightarrow> string"
  cOpen :: "string \<Rightarrow> string \<Rightarrow> string \<Rightarrow> string option"

definition fileMagic :: string where "fileMagic = ''YAAM''"
definition fileFormatVersion :: "8 word" where "fileFormatVersion = 1"
definition flagEncrypted :: "8 word" where "flagEncrypted = 1"

definition byte_char :: "8 word \<Rightarrow> char" where
  "byte_char w = char_of (unat w)"

definition char_byte :: "char \<Rightarrow> 8 word" where
  "char_byte c = word_of_nat (of_char c)"

text \<open>\<open>binary.BigEndian\<close>.\<close>

definition PutUint32 :: "32 word \<Rightarrow> string" where
  "PutUint32 w = [char_of (unat w div 2 ^ 24), char_of (unat w div 2 ^ 16), char_of (unat w div 2 ^ 8), char_of (unat w)]"

definition Uint32 :: "string \<Rightarrow> 32 word" where
  "Uint32 s = word_of_nat (foldl (\<lambda>n c. n * 256 + of_char c) 0 (take 4 s))"

datatype backup_error =
    FileTooShort
  | BadMagic
  | ManifestTooLong
  | SlicePanic
  | CorruptManifest
  | PassphraseRequired
  | DataTooShort
  | DecryptionFailed
  | BadArchive
  | NoDatabaseInArchive
  | PreRestoreBackup
  | PreRestoreWrite
  | TempFile
  | WriteRestoreFile
  | ReplaceDatabase

text \<open>
  \<open>splitFile\<close>. \<open>10+mlen\<close> is a sum of 32-bit words, converted to \<open>int\<close> only after it has
  wrapped; a wrapped bound below 10 passes the length check and the slice \<open>data[10:10+mlen]\<close>
  panics.
\<close>

definition splitFile :: "codec \<Rightarrow> string \<Rightarrow> backup_error + (8 word \<times> Manifest \<times> string)" where
  "splitFile cd data =
     (if length data < 4 + 1 + 1 + 4 then Inl FileTooShort
      else if take 4 data \<noteq> fileMagic then Inl BadMagic
      else let flags = char_byte (data ! 5);
               mlen = Uint32 (take 4 (drop 6 data));
               upto = unat (10 + mlen)
           in if length data < upto then Inl ManifestTooLong
              else if upto < 10 then Inl SlicePanic
              else (case cManifestParse cd (drop 10 (take upto data)) of
                  None \<Rightarrow> Inl CorruptManifest
                | Some m \<Rightarrow> Inr (flags, m, drop upto data)))"

definition Inspect :: "codec \<Rightarrow> string \<Rightarrow> backup_error + Manifest" where
  "Inspect cd data = bindE (splitFile cd data) (\<lambda>(flags, m, body). Inr m)"

section \<open>Encryption\<close>

definition saltLen :: nat where "saltLen = 16"
definition nonceLen :: nat where "nonceLen = 12"

definition encrypt :: "codec \<Rightarrow> string \<Rightarrow> string \<Rightarrow> string \<Rightarrow> string \<Rightarrow> string" where
  "encrypt cd salt nonce plaintext passphrase =
     salt @ nonce @ cSeal cd (cKDF cd passphrase salt) nonce plaintext"

definition decrypt :: "codec \<Rightarrow> string \<Rightarrow> string \<Rightarrow> backup_error + string" where
  "decrypt cd data passphrase =
     (if length data < saltLen + nonceLen then Inl DataTooShort
      else let salt = take saltLen data;
               nonce = take nonceLen (drop saltLen data);
               ciphertext = drop (saltLen + nonceLen) data
           in (case cOpen cd (cKDF cd passphrase salt) nonce ciphertext of
                 None \<Rightarrow> Inl DecryptionFailed | Some p \<Rightarrow> Inr p))"

section \<open>Archives\<close>

definition buildTarGz :: "codec \<Rightarrow> string \<Rightarrow> Manifest \<Rightarrow> string" where
  "buildTarGz cd dbData manifest =
     cArchive cd [(''manifest.json'', cManifestIndent cd manifest), (''yaamon.db'', dbData)]"

text \<open>\<open>cUnarchive\<close> gives the entries that can be read and whether reading ended in an error.\<close>

definition extractDBFromTarGz :: "codec \<Rightarrow> string \<Rightarrow> backup_error + string" where
  "extractDBFromTarGz cd data =
     (case cUnarchive cd data of (entries, failed) \<Rightarrow>
        (case find (\<lambda>e. fst e = ''yaamon.db'') entries of
           Some e \<Rightarrow> Inr (snd e)
         | None \<Rightarrow> Inl (if failed then BadArchive else NoDatabaseInArchive)))"

section \<open>Creating a backup\<close>

text \<open>
  What a backup reads of its surroundings: the version and content of the open database
  (\<open>dump\<close> is the file SQLite's VACUUM INTO writes), host name, clock and random bytes.
\<close>

record backup_env =
  beSchema :: nat
  beStats :: Stats
  beDump :: string
  beHostname :: string
  beNow :: int
  beSalt :: string
  beNonce :: string

definition manifestOf :: "backup_env \<Rightarrow> string \<Rightarrow> bool \<Rightarrow> Manifest" where
  "manifestOf env appVersion encrypted =
     \<lparr>mfFormat = ''owbackup'', mfFormatVersion = 1, mfAppVersion = appVersion,
      mfSchemaVersion = beSchema env, mfCreatedAt = beNow env, mfHostname = beHostname env,
      mfEncrypted = encrypted, mfContents = beStats env\<rparr>"

definition Create :: "codec \<Rightarrow> backup_env \<Rightarrow> string \<Rightarrow> string \<Rightarrow> string \<times> Manifest" where
  "Create cd env appVersion passphrase =
     (let manifest = manifestOf env appVersion (passphrase \<noteq> []);
          tarGz = buildTarGz cd (beDump env) manifest;
          body = (if passphrase \<noteq> [] then encrypt cd (beSalt env) (beNonce env) tarGz passphrase else tarGz);
          manifestJSON = cManifestJSON cd manifest;
          flags = (if passphrase \<noteq> [] then 0 OR flagEncrypted else 0)
      in (fileMagic @ [byte_char fileFormatVersion] @ [byte_char flags] @
          PutUint32 (word_of_nat (length manifestJSON)) @ manifestJSON @ body, manifest))"

section \<open>Restoring\<close>

text \<open>
  How the file operations end. The pre-restore backup cannot be made, or its file cannot be written, with
  what is left of it; the temporary file cannot be made, or its write fails after a part, or it is written
  and closed, where an error of \<open>Close\<close> is ignored and may leave less than was written; the rename fails or
  not. A temporary file that is given up is removed, which may fail (the \<open>bool\<close>) and is ignored.
\<close>

datatype pre_outcome = PreBackupFails | PreWriteFails "string option" | PreWritten
datatype temp_outcome = TempNotMade | TempWriteFails string bool | TempClosed "string option"
datatype rename_outcome = Renames | RenameFailed bool

record io_result =
  ioPre :: pre_outcome
  ioTempName :: string
  ioTemp :: temp_outcome
  ioRename :: rename_outcome

definition io_ok :: "string \<Rightarrow> io_result" where
  "io_ok tmpName = \<lparr>ioPre = PreWritten, ioTempName = tmpName, ioTemp = TempClosed None, ioRename = Renames\<rparr>"

definition give_up :: "bool \<Rightarrow> string \<Rightarrow> (string \<rightharpoonup> string) list \<Rightarrow> (string \<rightharpoonup> string) list" where
  "give_up removes tmpName states = (if removes then states @ [(last states)(tmpName := None)] else states)"

text \<open>
  From the extracted database on: the path and the error returned, and the states the files go through
  from the one before, the last the one that is left. The rename is one step.
\<close>

definition replace_db :: "io_result \<Rightarrow> string \<Rightarrow> string \<Rightarrow> string \<Rightarrow> string \<Rightarrow> (string \<rightharpoonup> string)
    \<Rightarrow> (string \<times> backup_error option) \<times> (string \<rightharpoonup> string) list" where
  "replace_db io dbPath preRestorePath preData dbBytes fs =
     (case ioPre io of
        PreBackupFails \<Rightarrow> (([], Some PreRestoreBackup), [fs])
      | PreWriteFails left \<Rightarrow>
          (([], Some PreRestoreWrite), [fs, case left of None \<Rightarrow> fs | Some part \<Rightarrow> fs(preRestorePath \<mapsto> part)])
      | PreWritten \<Rightarrow>
          let fs1 = fs(preRestorePath \<mapsto> preData); tmp = ioTempName io in
          case ioTemp io of
            TempNotMade \<Rightarrow> ((preRestorePath, Some TempFile), [fs, fs1])
          | TempWriteFails part removes \<Rightarrow>
              ((preRestorePath, Some WriteRestoreFile), give_up removes tmp [fs, fs1, fs1(tmp \<mapsto> []), fs1(tmp \<mapsto> part)])
          | TempClosed lost \<Rightarrow>
              let content = (case lost of None \<Rightarrow> dbBytes | Some part \<Rightarrow> part);
                  states = [fs, fs1, fs1(tmp \<mapsto> []), fs1(tmp \<mapsto> content)]
              in case ioRename io of
                   RenameFailed removes \<Rightarrow> ((preRestorePath, Some ReplaceDatabase), give_up removes tmp states)
                 | Renames \<Rightarrow> ((preRestorePath, None), states @ [fs1(tmp := None, dbPath \<mapsto> content)]))"

definition restored_db :: "codec \<Rightarrow> string \<Rightarrow> string \<Rightarrow> backup_error + string" where
  "restored_db cd data passphrase =
     bindE (splitFile cd data) (\<lambda>(flags, manifest, body).
       bindE (if flags AND flagEncrypted \<noteq> 0
              then if passphrase = [] then Inl PassphraseRequired else decrypt cd body passphrase
              else Inr body)
         (\<lambda>body. extractDBFromTarGz cd body))"

definition restore_states :: "codec \<Rightarrow> backup_env \<Rightarrow> io_result \<Rightarrow> string \<Rightarrow> string \<Rightarrow> string \<Rightarrow> string \<Rightarrow> string
    \<Rightarrow> (string \<rightharpoonup> string) \<Rightarrow> (string \<times> backup_error option) \<times> (string \<rightharpoonup> string) list" where
  "restore_states cd env io dbPath preRestorePath appVersion data passphrase fs =
     (case restored_db cd data passphrase of
        Inl e \<Rightarrow> (([], Some e), [fs])
      | Inr dbBytes \<Rightarrow> replace_db io dbPath preRestorePath (fst (Create cd env appVersion [])) dbBytes fs)"

definition Restore :: "codec \<Rightarrow> backup_env \<Rightarrow> io_result \<Rightarrow> string \<Rightarrow> string \<Rightarrow> string \<Rightarrow> string \<Rightarrow> string
    \<Rightarrow> (string \<rightharpoonup> string) \<Rightarrow> (string \<times> backup_error option) \<times> (string \<rightharpoonup> string)" where
  "Restore cd env io dbPath preRestorePath appVersion data passphrase fs =
     (case restore_states cd env io dbPath preRestorePath appVersion data passphrase fs of (r, states) \<Rightarrow> (r, last states))"

section \<open>Bytes and lengths\<close>

lemma byte_char_inverse: "char_byte (byte_char w) = w"
proof -
  have "unat w < 256" using unsigned_less [of w] by simp
  then show ?thesis by (simp add: char_byte_def byte_char_def of_char_of)
qed

lemma horner_bytes: "((n div 2 ^ 24 * 256 + n div 2 ^ 16 mod 256) * 256 + n div 2 ^ 8 mod 256) * 256 + n mod 256
    = (n :: nat)"
proof -
  have 2: "n div 2 ^ 24 * 256 + n div 2 ^ 16 mod 256 = n div 2 ^ 16"
    using div_mult_mod_eq [of "n div 2 ^ 16" 256] by (simp flip: div_mult2_eq)
  have 3: "n div 2 ^ 16 * 256 + n div 2 ^ 8 mod 256 = n div 2 ^ 8"
    using div_mult_mod_eq [of "n div 2 ^ 8" 256] by (simp flip: div_mult2_eq)
  have 4: "n div 2 ^ 8 * 256 + n mod 256 = n"
    using div_mult_mod_eq [of n 256] by simp
  show ?thesis unfolding 2 3 4 ..
qed

lemma length_PutUint32 [simp]: "length (PutUint32 w) = 4"
  by (simp add: PutUint32_def)

lemma Uint32_PutUint32: "Uint32 (PutUint32 w) = w"
proof -
  have "unat w < 2 ^ 32" using unsigned_less [of w] by simp
  with horner_bytes [of "unat w"]
  have "foldl (\<lambda>n c. n * 256 + of_char c) 0 (take 4 (PutUint32 w)) = unat w"
    by (simp add: PutUint32_def of_char_of)
  then show ?thesis by (simp add: Uint32_def)
qed

lemma unat_add10: "unat (10 + w :: 32 word) = (10 + unat w) mod 2 ^ 32"
  by (simp add: unat_word_ariths)

text \<open>The file a backup writes, split again.\<close>

lemma splitFile_layout:
  assumes "length j + 10 < 2 ^ 32"
  shows "splitFile cd (fileMagic @ [v] @ [byte_char flags] @ PutUint32 (word_of_nat (length j)) @ j @ body)
    = (case cManifestParse cd j of None \<Rightarrow> Inl CorruptManifest | Some m \<Rightarrow> Inr (flags, m, body))"
proof -
  have "unat (word_of_nat (length j) :: 32 word) = length j"
    using assms by (simp add: unat_of_nat)
  then have upto: "unat (10 + (word_of_nat (length j) :: 32 word)) = 10 + length j"
    using assms by (simp only: unat_add10) simp
  let ?h = "fileMagic @ [v] @ [byte_char flags] @ PutUint32 (word_of_nat (length j))"
  have h: "length ?h = 10" "take 4 (?h @ xs) = fileMagic" "(?h @ xs) ! 5 = byte_char flags"
    "take 4 (drop 6 (?h @ xs)) = PutUint32 (word_of_nat (length j))" for xs
    by (simp_all add: fileMagic_def PutUint32_def)
  have all: "fileMagic @ [v] @ [byte_char flags] @ PutUint32 (word_of_nat (length j)) @ j @ body = ?h @ j @ body"
    by simp
  have split: "drop 10 (take (10 + length j) (?h @ j @ body)) = j" "drop (10 + length j) (?h @ j @ body) = body"
    using h(1) by (simp_all del: append_assoc append_Cons add: append_assoc [symmetric])
  have len: "length (?h @ j @ body) = 10 + length j + length body" using h(1) by simp
  show ?thesis
    unfolding all
    by (simp only: splitFile_def Let_def h(2-4) Uint32_PutUint32 upto split len byte_char_inverse) simp
qed

lemma decrypt_encrypt:
  assumes "length salt = 16" and "length nonce = 12"
    and "cOpen cd (cKDF cd pass salt) nonce (cSeal cd (cKDF cd pass salt) nonce p) = Some p"
  shows "decrypt cd (encrypt cd salt nonce p pass) pass = Inr p"
  using assms by (simp add: decrypt_def encrypt_def saltLen_def nonceLen_def Let_def)

text \<open>The archive of a backup, opened again.\<close>

definition archive_reads_back :: "codec \<Rightarrow> backup_env \<Rightarrow> Manifest \<Rightarrow> bool" where
  "archive_reads_back cd env m \<longleftrightarrow>
     cUnarchive cd (buildTarGz cd (beDump env) m) =
       ([(''manifest.json'', cManifestIndent cd m), (''yaamon.db'', beDump env)], False)"

definition manifest_reads_back :: "codec \<Rightarrow> Manifest \<Rightarrow> bool" where
  "manifest_reads_back cd m \<longleftrightarrow> cManifestParse cd (cManifestJSON cd m) = Some m"

definition cipher_opens :: "codec \<Rightarrow> backup_env \<Rightarrow> string \<Rightarrow> string \<Rightarrow> bool" where
  "cipher_opens cd env pass p \<longleftrightarrow> length (beSalt env) = 16 \<and> length (beNonce env) = 12
     \<and> cOpen cd (cKDF cd pass (beSalt env)) (beNonce env) (cSeal cd (cKDF cd pass (beSalt env)) (beNonce env) p) = Some p"

lemma splitFile_Create:
  assumes "manifest_reads_back cd (manifestOf env app (pass \<noteq> []))"
    and "length (cManifestJSON cd (manifestOf env app (pass \<noteq> []))) + 10 < 2 ^ 32"
  shows "splitFile cd (fst (Create cd env app pass)) =
    Inr (if pass = [] then 0 else 1, manifestOf env app (pass \<noteq> []),
      if pass = [] then buildTarGz cd (beDump env) (manifestOf env app False)
      else encrypt cd (beSalt env) (beNonce env) (buildTarGz cd (beDump env) (manifestOf env app True)) pass)"
  using splitFile_layout [OF assms(2)] assms(1)
  by (simp add: Create_def Let_def manifest_reads_back_def flagEncrypted_def)

lemma extract_archive:
  "archive_reads_back cd env m \<Longrightarrow> extractDBFromTarGz cd (buildTarGz cd (beDump env) m) = Inr (beDump env)"
  by (simp add: extractDBFromTarGz_def archive_reads_back_def)

lemma splitFile_SlicePanic:
  "splitFile cd data = Inl SlicePanic \<longleftrightarrow>
     10 \<le> length data \<and> take 4 data = ''YAAM'' \<and> 2 ^ 32 - 10 \<le> unat (Uint32 (take 4 (drop 6 data)))"
proof -
  let ?w = "Uint32 (take 4 (drop 6 data))"
  have lt: "unat ?w < 2 ^ 32" using unsigned_less [of ?w] by simp
  show ?thesis
  proof (cases "2 ^ 32 - 10 \<le> unat ?w")
    case True
    have "unat (10 + ?w) = 10 + unat ?w - 2 ^ 32"
      unfolding unat_add10 using True lt by (simp add: mod_if)
    then have "unat (10 + ?w) < 10" using lt by simp
    with True show ?thesis
      by (auto simp: splitFile_def Let_def fileMagic_def)
  next
    case False
    then have "unat (10 + ?w) = 10 + unat ?w" by (simp add: unat_add10)
    with False show ?thesis by (auto simp: splitFile_def Let_def split: option.splits)
  qed
qed

section \<open>Properties\<close>

text \<open>A backup that is restored with the passphrase it was made with puts the database it was
  made of in place of the current one, beside a backup of the latter.\<close>

lemma restored_db_Create:
  assumes "manifest_reads_back cd (manifestOf env app (pass \<noteq> []))"
    and "length (cManifestJSON cd (manifestOf env app (pass \<noteq> []))) + 10 < 2 ^ 32"
    and "archive_reads_back cd env (manifestOf env app (pass \<noteq> []))"
    and "pass \<noteq> [] \<longrightarrow> cipher_opens cd env pass (buildTarGz cd (beDump env) (manifestOf env app True))"
  shows "restored_db cd (fst (Create cd env app pass)) pass = Inr (beDump env)"
proof (cases "pass = []")
  case True
  with assms(3) extract_archive show ?thesis
    unfolding restored_db_def splitFile_Create [OF assms(1,2)] by (simp add: flagEncrypted_def)
next
  case False
  with assms(4) have "decrypt cd (encrypt cd (beSalt env) (beNonce env)
      (buildTarGz cd (beDump env) (manifestOf env app True)) pass) pass
      = Inr (buildTarGz cd (beDump env) (manifestOf env app True))"
    by (intro decrypt_encrypt) (simp_all add: cipher_opens_def)
  with False assms(3) extract_archive show ?thesis
    unfolding restored_db_def splitFile_Create [OF assms(1,2)] by (simp add: flagEncrypted_def)
qed

text \<open>\<open>CreateTemp\<close> makes a file that was not there.\<close>

lemma backup_restores:
  assumes "manifest_reads_back cd (manifestOf env app (pass \<noteq> []))"
    and "length (cManifestJSON cd (manifestOf env app (pass \<noteq> []))) + 10 < 2 ^ 32"
    and "archive_reads_back cd env (manifestOf env app (pass \<noteq> []))"
    and "pass \<noteq> [] \<longrightarrow> cipher_opens cd env pass (buildTarGz cd (beDump env) (manifestOf env app True))"
    and "fs tmp = None" and "tmp \<noteq> pre"
  shows "Restore cd env' (io_ok tmp) dbPath pre app' (fst (Create cd env app pass)) pass fs
    = ((pre, None), fs(pre \<mapsto> fst (Create cd env' app' []), dbPath \<mapsto> beDump env))"
proof -
  have "(fs(pre \<mapsto> x))(tmp := None) = fs(pre \<mapsto> x)" for x using assms(5,6) by (auto simp: fun_eq_iff)
  then show ?thesis
    by (simp add: Restore_def restore_states_def restored_db_Create [OF assms(1-4)] replace_db_def io_ok_def Let_def)
qed

definition demoEnv :: backup_env where
  "demoEnv = \<lparr>beSchema = 11, beStats = \<lparr>stNodes = 1, stFavorites = 0, stUsers = 1, stConfigs = 0\<rparr>,
     beDump = ''SQLite format 3'', beHostname = ''hub'', beNow = 0, beSalt = ''0123456789abcdef'',
     beNonce = ''0123456789ab''\<rparr>"

definition demoCodec :: codec where
  "demoCodec = \<lparr>cManifestJSON = (\<lambda>m. ''{}''), cManifestIndent = (\<lambda>m. ''{ }''),
     cManifestParse = (\<lambda>s. if s = ''{}'' then Some (manifestOf demoEnv ''1.0'' True) else None),
     cArchive = concat \<circ> map snd,
     cUnarchive = (\<lambda>s. ([(''manifest.json'', take 3 s), (''yaamon.db'', drop 3 s)], False)),
     cKDF = (@), cSeal = (\<lambda>k n p. rev p), cOpen = (\<lambda>k n c. Some (rev c))\<rparr>"

lemma backup_restores_witness:
  "Restore demoCodec demoEnv (io_ok ''/tmp'') ''/db'' ''/pre'' ''1.0''
      (fst (Create demoCodec demoEnv ''1.0'' ''secret'')) ''secret'' Map.empty
    = ((''/pre'', None), [''/pre'' \<mapsto> fst (Create demoCodec demoEnv ''1.0'' []), ''/db'' \<mapsto> ''SQLite format 3''])"
proof -
  have "Restore demoCodec demoEnv (io_ok ''/tmp'') ''/db'' ''/pre'' ''1.0''
      (fst (Create demoCodec demoEnv ''1.0'' ''secret'')) ''secret'' Map.empty
    = ((''/pre'', None), [''/pre'' \<mapsto> fst (Create demoCodec demoEnv ''1.0'' []), ''/db'' \<mapsto> beDump demoEnv])"
    by (rule backup_restores)
      (simp_all add: manifest_reads_back_def archive_reads_back_def cipher_opens_def buildTarGz_def
        demoCodec_def, simp_all add: demoEnv_def)
  then show ?thesis by (simp add: demoEnv_def)
qed

definition temp_left :: "io_result \<Rightarrow> bool" where
  "temp_left io \<longleftrightarrow> (\<exists>part. ioTemp io = TempWriteFails part False) \<or> ioRename io = RenameFailed False"



lemma replace_db_end:
  assumes "replace_db io dbPath pre backup db fs = ((p, err), states)"
    and "dbPath \<notin> {pre, ioTempName io}" and "pre \<noteq> ioTempName io" and "fs (ioTempName io) = None"
  shows "\<not> temp_left io \<Longrightarrow> last states (ioTempName io) = None"
    "err \<noteq> None \<Longrightarrow> last states dbPath = fs dbPath"
    "err = None \<Longrightarrow> p = pre \<and> last states pre = Some backup \<and> (ioTemp io = TempClosed None \<longrightarrow> last states dbPath = Some db)"
  using assms
  by (auto simp: replace_db_def Let_def give_up_def temp_left_def split: pre_outcome.splits temp_outcome.splits
      rename_outcome.splits option.splits if_splits)

lemma Restore_failed:
  assumes "Restore cd env io dbPath pre app data pass fs = ((p, Some e), fs')"
    and "dbPath \<notin> {pre, ioTempName io}" and "pre \<noteq> ioTempName io" and "fs (ioTempName io) = None"
  shows "fs' dbPath = fs dbPath"
  using assms(1) replace_db_end(2) [where io = io and dbPath = dbPath and pre = pre and fs = fs, OF _ assms(2-4)]
  by (fastforce simp: Restore_def restore_states_def split: sum.splits prod.splits)

lemma Restore_succeeded:
  assumes "Restore cd env io dbPath pre app data pass fs = ((p, None), fs')"
    and "dbPath \<notin> {pre, ioTempName io}" and "pre \<noteq> ioTempName io" and "fs (ioTempName io) = None"
  shows "p = pre \<and> fs' pre = Some (fst (Create cd env app []))"
  using assms(1) replace_db_end(3) [where io = io and dbPath = dbPath and pre = pre and fs = fs, OF _ assms(2-4)]
  by (fastforce simp: Restore_def restore_states_def split: sum.splits prod.splits)




text \<open>An error of closing the temporary file is not looked at: a database cut short is put in place.\<close>

lemma close_error_unnoticed:
  "replace_db ((io_ok ''/tmp'')\<lparr>ioTemp := TempClosed (Some ''SQLi'')\<rparr>) ''/db'' ''/pre'' backup ''SQLite format 3'' [''/db'' \<mapsto> ''old'']
    = ((''/pre'', None), states) \<Longrightarrow> last states ''/db'' = Some ''SQLi''"
  by (auto simp: replace_db_def io_ok_def Let_def)

text \<open>C40: reading a file panics exactly when its manifest length is within ten of the largest
  32-bit word: the sum with the header's length wraps, and passes the check against the file's.\<close>

theorem splitFile_panics_iff:
  "splitFile cd data = Inl SlicePanic \<longleftrightarrow>
     10 \<le> length data \<and> take 4 data = ''YAAM'' \<and> 4294967286 \<le> unat (Uint32 (take 4 (drop 6 data)))"
  using splitFile_SlicePanic [of cd data] by simp

end
