(* ===== verification/Favorites_Ini.thy ===== *)
theory Favorites_Ini
  imports Db_Tables
begin

text \<open>
  \<open>internal/backup/ini.go\<close> and \<open>allmon3.go\<close>: the favorites.ini format of AllScan and
  Supermon, read and written, and the node sections of an Allmon3 configuration.
\<close>

section \<open>Node numbers and labels\<close>

definition isNodeNumber :: "string \<Rightarrow> bool" where
  "isNodeNumber s \<longleftrightarrow> s \<noteq> [] \<and> length s \<le> 10 \<and> list_all is_digit s"

definition isAlphanumeric :: "string \<Rightarrow> bool" where
  "isAlphanumeric s \<longleftrightarrow> list_all (\<lambda>c. is_letter c \<or> is_digit c) s"

definition containsDigit :: "string \<Rightarrow> bool" where
  "containsDigit s \<longleftrightarrow> list_ex is_digit s"

definition parseLabel :: "string \<Rightarrow> string \<times> string" where
  "parseLabel label0 =
     (let label = TrimSpace label0 in
      if label = [] then ([], [])
      else let parts = SplitN label (CHR '' '') 2;
               first = parts ! 0
           in if 3 \<le> length first \<and> length first \<le> 7 \<and> isAlphanumeric first \<and> containsDigit first
              then (ToUpper first, if 1 < length parts then TrimSpace (parts ! 1) else [])
              else ([], label))"

section \<open>favorites.ini\<close>

text \<open>\<open>stamp\<close> is the formatted time of the export.\<close>

definition export_fav :: "string \<Rightarrow> favorite \<Rightarrow> string" where
  "export_fav homeNodeNum f =
     ''[node_'' @ fNodeNumber f @ '']'' @ [LF] @
     ''cmd[] = \"rpt cmd '' @ homeNodeNum @ '' ilink 3 '' @ fNodeNumber f @ ''\"'' @ [LF, LF]"

definition ExportINI :: "string \<Rightarrow> favorite list \<Rightarrow> string \<Rightarrow> string" where
  "ExportINI stamp favs homeNodeNum =
     ''; YAAMon favorites export'' @ [LF] @
     ''; Home node: '' @ homeNodeNum @ [LF] @
     ''; Exported: '' @ stamp @ [LF] @ [LF] @
     concat (map (export_fav homeNodeNum) favs)"

record ImportedFav =
  ifNodeNumber :: string
  ifCallsign :: string
  ifDescription :: string

record ini_state =
  iniFavs :: "ImportedFav list"
  iniSeen :: "string set"
  iniLabel :: string

definition ini_start :: ini_state where
  "ini_start = \<lparr>iniFavs = [], iniSeen = {}, iniLabel = []\<rparr>"

text \<open>Appending a favorite unless its number is no node number or has been seen.\<close>

definition ini_add :: "ImportedFav \<Rightarrow> ini_state \<Rightarrow> ini_state" where
  "ini_add f st =
     (if isNodeNumber (ifNodeNumber f) \<and> ifNodeNumber f \<notin> iniSeen st
      then st\<lparr>iniFavs := iniFavs st @ [f], iniSeen := insert (ifNodeNumber f) (iniSeen st)\<rparr> else st)"

definition ini_line :: "string \<Rightarrow> ini_state \<Rightarrow> ini_state" where
  "ini_line raw st =
     (let line = TrimSpace raw in
      if line = [] \<or> HasPrefix line '';'' then st
      else if HasPrefix line ''['' \<and> HasSuffix line '']'' then
        (let num = TrimSpace (TrimPrefix (butlast (tl line)) ''node_'')
         in (ini_add \<lparr>ifNodeNumber = num, ifCallsign = [], ifDescription = []\<rparr> st)\<lparr>iniLabel := []\<rparr>)
      else if HasPrefix line ''label[]'' then
        (case Index line ''='' of
           None \<Rightarrow> st
         | Some eq \<Rightarrow> st\<lparr>iniLabel := Trim (TrimSpace (drop (eq + 1) line)) ''\"''\<rparr>)
      else if HasPrefix line ''cmd[]'' then
        (let parts = Fields line
         in (if 2 \<le> length parts
             then (case parseLabel (iniLabel st) of (cs, desc) \<Rightarrow>
                 ini_add \<lparr>ifNodeNumber = Trim (last parts) ''\"'', ifCallsign = cs, ifDescription = desc\<rparr> st)
             else st)\<lparr>iniLabel := []\<rparr>)
      else st)"

text \<open>The favorites read, and whether the scanner stopped at a line that is too long.\<close>

definition ParseINI :: "string \<Rightarrow> ImportedFav list \<times> bool" where
  "ParseINI data =
     (case ScanLines data of (ls, tooLong) \<Rightarrow> (iniFavs (fold ini_line ls ini_start), tooLong))"

section \<open>allmon3.ini\<close>

record AllmonNode =
  anNodeNumber :: string
  anAMIHost :: string
  anAMIPort :: int
  anAMIUser :: string
  anAMIPass :: string

record allmon_state =
  amNodes :: "AllmonNode list"
  amCur :: "AllmonNode option"

definition allmon_flush :: "allmon_state \<Rightarrow> allmon_state" where
  "allmon_flush st =
     (case amCur st of None \<Rightarrow> st | Some n \<Rightarrow> \<lparr>amNodes = amNodes st @ [n], amCur = None\<rparr>)"

definition allmon_set :: "string \<Rightarrow> string \<Rightarrow> AllmonNode \<Rightarrow> AllmonNode" where
  "allmon_set key val n =
     (if key = ''host'' then n\<lparr>anAMIHost := val\<rparr>
      else if key = ''port'' then (case ParseInt val of None \<Rightarrow> n | Some p \<Rightarrow> n\<lparr>anAMIPort := p\<rparr>)
      else if key = ''user'' then n\<lparr>anAMIUser := val\<rparr>
      else if key = ''pass'' then n\<lparr>anAMIPass := val\<rparr>
      else n)"

definition allmon_line :: "string \<Rightarrow> allmon_state \<Rightarrow> allmon_state" where
  "allmon_line raw st =
     (let line = TrimSpace raw in
      if line = [] \<or> HasPrefix line '';'' \<or> HasPrefix line ''#'' then st
      else if HasPrefix line ''['' \<and> HasSuffix line '']'' then
        (let st' = allmon_flush st; inner = TrimSpace (butlast (tl line))
         in if isNodeNumber inner
            then st'\<lparr>amCur := Some \<lparr>anNodeNumber = inner, anAMIHost = ''localhost'', anAMIPort = 5038,
                   anAMIUser = [], anAMIPass = []\<rparr>\<rparr>
            else st')
      else (case amCur st of
          None \<Rightarrow> st
        | Some n \<Rightarrow> (case Index line ''='' of
              None \<Rightarrow> st
            | Some eq \<Rightarrow> st\<lparr>amCur := Some (allmon_set (ToLower (TrimSpace (take eq line)))
                             (TrimSpace (drop (eq + 1) line)) n)\<rparr>)))"

definition ParseAllmon3INI :: "string \<Rightarrow> AllmonNode list \<times> bool" where
  "ParseAllmon3INI data =
     (case ScanLines data of (ls, tooLong) \<Rightarrow>
        (amNodes (allmon_flush (fold allmon_line ls \<lparr>amNodes = [], amCur = None\<rparr>)), tooLong))"

section \<open>What the parsers keep\<close>

definition ini_ok :: "ini_state \<Rightarrow> bool" where
  "ini_ok st \<longleftrightarrow> iniSeen st = ifNodeNumber ` set (iniFavs st) \<and> distinct (map ifNodeNumber (iniFavs st))
     \<and> list_all (\<lambda>f. isNodeNumber (ifNodeNumber f)) (iniFavs st)"

lemma ini_add_ok: "ini_ok st \<Longrightarrow> ini_ok (ini_add f st)"
  by (auto simp: ini_ok_def ini_add_def list_all_iff)

lemma ini_label_ok [simp]: "ini_ok (st\<lparr>iniLabel := l\<rparr>) = ini_ok st"
  by (simp add: ini_ok_def)

lemma ini_line_ok: "ini_ok st \<Longrightarrow> ini_ok (ini_line raw st)"
  by (simp add: ini_line_def Let_def ini_add_ok split: option.splits prod.splits)

lemma fold_ini_ok: "ini_ok st \<Longrightarrow> ini_ok (fold ini_line ls st)"
  by (induction ls arbitrary: st) (simp_all add: ini_line_ok)

definition allmon_ok :: "allmon_state \<Rightarrow> bool" where
  "allmon_ok st \<longleftrightarrow> list_all (\<lambda>n. isNodeNumber (anNodeNumber n)) (amNodes st)
     \<and> (case amCur st of None \<Rightarrow> True | Some n \<Rightarrow> isNodeNumber (anNodeNumber n))"

lemma allmon_flush_ok: "allmon_ok st \<Longrightarrow> allmon_ok (allmon_flush st) \<and> amCur (allmon_flush st) = None"
  by (simp add: allmon_ok_def allmon_flush_def split: option.splits)

lemma allmon_set_number [simp]: "anNodeNumber (allmon_set k v n) = anNodeNumber n"
  by (simp add: allmon_set_def split: option.splits)

lemma allmon_line_ok: "allmon_ok st \<Longrightarrow> allmon_ok (allmon_line raw st)"
  using allmon_flush_ok [of st]
  by (simp add: allmon_line_def Let_def split: option.splits) (auto simp: allmon_ok_def)

lemma fold_allmon_ok: "allmon_ok st \<Longrightarrow> allmon_ok (fold allmon_line ls st)"
  by (induction ls arbitrary: st) (simp_all add: allmon_line_ok)

section \<open>Reading an export\<close>

definition mkFav :: "string \<Rightarrow> ImportedFav" where
  "mkFav num = \<lparr>ifNodeNumber = num, ifCallsign = [], ifDescription = []\<rparr>"

lemma isNodeNumber_chars:
  assumes "isNodeNumber n"
  shows "n \<noteq> []" "list_all plain n" "LF \<notin> set n" "length n \<le> 10" "list_all is_digit n"
proof -
  have "\<not> is_digit LF" by code_simp
  with assms show "n \<noteq> []" "list_all plain n" "LF \<notin> set n" "length n \<le> 10" "list_all is_digit n"
    by (auto simp: isNodeNumber_def list_all_iff digit_plain)
qed

lemma plain_marks [simp]: "plain (CHR ''['')" "plain (CHR '']'')" "plain (CHR '';'')" "plain (CHR ''c'')" "plain (CHR ''\"'')"
  by code_simp+

lemma TrimSpace_number: "isNodeNumber n \<Longrightarrow> TrimSpace n = n"
  using isNodeNumber_chars(1,2) [of n] by (intro TrimSpace_plain) (auto simp: list_all_iff)

lemma TrimPrefix_number:
  assumes "isNodeNumber n"
  shows "TrimPrefix (''node_'' @ n) ''node_'' = n"
  by (simp add: TrimPrefix_def HasPrefix_def)

lemma ini_line_comment: "ini_line (CHR '';'' # s) st = st"
proof -
  obtain t where "TrimSpace (CHR '';'' # s) = CHR '';'' # t" using TrimSpace_starts [of "CHR '';''"] by auto
  then show ?thesis by (simp add: ini_line_def HasPrefix_def)
qed

lemma ini_line_blank: "ini_line [] st = st"
  by (simp add: ini_line_def)

lemma ini_line_section:
  assumes "isNodeNumber n"
  shows "ini_line (''[node_'' @ n @ '']'') st = (ini_add (mkFav n) st)\<lparr>iniLabel := []\<rparr>"
proof -
  have "TrimSpace (''[node_'' @ n @ '']'') = ''[node_'' @ n @ '']''"
    by (rule TrimSpace_plain) simp_all
  moreover have "TrimPrefix (''node_'' @ n) ''node_'' = n" by (rule TrimPrefix_number [OF assms])
  moreover have "butlast (tl (''[node_'' @ n @ '']'')) = ''node_'' @ n"
    by (simp add: butlast_append)
  moreover have "HasSuffix (''[node_'' @ n @ '']'') '']''" by (simp add: HasSuffix_def suffix_def)
  ultimately show ?thesis
    by (simp add: ini_line_def Let_def HasPrefix_def TrimSpace_number [OF assms] mkFav_def del: append_Cons) simp
qed

lemma Trim_quote:
  assumes "isNodeNumber n"
  shows "Trim (n @ ''\"'') ''\"'' = n"
proof -
  have "\<not> is_digit (CHR ''\"'')" by code_simp
  then have "CHR ''\"'' \<notin> set n" using isNodeNumber_chars(5) [OF assms] by (auto simp: list_all_iff)
  then have "dropWhile (\<lambda>c. c = CHR ''\"'') (n @ ''\"'') = n @ ''\"''" "dropWhile (\<lambda>c. c = CHR ''\"'') (rev n) = rev n"
    using isNodeNumber_chars(1) [OF assms] by (cases n, auto, cases "rev n", auto)
  then show ?thesis by (simp add: Trim_def TrimRight_def)
qed

lemma Fields_cmd:
  assumes "isNodeNumber h" and "isNodeNumber n"
  shows "Fields (''cmd[] = \"rpt cmd '' @ h @ '' ilink 3 '' @ n @ ''\"'') =
    [''cmd[]'', ''='', ''\"rpt'', ''cmd'', h, ''ilink'', ''3'', n @ ''\"'']"
proof -
  have words: "list_all plain ''cmd[]''" "list_all plain ''=''" "list_all plain ''\"rpt''" "list_all plain ''cmd''"
    "list_all plain ''ilink''" "list_all plain ''3''" "list_all plain (n @ ''\"'')" "list_all plain h"
    using isNodeNumber_chars(2) assms by (simp_all, code_simp+)
  have "''cmd[] = \"rpt cmd '' @ h @ '' ilink 3 '' @ n @ ''\"'' =
    ''cmd[]'' @ CHR '' '' # ''='' @ CHR '' '' # ''\"rpt'' @ CHR '' '' # ''cmd'' @ CHR '' '' # h @ CHR '' ''
     # ''ilink'' @ CHR '' '' # ''3'' @ CHR '' '' # (n @ ''\"'') @ []" by simp
  then show ?thesis
    unfolding Fields_def
    by (simp only: fields_from_plain [OF words(1)] fields_from_plain [OF words(2)] fields_from_plain [OF words(3)]
        fields_from_plain [OF words(4)] fields_from_plain [OF words(5)] fields_from_plain [OF words(6)]
        fields_from_plain [OF words(7)] fields_from_plain [OF words(8)] fields_from_blank fields_from_Nil)
      (use isNodeNumber_chars(1) [OF assms(1)] in simp)
qed

lemma ini_line_cmd:
  assumes "isNodeNumber h" and "isNodeNumber n" and "iniLabel st = []"
  shows "ini_line (''cmd[] = \"rpt cmd '' @ h @ '' ilink 3 '' @ n @ ''\"'') st = ini_add (mkFav n) st"
proof -
  let ?l = "''cmd[] = \"rpt cmd '' @ h @ '' ilink 3 '' @ n @ ''\"''"
  have t: "TrimSpace ?l = ?l" by (rule TrimSpace_plain) simp_all
  have label: "parseLabel [] = ([], [])" by (simp add: parseLabel_def)
  have "(ini_add f st)\<lparr>iniLabel := []\<rparr> = ini_add f st" for f
    using assms(3) by (simp add: ini_add_def)
  then show ?thesis
    unfolding ini_line_def t Let_def Fields_cmd [OF assms(1,2)]
    by (simp add: HasPrefix_def assms(3) label Trim_quote [OF assms(2)] mkFav_def)
qed

lemma ini_add_twice: "ini_add f (ini_add f st) = ini_add f st"
  by (simp add: ini_add_def)

text \<open>The three lines of one exported favorite.\<close>

definition fav_lines :: "string \<Rightarrow> string \<Rightarrow> string list" where
  "fav_lines h n = [''[node_'' @ n @ '']'', ''cmd[] = \"rpt cmd '' @ h @ '' ilink 3 '' @ n @ ''\"'', []]"

lemma fold_fav_lines:
  assumes "isNodeNumber h" and "isNodeNumber n"
  shows "fold ini_line (fav_lines h n) st = (ini_add (mkFav n) st)\<lparr>iniLabel := []\<rparr>"
proof -
  have "ini_add (mkFav n) ((ini_add (mkFav n) st)\<lparr>iniLabel := []\<rparr>) = (ini_add (mkFav n) st)\<lparr>iniLabel := []\<rparr>"
    by (simp add: ini_add_def)
  then show ?thesis
    by (simp add: fav_lines_def ini_line_section assms ini_line_cmd ini_line_blank del: append_Cons)
qed

lemma scan_plain_line:
  assumes "LF \<notin> set l" and "length l < 65536" and "l = [] \<or> last l \<noteq> CR"
  shows "ScanLines (l @ LF # t) = (l # fst (ScanLines t), snd (ScanLines t))"
  using ScanLines_line [OF assms(1,2)] dropCR_id [OF assms(3)] by simp

lemma scan_fav:
  assumes "isNodeNumber h" and "isNodeNumber (fNodeNumber f)"
  shows "ScanLines (export_fav h f @ t) = (fav_lines h (fNodeNumber f) @ fst (ScanLines t), snd (ScanLines t))"
proof -
  let ?n = "fNodeNumber f"
  let ?s = "''[node_'' @ ?n @ '']''" and ?c = "''cmd[] = \"rpt cmd '' @ h @ '' ilink 3 '' @ ?n @ ''\"''"
  have eq: "export_fav h f @ t = ?s @ LF # ?c @ LF # [] @ LF # t" by (simp add: export_fav_def)
  have s: "LF \<notin> set ?s" "length ?s < 65536" "?s = [] \<or> last ?s \<noteq> CR"
    using isNodeNumber_chars(3,4) [OF assms(2)] by simp_all
  have c: "LF \<notin> set ?c" "length ?c < 65536" "?c = [] \<or> last ?c \<noteq> CR"
    using isNodeNumber_chars(3,4) [OF assms(1)] isNodeNumber_chars(3,4) [OF assms(2)] by simp_all
  have e: "LF \<notin> set []" "length ([] :: string) < 65536" "[] = [] \<or> last [] \<noteq> CR" by simp_all
  show ?thesis
    unfolding eq scan_plain_line [OF s] scan_plain_line [OF c] scan_plain_line [OF e] by (simp add: fav_lines_def)
qed

lemma fold_favs:
  assumes "isNodeNumber h" and "list_all (\<lambda>f. isNodeNumber (fNodeNumber f)) favs" and "iniLabel st = []"
  shows "fold ini_line (fst (ScanLines (concat (map (export_fav h) favs)))) st
      = fold (\<lambda>n. ini_add (mkFav n)) (map fNodeNumber favs) st
    \<and> snd (ScanLines (concat (map (export_fav h) favs))) = False"
  using assms(2,3)
proof (induction favs arbitrary: st)
  case (Cons f favs)
  then have n: "isNodeNumber (fNodeNumber f)" by simp
  have same: "(ini_add (mkFav (fNodeNumber f)) st)\<lparr>iniLabel := []\<rparr> = ini_add (mkFav (fNodeNumber f)) st"
    "iniLabel (ini_add (mkFav (fNodeNumber f)) st) = []"
    using Cons.prems(2) by (simp_all add: ini_add_def)
  from Cons.IH [of "ini_add (mkFav (fNodeNumber f)) st"] Cons.prems(1) same(2) show ?case
    by (simp add: same(1) scan_fav [OF assms(1) n] fold_fav_lines [OF assms(1) n])
qed simp

lemma fold_add:
  assumes "list_all isNodeNumber ns"
  shows "iniFavs (fold (\<lambda>n. ini_add (mkFav n)) ns ini_start) = map mkFav (rev (remdups (rev ns)))
    \<and> iniSeen (fold (\<lambda>n. ini_add (mkFav n)) ns ini_start) = set ns"
  using assms
proof (induction ns rule: rev_induct)
  case (snoc n ns)
  then show ?case by (auto simp: ini_add_def mkFav_def)
qed (simp add: ini_start_def)

lemma ParseINI_export:
  assumes "isNodeNumber h" and "list_all (\<lambda>f. isNodeNumber (fNodeNumber f)) favs"
    and "LF \<notin> set stamp" and "length stamp < 65000"
  shows "ParseINI (ExportINI stamp favs h) = (map mkFav (rev (remdups (rev (map fNodeNumber favs)))), False)"
proof -
  let ?t = "concat (map (export_fav h) favs)"
  let ?x = "'' YAAMon favorites export''" and ?y = "'' Home node: '' @ h" and ?z = "'' Exported: '' @ stamp"
  have eq: "ExportINI stamp favs h =
      (CHR '';'' # ?x) @ LF # ((CHR '';'' # ?y) @ LF # ((CHR '';'' # ?z) @ LF # ([] @ LF # ?t)))"
    by (simp add: ExportINI_def)
  have drop: "\<exists>s. dropCR (CHR '';'' # x) = CHR '';'' # s" for x
    by (auto simp: dropCR_def)
  have step: "fold ini_line (fst (ScanLines ((CHR '';'' # x) @ LF # t))) st = fold ini_line (fst (ScanLines t)) st
      \<and> snd (ScanLines ((CHR '';'' # x) @ LF # t)) = snd (ScanLines t)"
    if x: "LF \<notin> set x" "length x < 65535" for x t st
  proof -
    from x have "LF \<notin> set (CHR '';'' # x)" "length (CHR '';'' # x) < 65536" by simp_all
    note scan = ScanLines_line [OF this, of t]
    obtain s where s: "dropCR (CHR '';'' # x) = CHR '';'' # s" using drop by blast
    show ?thesis unfolding scan s by (simp add: ini_line_comment)
  qed
  have x: "LF \<notin> set ?x" "length ?x < 65535" by simp_all
  have y: "LF \<notin> set ?y" "length ?y < 65535"
    using isNodeNumber_chars(3,4) [OF assms(1)] by simp_all
  have z: "LF \<notin> set ?z" "length ?z < 65535" using assms(3,4) by simp_all
  have "fold ini_line (fst (ScanLines ([] @ LF # ?t))) st = fold ini_line (fst (ScanLines ?t)) st
      \<and> snd (ScanLines ([] @ LF # ?t)) = snd (ScanLines ?t)" for st
    by (subst (1 2) scan_plain_line) (simp_all add: ini_line_blank)
  with step [OF x] step [OF y] step [OF z]
  have "fold ini_line (fst (ScanLines (ExportINI stamp favs h))) ini_start = fold ini_line (fst (ScanLines ?t)) ini_start
      \<and> snd (ScanLines (ExportINI stamp favs h)) = snd (ScanLines ?t)"
    unfolding eq by (simp only:)
  moreover have "iniLabel ini_start = []" by (simp add: ini_start_def)
  moreover have "list_all isNodeNumber (map fNodeNumber favs)" using assms(2) by (simp add: list_all_iff)
  ultimately show ?thesis
    using fold_favs [OF assms(1,2), of ini_start] fold_add [of "map fNodeNumber favs"]
    by (simp add: ParseINI_def split: prod.splits) (metis fst_conv snd_conv)
qed

section \<open>Properties\<close>

text \<open>C39: an exported favorites file, of a home node and favorites whose numbers have one to ten digits, is
  imported as the favorites that were exported: each node
  number once, in the order of its first occurrence, without callsign and description.\<close>

theorem export_import:
  assumes "isNodeNumber home" and "list_all (\<lambda>f. isNodeNumber (fNodeNumber f)) favs"
    and "LF \<notin> set stamp" and "length stamp < 65000"
  shows "ParseINI (ExportINI stamp favs home) =
    (map (\<lambda>num. \<lparr>ifNodeNumber = num, ifCallsign = [], ifDescription = []\<rparr>)
       (rev (remdups (rev (map fNodeNumber favs)))), False)"
  using ParseINI_export [OF assms] by (simp add: mkFav_def [abs_def])

theorem export_import_witness:
  "ParseINI (ExportINI ''2024-01-01'' (map (\<lambda>n. \<lparr>fID = 1, fNodeID = 1, fNodeNumber = n, fCallsign = [],
      fDescription = [], fLocation = [], fCmd = [], fSortOrder = 0, fGroupName = [], fPosition = 0\<rparr>)
      [''29332'', ''2000'', ''29332'']) ''1999'')
   = ([\<lparr>ifNodeNumber = ''29332'', ifCallsign = [], ifDescription = []\<rparr>,
       \<lparr>ifNodeNumber = ''2000'', ifCallsign = [], ifDescription = []\<rparr>], False)"
  by (subst export_import) (simp_all add: isNodeNumber_def is_digit_def)

text \<open>A favorite may have any number that is not empty; one that is no number is exported and then dropped
  by the import.\<close>

lemma export_drops_callsign:
  "ParseINI (ExportINI ''2024-01-01'' [\<lparr>fID = 1, fNodeID = 1, fNodeNumber = ''W1AW'', fCallsign = [],
      fDescription = [], fLocation = [], fCmd = [], fSortOrder = 0, fGroupName = [], fPosition = 0\<rparr>] ''1999'') = ([], False)"
proof -
  have scan: "ScanLines (concat (map (\<lambda>l. l @ [LF]) ls)) = (ls, False)"
    if "list_all (\<lambda>l. LF \<notin> set l \<and> CR \<notin> set l \<and> length l < 65536) ls" for ls
    using that
  proof (induction ls)
    case (Cons l ls)
    then have "l = [] \<or> last l \<noteq> CR" by (auto dest: last_in_set)
    with Cons scan_plain_line [of l "concat (map (\<lambda>l. l @ [LF]) ls)"] show ?case by simp
  qed (simp add: ScanLines.simps)
  let ?ls = "[''; YAAMon favorites export'', ''; Home node: 1999'', ''; Exported: 2024-01-01'', [],
    ''[node_W1AW]'', ''cmd[] = \"rpt cmd 1999 ilink 3 W1AW\"'', []]"
  have "ExportINI ''2024-01-01'' [\<lparr>fID = 1, fNodeID = 1, fNodeNumber = ''W1AW'', fCallsign = [],
      fDescription = [], fLocation = [], fCmd = [], fSortOrder = 0, fGroupName = [], fPosition = 0\<rparr>] ''1999''
    = concat (map (\<lambda>l. l @ [LF]) ?ls)"
    by (simp add: ExportINI_def export_fav_def)
  moreover have "ScanLines (concat (map (\<lambda>l. l @ [LF]) ?ls)) = (?ls, False)" by (rule scan) simp
  moreover have "fold ini_line ?ls ini_start = ini_start" by code_simp
  ultimately show ?thesis by (simp add: ParseINI_def ini_start_def)
qed

lemma ParseINI_distinct: "distinct (map ifNodeNumber (fst (ParseINI data)))"
proof -
  have "ini_ok (fold ini_line (fst (ScanLines data)) ini_start)"
    by (rule fold_ini_ok) (simp add: ini_ok_def ini_start_def)
  then show ?thesis by (simp add: ParseINI_def ini_ok_def case_prod_beta)
qed

text \<open>Whatever a favorites file holds, the import names no number twice and only numbers of one
  to ten digits.\<close>

lemma ParseINI_wellformed:
  "distinct (map ifNodeNumber (fst (ParseINI data)))
    \<and> list_all (\<lambda>f. isNodeNumber (ifNodeNumber f)) (fst (ParseINI data))"
proof -
  have "ini_ok (fold ini_line (fst (ScanLines data)) ini_start)"
    by (rule fold_ini_ok) (simp add: ini_ok_def ini_start_def)
  then show ?thesis by (simp add: ParseINI_def ini_ok_def case_prod_beta)
qed

text \<open>An Allmon3 file gives nodes only, each with a node number of one to ten digits.\<close>

lemma ParseAllmon3INI_wellformed:
  "list_all (\<lambda>n. isNodeNumber (anNodeNumber n)) (fst (ParseAllmon3INI data))"
proof -
  let ?st = "fold allmon_line (fst (ScanLines data)) \<lparr>amNodes = [], amCur = None\<rparr>"
  have "allmon_ok ?st" by (rule fold_allmon_ok) (simp add: allmon_ok_def)
  then have "allmon_ok (allmon_flush ?st)" using allmon_flush_ok by blast
  then show ?thesis by (simp add: ParseAllmon3INI_def allmon_ok_def case_prod_beta)
qed

end
