(* ===== verification/Db_Migrations.thy ===== *)
theory Db_Migrations
  imports Db_Passkeys
begin

text \<open>
  The migrations of \<open>internal/db/db.go\<close> and \<open>tailscale.go\<close>, over a model of the SQL they use: a
  database is a list of tables, a table its columns and rows, a row its values by column name. The JSON
  reader of SQLite (\<open>json_each\<close>) is a parameter. \<open>grows\<close> says what an upgrade keeps of the rows.
\<close>

section \<open>Tables\<close>

text \<open>A text with byte contents (BLOB) is a \<open>Text\<close> too; a time is its text.\<close>

datatype sql_value = Null | Integer int | Text string

datatype col_key = NoKey | Unique | PrimaryKey | AutoIncrement

datatype col_default = Constant sql_value | CurrentTimestamp

text \<open>\<open>scRefs\<close> is the table whose \<open>id\<close> the column references, deleting with it.\<close>

record sql_column =
  scName :: string
  scType :: string
  scNotNull :: bool
  scKey :: col_key
  scDefault :: col_default
  scRefs :: "string option"

type_synonym sql_row = "(string \<times> sql_value) list"

record sql_table =
  tbName :: string
  tbCols :: "sql_column list"
  tbRows :: "sql_row list"

type_synonym sql_db = "sql_table list"

definition value_of :: "string \<Rightarrow> sql_row \<Rightarrow> sql_value" where
  "value_of c r = (case map_of r c of None \<Rightarrow> Null | Some v \<Rightarrow> v)"

fun text_of :: "sql_value \<Rightarrow> string" where
  "text_of (Text s) = s"
| "text_of (Integer i) = FormatInt i"
| "text_of Null = []"

definition table_of :: "string \<Rightarrow> sql_db \<Rightarrow> sql_table option" where
  "table_of n d = find (\<lambda>t. tbName t = n) d"

definition has_column :: "string \<Rightarrow> sql_table \<Rightarrow> bool" where
  "has_column c t \<longleftrightarrow> c \<in> scName ` set (tbCols t)"

definition set_table :: "string \<Rightarrow> (sql_table \<Rightarrow> sql_table) \<Rightarrow> sql_db \<Rightarrow> sql_db" where
  "set_table n f d = map (\<lambda>t. if tbName t = n then f t else t) d"

section \<open>Statements\<close>

text \<open>\<open>Update t c e w v\<close> is \<open>UPDATE t SET c = e WHERE w = v\<close>, with columns \<open>c\<close>, \<open>e\<close> and \<open>w\<close>.\<close>

datatype sql_stmt =
    CreateTable string "sql_column list"
  | AddColumn string sql_column
  | DropColumn string string
  | Update string string string string sql_value

definition addable :: "sql_column \<Rightarrow> string option" where
  "addable c =
     (if scKey c = PrimaryKey \<or> scKey c = AutoIncrement then Some ''Cannot add a PRIMARY KEY column''
      else if scKey c = Unique then Some ''Cannot add a UNIQUE column''
      else case scDefault c of
          CurrentTimestamp \<Rightarrow> Some ''Cannot add a column with non-constant default''
        | Constant v \<Rightarrow> if scNotNull c \<and> v = Null then Some ''Cannot add a NOT NULL column with default value NULL'' else None)"

definition default_value :: "sql_column \<Rightarrow> sql_value" where
  "default_value c = (case scDefault c of Constant v \<Rightarrow> v | CurrentTimestamp \<Rightarrow> Null)"

definition add_column :: "sql_column \<Rightarrow> sql_table \<Rightarrow> sql_table" where
  "add_column c t = t\<lparr>tbCols := tbCols t @ [c], tbRows := map (\<lambda>r. r @ [(scName c, default_value c)]) (tbRows t)\<rparr>"

definition drop_column :: "string \<Rightarrow> sql_table \<Rightarrow> sql_table" where
  "drop_column c t = t\<lparr>tbCols := filter (\<lambda>x. scName x \<noteq> c) (tbCols t),
     tbRows := map (filter (\<lambda>e. fst e \<noteq> c)) (tbRows t)\<rparr>"

definition update_rows :: "string \<Rightarrow> string \<Rightarrow> string \<Rightarrow> sql_value \<Rightarrow> sql_table \<Rightarrow> sql_table" where
  "update_rows c e w v t = t\<lparr>tbRows := update_where (\<lambda>r. value_of w r = v) (\<lambda>r. kv_upsert c (value_of e r) r) (tbRows t)\<rparr>"

fun exec_stmt :: "sql_stmt \<Rightarrow> sql_db \<Rightarrow> string + sql_db" where
  "exec_stmt (CreateTable n cs) d =
     (case table_of n d of Some t \<Rightarrow> Inr d | None \<Rightarrow> Inr (d @ [\<lparr>tbName = n, tbCols = cs, tbRows = []\<rparr>]))"
| "exec_stmt (AddColumn n c) d =
     (case table_of n d of
        None \<Rightarrow> Inl (''no such table: '' @ n)
      | Some t \<Rightarrow> if has_column (scName c) t then Inl (''duplicate column name: '' @ scName c)
          else case addable c of Some e \<Rightarrow> Inl e | None \<Rightarrow> Inr (set_table n (add_column c) d))"
| "exec_stmt (DropColumn n c) d =
     (case table_of n d of
        None \<Rightarrow> Inl (''no such table: '' @ n)
      | Some t \<Rightarrow> (case find (\<lambda>x. scName x = c) (tbCols t) of
          None \<Rightarrow> Inl (''no such column: '' @ c)
        | Some x \<Rightarrow> if scKey x \<noteq> NoKey then Inl (''cannot drop column: '' @ c)
            else Inr (set_table n (drop_column c) d)))"
| "exec_stmt (Update n c e w v) d =
     (case table_of n d of
        None \<Rightarrow> Inl (''no such table: '' @ n)
      | Some t \<Rightarrow> if has_column c t \<and> has_column e t \<and> has_column w t
          then Inr (set_table n (update_rows c e w v) d) else Inl ''no such column'')"

fun exec_stmts :: "sql_stmt list \<Rightarrow> sql_db \<Rightarrow> string + sql_db" where
  "exec_stmts [] d = Inr d"
| "exec_stmts (st # sts) d = bindE (exec_stmt st d) (exec_stmts sts)"

section \<open>The migrations\<close>

text \<open>A column without constraint, and the clauses that add one.\<close>

definition column :: "string \<Rightarrow> string \<Rightarrow> sql_column" where
  "column n ty = \<lparr>scName = n, scType = ty, scNotNull = False, scKey = NoKey, scDefault = Constant Null, scRefs = None\<rparr>"

definition required :: "string \<Rightarrow> string \<Rightarrow> sql_column" where
  "required n ty = (column n ty)\<lparr>scNotNull := True\<rparr>"

definition defaulting :: "string \<Rightarrow> string \<Rightarrow> sql_value \<Rightarrow> sql_column" where
  "defaulting n ty v = (required n ty)\<lparr>scDefault := Constant v\<rparr>"

definition keyed :: "col_key \<Rightarrow> sql_column \<Rightarrow> sql_column" where
  "keyed k c = c\<lparr>scKey := k\<rparr>"

definition references :: "string \<Rightarrow> string \<Rightarrow> sql_column" where
  "references n t = (required n ''INTEGER'')\<lparr>scRefs := Some t\<rparr>"

definition timestamp :: "string \<Rightarrow> sql_column" where
  "timestamp n = (column n ''DATETIME'')\<lparr>scDefault := CurrentTimestamp\<rparr>"

definition auto_id :: sql_column where
  "auto_id = keyed AutoIncrement (column ''id'' ''INTEGER'')"

lemmas column_defs = column_def required_def defaulting_def keyed_def references_def timestamp_def auto_id_def

definition migration1 :: "sql_stmt list" where
  "migration1 =
     [CreateTable ''nodes''
        [auto_id, required ''name'' ''TEXT'', required ''node_number'' ''TEXT'',
         defaulting ''ami_host'' ''TEXT'' (Text ''localhost''), defaulting ''ami_port'' ''INTEGER'' (Integer 5038),
         defaulting ''ami_user'' ''TEXT'' (Text ''admin''), defaulting ''ami_pass'' ''TEXT'' (Text []),
         defaulting ''enabled'' ''INTEGER'' (Integer 1), timestamp ''created_at''],
      CreateTable ''favorites''
        [auto_id, references ''node_id'' ''nodes'', required ''node_number'' ''TEXT'', column ''callsign'' ''TEXT'',
         column ''description'' ''TEXT'', column ''location'' ''TEXT'', column ''cmd'' ''TEXT'',
         defaulting ''sort_order'' ''INTEGER'' (Integer 0), defaulting ''group_name'' ''TEXT'' (Text ''default''),
         timestamp ''created_at''],
      CreateTable ''users''
        [auto_id, keyed Unique (required ''username'' ''TEXT''), required ''password'' ''TEXT'',
         defaulting ''permission'' ''TEXT'' (Text ''readonly''), timestamp ''created_at''],
      CreateTable ''configs''
        [keyed PrimaryKey (column ''key'' ''TEXT''), column ''value'' ''TEXT'', timestamp ''updated_at''],
      CreateTable ''tls_certs''
        [keyed PrimaryKey (column ''id'' ''INTEGER''), column ''cert_pem'' ''TEXT'', column ''key_pem'' ''TEXT'',
         timestamp ''generated_at'']]"

definition migration2 :: "sql_stmt list" where
  "migration2 =
     [AddColumn ''favorites'' (defaulting ''position'' ''INTEGER'' (Integer 0)),
      Update ''favorites'' ''position'' ''id'' ''position'' (Integer 0)]"

definition migration3 :: "sql_stmt list" where
  "migration3 =
     [AddColumn ''nodes'' (defaulting ''description'' ''TEXT'' (Text [])),
      AddColumn ''nodes'' (defaulting ''location'' ''TEXT'' (Text []))]"

definition migration4 :: "sql_stmt list" where
  "migration4 =
     [AddColumn ''users'' (defaulting ''full_name'' ''TEXT'' (Text [])),
      AddColumn ''users'' (defaulting ''avatar_url'' ''TEXT'' (Text []))]"

definition migration5 :: "sql_stmt list" where
  "migration5 = [AddColumn ''users'' (defaulting ''tailscale_usernames'' ''TEXT'' (Text []))]"

definition migration7 :: "sql_stmt list" where
  "migration7 =
     [CreateTable ''stats_cache''
        [keyed PrimaryKey (column ''node_number'' ''TEXT''), required ''stats_json'' ''TEXT'', timestamp ''updated_at'']]"

definition migration8 :: "sql_stmt list" where
  "migration8 =
     [CreateTable ''qrz_cache''
        [keyed PrimaryKey (column ''callsign'' ''TEXT''), required ''record_json'' ''TEXT'',
         required ''fetched_at'' ''DATETIME'']]"

definition migration9 :: "sql_stmt list" where
  "migration9 =
     [AddColumn ''users'' (defaulting ''qrz_username'' ''TEXT'' (Text [])),
      AddColumn ''users'' (defaulting ''qrz_password_enc'' ''TEXT'' (Text [])),
      AddColumn ''users'' (defaulting ''lookup_source'' ''TEXT'' (Text []))]"

definition migration10 :: "sql_stmt list" where
  "migration10 =
     [AddColumn ''users'' (column ''webauthn_id'' ''BLOB''),
      CreateTable ''webauthn_credentials''
        [auto_id, references ''user_id'' ''users'', keyed Unique (required ''credential_id'' ''BLOB''),
         defaulting ''name'' ''TEXT'' (Text []), required ''credential_json'' ''TEXT'', timestamp ''created_at'',
         column ''last_used_at'' ''DATETIME''],
      CreateTable ''webauthn_sessions''
        [keyed PrimaryKey (column ''session_id'' ''TEXT''), required ''ceremony'' ''TEXT'', column ''user_id'' ''INTEGER'',
         required ''session_json'' ''TEXT'', required ''expires_at'' ''INTEGER'']]"

definition migration11 :: "sql_stmt list" where
  "migration11 =
     [AddColumn ''webauthn_sessions'' (defaulting ''rpid'' ''TEXT'' (Text [])),
      AddColumn ''webauthn_sessions'' (defaulting ''origin'' ''TEXT'' (Text []))]"

section \<open>Migration 6\<close>

text \<open>\<open>trim\<close> of SQLite takes spaces only.\<close>

abbreviation sql_trim :: "string \<Rightarrow> string" where "sql_trim s \<equiv> Trim s '' ''"

definition json_text :: "string \<Rightarrow> string" where
  "json_text s = ''[\"'' @ ReplaceAll s '','' ''\",\"'' @ ''\"]''"

text \<open>The rows of the SELECT; \<open>je\<close> is \<open>json_each\<close>, an error for a text that is no JSON.\<close>

fun login_rows :: "(string \<Rightarrow> string list option) \<Rightarrow> sql_row list \<Rightarrow> string + (string \<times> sql_value) list" where
  "login_rows je [] = Inr []"
| "login_rows je (u # us) =
     (let s = text_of (value_of ''tailscale_usernames'' u)
      in if sql_trim s = [] then login_rows je us
         else case je (json_text s) of
             None \<Rightarrow> Inl ''malformed JSON''
           | Some vs \<Rightarrow> bindE (login_rows je us) (\<lambda>ls.
               Inr (map (\<lambda>v. (sql_trim v, value_of ''id'' u)) (filter (\<lambda>v. sql_trim v \<noteq> []) vs) @ ls)))"

definition login_row :: "string \<times> sql_value \<Rightarrow> sql_row" where
  "login_row l = [(''login'', Text (fst l)), (''user_id'', snd l)]"

definition insert_or_ignore :: "string \<times> sql_value \<Rightarrow> sql_row list \<Rightarrow> sql_row list" where
  "insert_or_ignore l rs = (if Text (fst l) \<in> value_of ''login'' ` set rs then rs else rs @ [login_row l])"

definition copy_logins :: "(string \<Rightarrow> string list option) \<Rightarrow> sql_row list \<Rightarrow> sql_db \<Rightarrow> string + sql_db" where
  "copy_logins je us d = bindE (login_rows je us) (\<lambda>ls.
     Inr (set_table ''tailscale_logins'' (\<lambda>t. t\<lparr>tbRows := fold insert_or_ignore ls (tbRows t)\<rparr>) d))"

definition create_logins :: sql_stmt where
  "create_logins = CreateTable ''tailscale_logins''
     [keyed PrimaryKey (column ''login'' ''TEXT''), references ''user_id'' ''users'']"

definition migration6 :: "(string \<Rightarrow> string list option) \<Rightarrow> sql_db \<Rightarrow> string + sql_db" where
  "migration6 je d = bindE (exec_stmt create_logins d) (\<lambda>d.
     case table_of ''users'' d of
       None \<Rightarrow> Inr d
     | Some t \<Rightarrow>
         if has_column ''tailscale_usernames'' t
         then bindE (copy_logins je (tbRows t) d) (exec_stmt (DropColumn ''users'' ''tailscale_usernames''))
         else Inr d)"

definition by_sql :: "nat \<Rightarrow> sql_stmt list \<Rightarrow> sql_db migration" where
  "by_sql v sts = \<lparr>mVersion = v, mRun = Some (exec_stmts sts)\<rparr>"

definition migrations :: "(string \<Rightarrow> string list option) \<Rightarrow> sql_db migration list" where
  "migrations je =
     [by_sql 1 migration1, by_sql 2 migration2, by_sql 3 migration3, by_sql 4 migration4, by_sql 5 migration5,
      \<lparr>mVersion = 6, mRun = Some (migration6 je)\<rparr>,
      by_sql 7 migration7, by_sql 8 migration8, by_sql 9 migration9, by_sql 10 migration10, by_sql 11 migration11]"

section \<open>Opening\<close>

text \<open>\<open>openError\<close> and \<open>pragmaError\<close> are the errors of \<open>sql.Open\<close> and of the pragma, if any.\<close>

datatype open_error = OpenSqlite string | EnableForeignKeys string | Migrate "nat \<times> string"

definition Open :: "(string \<Rightarrow> string list option) \<Rightarrow> string option \<Rightarrow> string option \<Rightarrow> sql_db migrated
    \<Rightarrow> open_error option \<times> sql_db migrated" where
  "Open je openError pragmaError db =
     (case openError of Some e \<Rightarrow> (Some (OpenSqlite e), db)
      | None \<Rightarrow> (case pragmaError of Some e \<Rightarrow> (Some (EnableForeignKeys e), db)
        | None \<Rightarrow> (case migrate (migrations je) db of (r, db') \<Rightarrow> (map_option Migrate r, db'))))"

end
