(* ===== verification/Db_Upgrade.thy ===== *)
theory Db_Upgrade
  imports Db_Migrations
begin

text \<open>
  Opening a database of an older release (\<open>internal/db/db.go\<close>, \<open>tailscale.go\<close>). Whether a migration
  succeeds and which columns it leaves depend on the columns alone, so that it is enough to run the
  migrations on \<open>bare\<close> databases, the schemas of the versions; \<open>grows\<close> is the preorder of what the
  statements keep of the rows, and \<open>migrated_logins\<close> is what migration 6 makes of the old column.
\<close>

section \<open>What an upgrade keeps\<close>

definition bare_table :: "sql_table \<Rightarrow> sql_table" where
  "bare_table t = t\<lparr>tbRows := []\<rparr>"

definition bare :: "sql_db \<Rightarrow> sql_db" where
  "bare d = map bare_table d"

definition table_wf :: "sql_table \<Rightarrow> bool" where
  "table_wf t \<longleftrightarrow> distinct (map scName (tbCols t)) \<and> (\<forall>r \<in> set (tbRows t). map fst r = map scName (tbCols t))"

definition db_wf :: "sql_db \<Rightarrow> bool" where
  "db_wf d \<longleftrightarrow> distinct (map tbName d) \<and> (\<forall>t \<in> set d. table_wf t)"

definition row_grows :: "(string \<times> string) set \<Rightarrow> string \<Rightarrow> sql_row \<Rightarrow> sql_row \<Rightarrow> bool" where
  "row_grows P n r r' \<longleftrightarrow> (\<forall>c v. (n, c) \<in> P \<longrightarrow> map_of r c = Some v \<longrightarrow> map_of r' c = Some v)"

definition grows :: "(string \<times> string) set \<Rightarrow> sql_db \<Rightarrow> sql_db \<Rightarrow> bool" where
  "grows P d d' \<longleftrightarrow> (\<forall>n t. n \<in> fst ` P \<longrightarrow> table_of n d = Some t
     \<longrightarrow> (\<exists>t'. table_of n d' = Some t' \<and> list_all2 (row_grows P n) (tbRows t) (tbRows t')))"

definition json_plain :: "string \<Rightarrow> bool" where
  "json_plain s \<longleftrightarrow> list_all (\<lambda>c. c \<noteq> CHR ''\"'' \<and> c \<noteq> CHR 0x5C \<and> 32 \<le> (of_char c :: nat)) s"

definition legacy_plain :: "sql_db \<Rightarrow> bool" where
  "legacy_plain d \<longleftrightarrow> (\<forall>t. table_of ''users'' d = Some t
     \<longrightarrow> (\<forall>u \<in> set (tbRows t). json_plain (text_of (value_of ''tailscale_usernames'' u))))"

lemma legacy_plain_code [code]:
  "legacy_plain d = (case table_of ''users'' d of None \<Rightarrow> True
     | Some t \<Rightarrow> \<forall>u \<in> set (tbRows t). json_plain (text_of (value_of ''tailscale_usernames'' u)))"
  by (simp add: legacy_plain_def split: option.split)

lemma row_grows_refl [simp]: "row_grows P n r r"
  by (simp add: row_grows_def)

lemma row_grows_trans: "row_grows P n r s \<Longrightarrow> row_grows P n s t \<Longrightarrow> row_grows P n r t"
  by (simp add: row_grows_def)

lemma grows_refl [simp]: "grows P d d"
  by (simp add: grows_def list_all2_refl)

lemma grows_trans:
  assumes "grows P d e" and "grows P e f"
  shows "grows P d f"
  unfolding grows_def
proof (intro allI impI)
  fix n t assume n: "n \<in> fst ` P" and "table_of n d = Some t"
  with assms(1) obtain t1 where t1: "table_of n e = Some t1" "list_all2 (row_grows P n) (tbRows t) (tbRows t1)"
    unfolding grows_def by blast
  with assms(2) n obtain t2 where t2: "table_of n f = Some t2" "list_all2 (row_grows P n) (tbRows t1) (tbRows t2)"
    unfolding grows_def by blast
  have "list_all2 (row_grows P n) (tbRows t) (tbRows t2)"
    by (rule list_all2_trans [OF row_grows_trans t1(2) t2(2)])
  with t2(1) show "\<exists>t'. table_of n f = Some t' \<and> list_all2 (row_grows P n) (tbRows t) (tbRows t')" by blast
qed

subsection \<open>Changing one table\<close>

lemma bare_table_sel [simp]:
  "tbName (bare_table t) = tbName t" "tbCols (bare_table t) = tbCols t" "tbRows (bare_table t) = []"
  by (simp_all add: bare_table_def)

lemma table_of_SomeD: "table_of n d = Some t \<Longrightarrow> t \<in> set d \<and> tbName t = n"
  by (auto simp: table_of_def find_Some_iff)

lemma table_of_append: "table_of n (d @ e) = (case table_of n d of None \<Rightarrow> table_of n e | Some t \<Rightarrow> Some t)"
  by (simp add: table_of_def find_append split: option.splits)

lemma table_of_set_table:
  assumes "\<And>t. tbName (f t) = tbName t"
  shows "table_of n (set_table m f d) = (if n = m then map_option f (table_of n d) else table_of n d)"
  by (induction d) (auto simp: table_of_def set_table_def assms)

lemma table_of_bare [simp]: "table_of n (bare d) = map_option bare_table (table_of n d)"
  by (induction d) (auto simp: table_of_def bare_def bare_table_def)

lemma bare_set_table:
  assumes "\<And>t. bare_table (f t) = g (bare_table t)"
  shows "bare (set_table n f d) = set_table n g (bare d)"
  by (simp add: bare_def set_table_def assms)

lemma bare_set_rows: "(\<And>t. bare_table (f t) = bare_table t) \<Longrightarrow> bare (set_table n f d) = bare d"
  by (simp add: bare_def set_table_def)

lemma set_table_wf:
  assumes "db_wf d" and "\<And>t. tbName (f t) = tbName t" and "\<And>t. table_of n d = Some t \<Longrightarrow> table_wf (f t)"
  shows "db_wf (set_table n f d)"
proof -
  have names: "map tbName (set_table n f d) = map tbName d"
    using assms(2) by (simp add: set_table_def)
  have "table_wf (f t)" if "t \<in> set d" "tbName t = n" for t
  proof (rule assms(3))
    show "table_of n d = Some t"
      using assms(1) that find_unique [of tbName d t] by (simp add: db_wf_def table_of_def)
  qed
  then have "\<forall>t \<in> set (set_table n f d). table_wf t"
    using assms(1) by (auto simp: db_wf_def set_table_def)
  with names assms(1) show ?thesis by (simp add: db_wf_def)
qed

lemma set_table_grows:
  assumes "\<And>t. tbName (f t) = tbName t"
    and "\<And>t. n \<in> fst ` P \<Longrightarrow> table_of n d = Some t \<Longrightarrow> list_all2 (row_grows P n) (tbRows t) (tbRows (f t))"
  shows "grows P d (set_table n f d)"
  using assms(2) by (auto simp: grows_def table_of_set_table [OF assms(1)] list_all2_refl)

lemma set_table_legacy:
  assumes "legacy_plain d" and "\<And>t. tbName (f t) = tbName t"
    and "\<And>t u. table_of n d = Some t \<Longrightarrow> u \<in> set (tbRows (f t)) \<Longrightarrow> n = ''users''
      \<Longrightarrow> json_plain (text_of (value_of ''tailscale_usernames'' u))"
  shows "legacy_plain (set_table n f d)"
  using assms(1,3) by (auto simp: legacy_plain_def table_of_set_table [OF assms(2)] split: if_splits)

subsection \<open>Statements\<close>

lemma change_sel [simp]:
  "tbName (add_column c t) = tbName t" "tbName (drop_column k t) = tbName t" "tbName (update_rows c' e w v t) = tbName t"
  "tbCols (update_rows c' e w v t) = tbCols t"
  by (simp_all add: add_column_def drop_column_def update_rows_def)

lemma bare_changes:
  "bare_table (add_column c t) = add_column c (bare_table t)"
  "bare_table (drop_column k t) = drop_column k (bare_table t)"
  "bare_table (update_rows c' e w v t) = update_rows c' e w v (bare_table t)"
  by (simp_all add: add_column_def drop_column_def update_rows_def bare_table_def)

lemma bare_changed:
  "bare (set_table n (add_column c) d) = set_table n (add_column c) (bare d)"
  "bare (set_table n (drop_column k) d) = set_table n (drop_column k) (bare d)"
  "bare (set_table n (update_rows c' e w v) d) = set_table n (update_rows c' e w v) (bare d)"
  by (simp_all add: bare_set_table bare_changes)

lemma bare_append [simp]: "bare (d @ e) = bare d @ bare e"
  by (simp add: bare_def)

lemma exec_stmt_bare: "exec_stmt st (bare d) = map_sum id bare (exec_stmt st d)"
proof (cases st)
  case (CreateTable n cs)
  have "bare [\<lparr>tbName = n, tbCols = cs, tbRows = []\<rparr>] = [\<lparr>tbName = n, tbCols = cs, tbRows = []\<rparr>]"
    by (simp add: bare_def bare_table_def)
  with CreateTable show ?thesis by (simp split: option.split)
qed (auto simp: bare_changed has_column_def split: option.splits)

lemma exec_stmts_bare: "exec_stmts sts (bare d) = map_sum id bare (exec_stmts sts d)"
proof (induction sts arbitrary: d)
  case (Cons st sts)
  then show ?case by (cases "exec_stmt st d") (simp_all add: exec_stmt_bare)
qed simp

text \<open>What a statement must not touch.\<close>

fun stmt_safe :: "(string \<times> string) set \<Rightarrow> sql_stmt \<Rightarrow> bool" where
  "stmt_safe P (CreateTable n cs) = distinct (map scName cs)"
| "stmt_safe P (AddColumn n c) =
     (scName c = ''tailscale_usernames'' \<longrightarrow> default_value c = Text [])"
| "stmt_safe P (DropColumn n c) = ((n, c) \<notin> P)"
| "stmt_safe P (Update n c e w v) = ((n, c) \<notin> P \<and> c \<noteq> ''tailscale_usernames'')"

lemma json_plain_Nil [simp]: "json_plain []"
  by (simp add: json_plain_def)

lemma map_of_kv_upsert_keys: "k \<in> fst ` set r \<Longrightarrow> map fst (kv_upsert k v r) = map fst r"
  by (induction k v r rule: kv_upsert.induct) auto

lemma create_table_keeps:
  assumes "table_of n d = None" and "db_wf d" and "legacy_plain d" and "distinct (map scName cs)"
  shows "db_wf (d @ [\<lparr>tbName = n, tbCols = cs, tbRows = []\<rparr>])"
    "grows P d (d @ [\<lparr>tbName = n, tbCols = cs, tbRows = []\<rparr>])"
    "legacy_plain (d @ [\<lparr>tbName = n, tbCols = cs, tbRows = []\<rparr>])"
proof -
  have single: "table_of m [\<lparr>tbName = n, tbCols = cs, tbRows = []\<rparr>]
      = (if n = m then Some \<lparr>tbName = n, tbCols = cs, tbRows = []\<rparr> else None)" for m
    by (simp add: table_of_def)
  have "n \<notin> tbName ` set d" using assms(1) by (auto simp: table_of_def find_None_iff)
  with assms(2,4) show "db_wf (d @ [\<lparr>tbName = n, tbCols = cs, tbRows = []\<rparr>])"
    by (auto simp: db_wf_def table_wf_def)
  show "grows P d (d @ [\<lparr>tbName = n, tbCols = cs, tbRows = []\<rparr>])"
    by (auto simp: grows_def table_of_append list_all2_refl)
  show "legacy_plain (d @ [\<lparr>tbName = n, tbCols = cs, tbRows = []\<rparr>])"
    using assms(3) by (auto simp: legacy_plain_def table_of_append single split: option.splits if_splits)
qed

lemma add_column_keeps:
  assumes "table_of n d = Some t" and "db_wf d" and "legacy_plain d" and "\<not> has_column (scName c) t"
    and "stmt_safe P (AddColumn n c)"
  shows "db_wf (set_table n (add_column c) d)" "grows P d (set_table n (add_column c) d)"
    "legacy_plain (set_table n (add_column c) d)"
proof -
  have wf: "table_wf t" using assms(1,2) table_of_SomeD by (auto simp: db_wf_def)
  show "db_wf (set_table n (add_column c) d)"
    by (rule set_table_wf) (use assms wf in \<open>auto simp: table_wf_def add_column_def has_column_def\<close>)
  show "grows P d (set_table n (add_column c) d)"
    by (rule set_table_grows)
      (use assms in \<open>auto simp: add_column_def list.rel_map row_grows_def map_add_def intro!: list_all2_refl split: option.splits\<close>)
  show "legacy_plain (set_table n (add_column c) d)"
  proof (rule set_table_legacy [OF assms(3)])
    fix t' u assume u: "table_of n d = Some t'" "u \<in> set (tbRows (add_column c t'))" "n = ''users''"
    then obtain r where r: "r \<in> set (tbRows t')" "u = r @ [(scName c, default_value c)]"
      by (auto simp: add_column_def)
    have "json_plain (text_of (value_of ''tailscale_usernames'' r))"
      using assms(3) u(1,3) r(1) by (auto simp: legacy_plain_def)
    with r(2) assms(5) show "json_plain (text_of (value_of ''tailscale_usernames'' u))"
      by (auto simp: value_of_def map_add_def split: option.splits)
  qed simp
qed

lemma map_of_without_key: "c' \<noteq> c \<Longrightarrow> map_of (filter (\<lambda>e. fst e \<noteq> c) r) c' = map_of r c'"
  by (induction r) auto

lemma drop_column_keeps:
  assumes "db_wf d" and "(n, c) \<notin> P"
  shows "db_wf (set_table n (drop_column c) d)" "grows P d (set_table n (drop_column c) d)"
proof -
  have keys: "map fst (filter (\<lambda>e. fst e \<noteq> c) r) = filter (\<lambda>k. k \<noteq> c) (map fst r)" for r :: sql_row
    by (simp add: filter_map o_def)
  have cols: "map scName (filter (\<lambda>x. scName x \<noteq> c) xs) = filter (\<lambda>k. k \<noteq> c) (map scName xs)" for xs
    by (simp add: filter_map o_def)
  show "db_wf (set_table n (drop_column c) d)"
  proof (rule set_table_wf [OF assms(1)])
    fix t assume "table_of n d = Some t"
    then have "table_wf t" using assms(1) table_of_SomeD by (auto simp: db_wf_def)
    then show "table_wf (drop_column c t)"
      by (simp add: table_wf_def drop_column_def keys cols)
  qed simp
  have "row_grows P n r (filter (\<lambda>e. fst e \<noteq> c) r)" for r
    unfolding row_grows_def using assms(2) by (metis map_of_without_key)
  then have "list_all2 (row_grows P n) rs (map (filter (\<lambda>e. fst e \<noteq> c)) rs)" for rs
    by (induction rs) simp_all
  then show "grows P d (set_table n (drop_column c) d)"
    by (intro set_table_grows) (simp_all add: drop_column_def)
qed

lemma drop_column_legacy:
  assumes "legacy_plain d"
  shows "legacy_plain (set_table n (drop_column c) d)"
proof (rule set_table_legacy [OF assms])
  fix t u assume u: "table_of n d = Some t" "u \<in> set (tbRows (drop_column c t))" "n = ''users''"
  then obtain r where r: "r \<in> set (tbRows t)" "u = filter (\<lambda>e. fst e \<noteq> c) r" by (auto simp: drop_column_def)
  have "map_of (filter (\<lambda>e. fst e \<noteq> c) r) c = None" by (induction r) auto
  moreover have "json_plain (text_of (value_of ''tailscale_usernames'' r))"
    using assms u(1,3) r(1) by (auto simp: legacy_plain_def)
  ultimately show "json_plain (text_of (value_of ''tailscale_usernames'' u))"
    using r(2) by (cases "c = ''tailscale_usernames''") (simp_all add: value_of_def map_of_without_key)
qed simp


lemma update_rows_keeps:
  assumes "table_of n d = Some t" and "db_wf d" and "legacy_plain d" and "has_column c t"
    and "stmt_safe P (Update n c e w v)"
  shows "db_wf (set_table n (update_rows c e w v) d)" "grows P d (set_table n (update_rows c e w v) d)"
    "legacy_plain (set_table n (update_rows c e w v) d)"
proof -
  have wf: "table_wf t" using assms(1,2) table_of_SomeD by (auto simp: db_wf_def)
  have "table_wf (update_rows c e w v t)"
    using wf assms(4)
    by (auto simp: table_wf_def update_rows_def set_update_where has_column_def map_of_kv_upsert_keys simp flip: set_map)
  with assms(1) show "db_wf (set_table n (update_rows c e w v) d)"
    by (intro set_table_wf [OF assms(2)]) auto
  show "grows P d (set_table n (update_rows c e w v) d)"
    by (rule set_table_grows)
      (use assms(5) in \<open>auto simp: update_rows_def update_where_def list.rel_map row_grows_def intro!: list_all2_refl\<close>)
  show "legacy_plain (set_table n (update_rows c e w v) d)"
  proof (rule set_table_legacy [OF assms(3)])
    fix t' u assume u: "table_of n d = Some t'" "u \<in> set (tbRows (update_rows c e w v t'))" "n = ''users''"
    then obtain r where r: "r \<in> set (tbRows t')" "u = r \<or> u = kv_upsert c (value_of e r) r"
      by (auto simp: update_rows_def set_update_where split: if_splits)
    have "json_plain (text_of (value_of ''tailscale_usernames'' r))"
      using assms(3) u(1,3) r(1) by (auto simp: legacy_plain_def)
    with r(2) assms(5) show "json_plain (text_of (value_of ''tailscale_usernames'' u))"
      by (auto simp: value_of_def)
  qed simp
qed

definition step_ok :: "(string \<times> string) set \<Rightarrow> sql_db \<Rightarrow> sql_db \<Rightarrow> bool" where
  "step_ok P d d' \<longleftrightarrow> (db_wf d \<longrightarrow> legacy_plain d \<longrightarrow> db_wf d' \<and> grows P d d' \<and> legacy_plain d')"

lemma step_ok_refl [simp]: "step_ok P d d"
  by (simp add: step_ok_def)

lemma step_ok_trans: "step_ok P d e \<Longrightarrow> step_ok P e f \<Longrightarrow> step_ok P d f"
  by (auto simp: step_ok_def intro: grows_trans)

lemma exec_stmt_ok:
  assumes "exec_stmt st d = Inr d'" and "stmt_safe P st"
  shows "step_ok P d d'"
  unfolding step_ok_def
proof (intro impI)
  assume d: "db_wf d" "legacy_plain d"
  show "db_wf d' \<and> grows P d d' \<and> legacy_plain d'"
  proof (cases st)
    case (CreateTable n cs)
    with assms d create_table_keeps [OF _ d, where n = n and cs = cs] show ?thesis by (auto split: option.splits)
  next
    case (AddColumn n c)
    with assms obtain t where "table_of n d = Some t" "\<not> has_column (scName c) t" "d' = set_table n (add_column c) d"
      by (auto split: option.splits if_splits)
    with add_column_keeps [OF this(1) d this(2), of P] assms(2) AddColumn show ?thesis by simp
  next
    case (DropColumn n c)
    with assms have "d' = set_table n (drop_column c) d" by (auto split: option.splits if_splits)
    with drop_column_keeps [OF d(1), of n c P] drop_column_legacy [OF d(2)] assms(2) DropColumn show ?thesis by simp
  next
    case (Update n c e w v)
    with assms obtain t where "table_of n d = Some t" "has_column c t" "d' = set_table n (update_rows c e w v) d"
      by (auto split: option.splits if_splits)
    with update_rows_keeps [OF this(1) d this(2), of P e w v] assms(2) Update show ?thesis by simp
  qed
qed

lemma exec_stmts_ok: "exec_stmts sts d = Inr d' \<Longrightarrow> list_all (stmt_safe P) sts \<Longrightarrow> step_ok P d d'"
proof (induction sts arbitrary: d)
  case (Cons st sts)
  then obtain e where e: "exec_stmt st d = Inr e" "exec_stmts sts e = Inr d'"
    by (auto dest: bindE_InrD)
  from exec_stmt_ok [OF e(1)] Cons.IH [OF e(2)] Cons.prems(2) show ?case by (auto intro: step_ok_trans)
qed simp

section \<open>The logins of migration 6\<close>

text \<open>What \<open>json_each\<close> promises for the arrays of texts it is given here.\<close>

definition json_each_reads :: "(string \<Rightarrow> string list option) \<Rightarrow> bool" where
  "json_each_reads je \<longleftrightarrow> (\<forall>s. json_plain s \<longrightarrow> je (json_text s) = Some (Split s (CHR '','')))"

definition listed_logins :: "sql_row \<Rightarrow> string list" where
  "listed_logins u = filter (\<lambda>l. l \<noteq> []) (map (\<lambda>v. sql_trim v) (Split (text_of (value_of ''tailscale_usernames'' u)) (CHR '','')))"

definition login_list :: "sql_row list \<Rightarrow> (string \<times> sql_value) list" where
  "login_list us = concat (map (\<lambda>u. map (\<lambda>l. (l, value_of ''id'' u)) (listed_logins u)) us)"

lemma Trim_eq_Nil_iff: "Trim s cs = [] \<longleftrightarrow> set s \<subseteq> set cs"
proof
  assume "Trim s cs = []"
  then have "\<forall>c \<in> set (dropWhile (\<lambda>c. c \<in> set cs) s). c \<in> set cs"
    by (simp only: Trim_def TrimRight_def rev_is_Nil_conv dropWhile_eq_Nil_conv set_rev)
  then have "dropWhile (\<lambda>c. c \<in> set cs) s = []"
    using hd_dropWhile [of "\<lambda>c. c \<in> set cs" s] hd_in_set [of "dropWhile (\<lambda>c. c \<in> set cs) s"] by blast
  then show "set s \<subseteq> set cs" by (simp only: dropWhile_eq_Nil_conv) blast
next
  assume "set s \<subseteq> set cs"
  then have "dropWhile (\<lambda>c. c \<in> set cs) s = []" by (simp only: dropWhile_eq_Nil_conv) blast
  then show "Trim s cs = []" by (simp only: Trim_def TrimRight_def) simp
qed

lemma Split_absent: "b \<notin> set s \<Longrightarrow> Split s b = [s]"
  by (induction s) auto

lemma listed_logins_blank:
  "sql_trim (text_of (value_of ''tailscale_usernames'' u)) = [] \<Longrightarrow> listed_logins u = []"
proof -
  assume blank: "sql_trim (text_of (value_of ''tailscale_usernames'' u)) = []"
  then have "CHR '','' \<notin> set (text_of (value_of ''tailscale_usernames'' u))"
    by (auto simp: Trim_eq_Nil_iff)
  with blank show "listed_logins u = []" by (simp add: listed_logins_def Split_absent)
qed

lemma login_rows_list:
  assumes "json_each_reads je" and "\<forall>u \<in> set us. json_plain (text_of (value_of ''tailscale_usernames'' u))"
  shows "login_rows je us = Inr (login_list us)"
  using assms(2)
proof (induction us)
  case (Cons u us)
  let ?s = "text_of (value_of ''tailscale_usernames'' u)"
  from Cons have IH: "login_rows je us = Inr (login_list us)" by simp
  have je: "je (json_text ?s) = Some (Split ?s (CHR '',''))"
    using assms(1) Cons.prems by (simp add: json_each_reads_def)
  have "map (\<lambda>v. (sql_trim v, value_of ''id'' u)) (filter (\<lambda>v. sql_trim v \<noteq> []) vs)
      = map (\<lambda>l. (l, value_of ''id'' u)) (filter (\<lambda>l. l \<noteq> []) (map (\<lambda>v. sql_trim v) vs))" for vs
    by (simp add: filter_map o_def)
  with IH je listed_logins_blank [of u] show ?case
    by (simp add: login_list_def listed_logins_def Let_def)
qed (simp add: login_list_def)

definition insert_new :: "string \<times> sql_value \<Rightarrow> (string \<times> sql_value) list \<Rightarrow> (string \<times> sql_value) list" where
  "insert_new l ls = (if fst l \<in> fst ` set ls then ls else ls @ [l])"

lemma value_of_login_row [simp]: "value_of ''login'' (login_row l) = Text (fst l)"
  by (simp add: value_of_def login_row_def)

lemma fold_insert_or_ignore:
  "fold insert_or_ignore ls (map login_row ks) = map login_row (fold insert_new ls ks)"
proof (induction ls arbitrary: ks)
  case (Cons l ls)
  have "insert_or_ignore l (map login_row ks) = map login_row (insert_new l ks)"
    by (auto simp: insert_or_ignore_def insert_new_def image_image)
  with Cons show ?case by simp
qed simp

lemma fold_insert_new:
  assumes "distinct (map fst ks)"
  shows "distinct (map fst (fold insert_new ls ks)) \<and> map_of (fold insert_new ls ks) = map_of (ks @ ls)"
  using assms
proof (induction ls arbitrary: ks)
  case (Cons l ls)
  have "distinct (map fst (insert_new l ks))" using Cons.prems by (simp add: insert_new_def)
  moreover have "map_of (insert_new l ks @ ls) = map_of (ks @ l # ls)"
    by (cases "fst l \<in> fst ` set ks")
      (auto simp: insert_new_def fun_eq_iff map_add_def split: option.split dest: weak_map_of_SomeI)
  ultimately show ?case using Cons.IH [of "insert_new l ks"] by simp
qed simp

text \<open>The owner of a login is the first account, by id, that lists it.\<close>

definition login_owner :: "sql_row list \<Rightarrow> string \<Rightarrow> sql_value option" where
  "login_owner us l = map_option (value_of ''id'') (find (\<lambda>u. l \<in> set (listed_logins u)) us)"

lemma map_of_login_list: "map_of (login_list us) l = login_owner us l"
proof (induction us)
  case (Cons u us)
  have "map_of (map (\<lambda>l. (l, i)) ls) l = (if l \<in> set ls then Some i else None)" for ls and i :: sql_value
    by (induction ls) auto
  with Cons show ?case by (simp add: login_list_def login_owner_def map_add_def)
qed (simp add: login_list_def login_owner_def)

definition migrated_logins :: "sql_row list \<Rightarrow> (string \<times> sql_value) list" where
  "migrated_logins us = fold insert_new (login_list us) []"

lemma migrated_logins_facts:
  "distinct (map fst (migrated_logins us))" "map_of (migrated_logins us) l = login_owner us l"
  using fold_insert_new [of "[]" "login_list us"] by (simp_all add: migrated_logins_def map_of_login_list)

definition logins_table :: sql_table where
  "logins_table = \<lparr>tbName = ''tailscale_logins'',
     tbCols = [keyed PrimaryKey (column ''login'' ''TEXT''), references ''user_id'' ''users''], tbRows = []\<rparr>"

lemma table_of_drop:
  "table_of n (set_table m (drop_column c) d) = (if n = m then map_option (drop_column c) (table_of n d) else table_of n d)"
  by (simp add: table_of_set_table)

text \<open>Migration 6 on a database that still has the column and has no table of logins.\<close>

definition logins_migrated :: "sql_row list \<Rightarrow> sql_db \<Rightarrow> sql_db" where
  "logins_migrated us d = set_table ''users'' (drop_column ''tailscale_usernames'')
     (set_table ''tailscale_logins'' (\<lambda>t. t\<lparr>tbRows := map login_row (migrated_logins us)\<rparr>) (d @ [logins_table]))"

lemma set_table_cong: "(\<And>t. t \<in> set d \<Longrightarrow> tbName t = n \<Longrightarrow> f t = g t) \<Longrightarrow> set_table n f d = set_table n g d"
  by (simp add: set_table_def)

lemma migration6_run:
  assumes "json_each_reads je" and "legacy_plain d" and "table_of ''tailscale_logins'' d = None"
    and t: "table_of ''users'' d = Some t"
    and col: "find (\<lambda>x. scName x = ''tailscale_usernames'') (tbCols t) = Some x" "scKey x = NoKey"
  shows "migration6 je d = Inr (logins_migrated (tbRows t) d)"
proof -
  have new: "exec_stmt create_logins d = Inr (d @ [logins_table])"
    using assms(3) by (simp add: create_logins_def logins_table_def)
  have users: "table_of ''users'' (d @ [logins_table]) = Some t"
    using t by (simp add: table_of_append)
  have has: "has_column ''tailscale_usernames'' t"
    using find_SomeD [OF col(1)] unfolding has_column_def by (metis image_eqI)
  have rows: "login_rows je (tbRows t) = Inr (login_list (tbRows t))"
    using assms(1,2) t by (intro login_rows_list) (auto simp: legacy_plain_def)
  have only: "t' = logins_table" if "t' \<in> set (d @ [logins_table])" "tbName t' = ''tailscale_logins''" for t'
    using that assms(3) by (auto simp: table_of_def find_None_iff)
  have fold: "fold insert_or_ignore (login_list (tbRows t)) [] = map login_row (migrated_logins (tbRows t))"
    using fold_insert_or_ignore [of "login_list (tbRows t)" "[]"] by (simp add: migrated_logins_def)
  have "set_table ''tailscale_logins'' (\<lambda>t'. t'\<lparr>tbRows := fold insert_or_ignore (login_list (tbRows t)) (tbRows t')\<rparr>) (d @ [logins_table])
      = set_table ''tailscale_logins'' (\<lambda>t'. t'\<lparr>tbRows := map login_row (migrated_logins (tbRows t))\<rparr>) (d @ [logins_table])"
  proof (rule set_table_cong)
    fix t' assume "t' \<in> set (d @ [logins_table])" "tbName t' = ''tailscale_logins''"
    then have "tbRows t' = []" using only [of t'] by (simp add: logins_table_def)
    with fold show "t'\<lparr>tbRows := fold insert_or_ignore (login_list (tbRows t)) (tbRows t')\<rparr>
        = t'\<lparr>tbRows := map login_row (migrated_logins (tbRows t))\<rparr>" by simp
  qed
  moreover have "table_of ''users'' (set_table ''tailscale_logins'' f (d @ [logins_table])) = Some t"
    if "\<And>t. tbName (f t) = tbName t" for f
    using users that by (simp add: table_of_set_table)
  ultimately show ?thesis
    by (simp add: migration6_def new users has copy_logins_def rows logins_migrated_def col)
qed

lemma migration6_bare:
  assumes "migration6 je d = Inr d'"
  shows "migration6 je' (bare d) = Inr (bare d')"
proof -
  obtain e where e: "exec_stmt create_logins d = Inr e" using assms by (auto simp: migration6_def dest: bindE_InrD)
  then have be: "exec_stmt create_logins (bare d) = Inr (bare e)" by (simp add: exec_stmt_bare)
  show ?thesis
  proof (cases "table_of ''users'' e")
    case None
    with assms e be show ?thesis by (simp add: migration6_def)
  next
    case (Some t)
    show ?thesis
    proof (cases "has_column ''tailscale_usernames'' t")
      case True
      obtain f where f: "copy_logins je (tbRows t) e = Inr f"
        "exec_stmt (DropColumn ''users'' ''tailscale_usernames'') f = Inr d'"
        using assms e Some True by (auto simp: migration6_def simp del: exec_stmt.simps dest!: bindE_InrD)
      have same: "bare (set_table n (\<lambda>t. t\<lparr>tbRows := h t\<rparr>) e) = bare e" for n h
        by (rule bare_set_rows) (simp add: bare_table_def)
      have "bare f = bare e" using f(1) by (auto simp: copy_logins_def same dest!: bindE_InrD)
      moreover have "copy_logins je' [] (bare e) = Inr (bare e)"
      proof -
        have "set_table n (\<lambda>t. t\<lparr>tbRows := fold insert_or_ignore [] (tbRows t)\<rparr>) (bare e) = bare e" for n
          by (simp add: set_table_def)
        then show ?thesis by (simp add: copy_logins_def)
      qed
      moreover have "exec_stmt (DropColumn ''users'' ''tailscale_usernames'') (bare f) = Inr (bare d')"
        using f(2) by (simp only: exec_stmt_bare) simp
      ultimately show ?thesis
        using be Some True by (simp add: migration6_def has_column_def del: exec_stmt.simps)
    next
      case False
      with assms e be Some show ?thesis by (simp add: migration6_def has_column_def)
    qed
  qed
qed

lemma logins_migrated_ok:
  assumes "table_of ''tailscale_logins'' d = None" and "''tailscale_logins'' \<notin> fst ` P"
    and "(''users'', ''tailscale_usernames'') \<notin> P"
  shows "step_ok P d (logins_migrated us d)"
  unfolding step_ok_def
proof (intro impI)
  assume d: "db_wf d" "legacy_plain d"
  define e where "e = d @ [logins_table]"
  define f where "f = set_table ''tailscale_logins'' (\<lambda>t. t\<lparr>tbRows := map login_row (migrated_logins us)\<rparr>) e"
  have keeps: "db_wf e" "grows P d e" "legacy_plain e"
    unfolding e_def logins_table_def by (rule create_table_keeps [OF assms(1) d], simp add: column_defs)+
  have new: "table_of ''tailscale_logins'' e = Some logins_table"
    using assms(1) by (simp add: e_def table_of_append) (simp add: table_of_def logins_table_def)
  have "table_wf (logins_table\<lparr>tbRows := map login_row (migrated_logins us)\<rparr>)"
    by (auto simp: table_wf_def logins_table_def login_row_def column_defs)
  then have "db_wf f" unfolding f_def by (intro set_table_wf [OF keeps(1)]) (auto simp: new)
  moreover have "grows P e f" unfolding f_def by (rule set_table_grows) (use assms(2) in auto)
  moreover have "legacy_plain f" unfolding f_def by (rule set_table_legacy [OF keeps(3)]) auto
  ultimately show "db_wf (logins_migrated us d) \<and> grows P d (logins_migrated us d) \<and> legacy_plain (logins_migrated us d)"
    using drop_column_keeps [of f "''users''" "''tailscale_usernames''" P] drop_column_legacy [of f] assms(3)
      grows_trans [OF keeps(2)] grows_trans [of P d f]
    unfolding logins_migrated_def by (simp flip: e_def f_def)
qed

section \<open>Running the pending migrations\<close>

fun run_all :: "'d migration list \<Rightarrow> 'd \<Rightarrow> string + 'd" where
  "run_all [] d = Inr d"
| "run_all (m # ms) d = bindE (case mRun m of None \<Rightarrow> Inr d | Some f \<Rightarrow> f d) (run_all ms)"

lemma run_all_append: "run_all (xs @ ys) d = bindE (run_all xs d) (run_all ys)"
proof (induction xs arbitrary: d)
  case (Cons m xs)
  then have "run_all (xs @ ys) = (\<lambda>d. bindE (run_all xs d) (run_all ys))" by (simp add: fun_eq_iff)
  then show ?case by (simp add: bindE_assoc)
qed simp

lemma migrate_from_run_all:
  assumes "run_all (filter (\<lambda>m. c < mVersion m) ms) (mgData db) = Inr d'" and "sorted_wrt (<) (map mVersion ms)"
    and "\<And>x m. x \<in> set (mgVersions db) \<Longrightarrow> m \<in> set ms \<Longrightarrow> c < mVersion m \<Longrightarrow> x < mVersion m"
  shows "migrate_from c ms db = (None, db\<lparr>mgVersions := mgVersions db @ map mVersion (filter (\<lambda>m. c < mVersion m) ms), mgData := d'\<rparr>)"
  using assms
proof (induction ms arbitrary: db)
  case (Cons m ms)
  show ?case
  proof (cases "c < mVersion m")
    case False
    with Cons.prems Cons.IH [of db] show ?thesis by simp
  next
    case True
    with Cons.prems(1) obtain d where d: "(case mRun m of None \<Rightarrow> Inr (mgData db) | Some f \<Rightarrow> f (mgData db)) = Inr d"
      "run_all (filter (\<lambda>m. c < mVersion m) ms) d = Inr d'"
      by (auto dest!: bindE_InrD)
    define db1 where "db1 = db\<lparr>mgVersions := mgVersions db @ [mVersion m], mgData := d\<rparr>"
    have "mVersion m \<notin> set (mgVersions db)" using Cons.prems(3) [of "mVersion m" m] True by auto
    then have "run_migration m db = Inr db1" by (simp add: run_migration_def d(1) db1_def)
    moreover have "migrate_from c ms db1 = (None, db1\<lparr>mgVersions := mgVersions db1 @ map mVersion (filter (\<lambda>m. c < mVersion m) ms), mgData := d'\<rparr>)"
      by (rule Cons.IH) (use Cons.prems(2,3) d(2) in \<open>auto simp: db1_def\<close>)
    ultimately show ?thesis using True by (simp add: db1_def)
  qed
qed simp

text \<open>The schema of a version is what its migrations make of an empty database.\<close>

definition schema :: "nat \<Rightarrow> sql_db" where
  "schema v = (case run_all (take v (migrations (\<lambda>_. None))) [] of Inl _ \<Rightarrow> [] | Inr d \<Rightarrow> d)"

definition columns_of :: "sql_db \<Rightarrow> (string \<times> string) list" where
  "columns_of d = concat (map (\<lambda>t. map (\<lambda>c. (tbName t, scName c)) (tbCols t)) d)"

text \<open>The columns an upgrade from a version keeps.\<close>

definition kept_of :: "sql_db \<Rightarrow> (string \<times> string) set" where
  "kept_of d = set (filter (\<lambda>c. c \<noteq> (''users'', ''tailscale_usernames'')) (columns_of d))"

definition kept :: "nat \<Rightarrow> (string \<times> string) set" where
  "kept v = kept_of (schema v)"

definition sql_before :: "sql_stmt list list" where
  "sql_before = [migration1, migration2, migration3, migration4, migration5]"

definition sql_after :: "sql_stmt list list" where
  "sql_after = [migration7, migration8, migration9, migration10, migration11]"

text \<open>The schemas of all versions, in one run.\<close>

fun run_prefixes :: "'d migration list \<Rightarrow> 'd \<Rightarrow> 'd list" where
  "run_prefixes [] d = [d]"
| "run_prefixes (m # ms) d = d # (case (case mRun m of None \<Rightarrow> Inr d | Some f \<Rightarrow> f d) of Inl _ \<Rightarrow> [] | Inr e \<Rightarrow> run_prefixes ms e)"

lemma run_prefixes_nth: "k < length (run_prefixes ms d) \<Longrightarrow> run_all (take k ms) d = Inr (run_prefixes ms d ! k)"
proof (induction ms arbitrary: d k)
  case (Cons m ms)
  then show ?case by (cases k) (auto split: sum.splits)
qed simp

definition schemas :: "sql_db list" where
  "schemas = run_prefixes (migrations (\<lambda>_. None)) []"

lemma exec_stmts_append: "exec_stmts (xs @ ys) d = bindE (exec_stmts xs d) (exec_stmts ys)"
proof (induction xs arbitrary: d)
  case (Cons st xs)
  then have "exec_stmts (xs @ ys) = (\<lambda>d. bindE (exec_stmts xs d) (exec_stmts ys))" by (simp add: fun_eq_iff)
  then show ?case by (simp add: bindE_assoc del: exec_stmt.simps)
qed simp

lemma run_all_sql: "run_all (map (\<lambda>(n, s). by_sql n s) ns) d = exec_stmts (concat (map snd ns)) d"
proof (induction ns arbitrary: d)
  case (Cons p ns)
  then have "run_all (map (\<lambda>(n, s). by_sql n s) ns) = exec_stmts (concat (map snd ns))" by (simp add: fun_eq_iff)
  then show ?case by (simp add: by_sql_def exec_stmts_append split: prod.split)
qed simp

lemma schemas_length: "length schemas = 12"
  by code_simp

lemma schema_run: "v \<le> 11 \<Longrightarrow> run_all (take v (migrations (\<lambda>_. None))) [] = Inr (schema v)"
  using schemas_length run_prefixes_nth [of v "migrations (\<lambda>_. None)" "[]"] by (simp add: schema_def schemas_def)

lemma schema_nth: "v \<le> 11 \<Longrightarrow> schema v = schemas ! v"
  using schemas_length run_prefixes_nth [of v "migrations (\<lambda>_. None)" "[]"] by (simp add: schema_def schemas_def)

lemma schema_between:
  assumes "v \<le> w" and "w \<le> 11"
  shows "run_all (take (w - v) (drop v (migrations (\<lambda>_. None)))) (schema v) = Inr (schema w)"
proof -
  have "take w (migrations (\<lambda>_. None)) = take v (migrations (\<lambda>_. None)) @ take (w - v) (drop v (migrations (\<lambda>_. None)))"
    using assms(1) take_add [of v "w - v"] by simp
  then show ?thesis
    using schema_run [of w] schema_run [of v] assms by (simp add: run_all_append)
qed

lemma migrations_split:
  "migrations je = map (\<lambda>(n, s). by_sql n s) (zip [1, 2, 3, 4, 5] sql_before)
     @ \<lparr>mVersion = 6, mRun = Some (migration6 je)\<rparr> # map (\<lambda>(n, s). by_sql n s) (zip [7, 8, 9, 10, 11] sql_after)"
  by (simp add: migrations_def sql_before_def sql_after_def)

lemma migrations_versions: "map mVersion (migrations je) = [1, 2, 3, 4, 5, 6, 7, 8, 9, 10, 11]"
  by (simp add: migrations_def by_sql_def)

lemma le_cases: "v \<le> 11 \<Longrightarrow> v \<in> set [0, 1, 2, 3, 4, 5] \<or> v \<in> set [6, 7, 8, 9, 10, 11]" for v :: nat
  unfolding list.set insert_iff empty_iff by arith

lemma migrations_pending: "v \<le> 11 \<Longrightarrow> filter (\<lambda>m. v < mVersion m) (migrations je) = drop v (migrations je)"
  by (drule le_cases) (auto simp: migrations_def by_sql_def)

lemma exec_stmts_lift:
  assumes "exec_stmts sts (bare d) = Inr e"
  obtains d' where "exec_stmts sts d = Inr d'" "bare d' = e"
  using assms by (cases "exec_stmts sts d") (simp_all add: exec_stmts_bare)

lemma run_after:
  assumes "v \<in> set [6, 7, 8, 9, 10, 11]"
  shows "run_all (drop v (migrations je)) d = exec_stmts (concat (drop (v - 6) sql_after)) d"
proof -
  have len: "length (zip [1, 2, 3, 4, 5 :: nat] sql_before) = 5" "6 \<le> v"
    using assms by (auto simp: sql_before_def)
  have "drop v (migrations je) = map (\<lambda>(n, s). by_sql n s) (drop (v - 6) (zip [7, 8, 9, 10, 11] sql_after))"
    unfolding migrations_split using len by (simp add: drop_Cons' drop_map)
  then have "run_all (drop v (migrations je)) d = exec_stmts (concat (map snd (drop (v - 6) (zip [7, 8, 9, 10, 11 :: nat] sql_after)))) d"
    by (simp only: run_all_sql)
  also have "map snd (drop (v - 6) (zip [7, 8, 9, 10, 11 :: nat] sql_after)) = drop (v - 6) sql_after"
    by (simp add: sql_after_def flip: drop_map)
  finally show ?thesis .
qed

lemma run_before:
  assumes "v \<in> set [0, 1, 2, 3, 4, 5]"
  shows "run_all (drop v (migrations je)) d
    = bindE (exec_stmts (concat (drop v sql_before)) d) (\<lambda>e. bindE (migration6 je e) (exec_stmts (concat sql_after)))"
proof -
  have split: "drop v (migrations je) = map (\<lambda>(n, s). by_sql n s) (drop v (zip [1, 2, 3, 4, 5] sql_before))
     @ \<lparr>mVersion = 6, mRun = Some (migration6 je)\<rparr> # map (\<lambda>(n, s). by_sql n s) (zip [7, 8, 9, 10, 11] sql_after)"
    unfolding migrations_split using assms by (auto simp: sql_before_def)
  have before: "map snd (drop v (zip [1, 2, 3, 4, 5 :: nat] sql_before)) = drop v sql_before"
    by (simp add: sql_before_def flip: drop_map)
  have "map snd (zip [7, 8, 9, 10, 11 :: nat] sql_after) = sql_after"
    by (simp add: sql_after_def)
  then have after: "run_all (map (\<lambda>(n, s). by_sql n s) (zip [7, 8, 9, 10, 11] sql_after)) = exec_stmts (concat sql_after)"
    by (simp only: run_all_sql fun_eq_iff) simp
  have "run_all (\<lparr>mVersion = 6, mRun = Some (migration6 je)\<rparr> # map (\<lambda>(n, s). by_sql n s) (zip [7, 8, 9, 10, 11] sql_after))
      = (\<lambda>e. bindE (migration6 je e) (exec_stmts (concat sql_after)))"
    unfolding run_all.simps(2) after by (simp add: fun_eq_iff)
  then show ?thesis unfolding split run_all_append run_all_sql before by simp
qed

lemma before_schema:
  assumes "v \<in> set [0, 1, 2, 3, 4, 5]"
  shows "exec_stmts (concat (drop v sql_before)) (schema v) = Inr (schema 5)"
proof -
  have five: "take (5 - v) (drop v (migrations (\<lambda>_. None))) = map (\<lambda>(n, s). by_sql n s) (drop v (zip [1, 2, 3, 4, 5] sql_before))"
    unfolding migrations_split using assms by (auto simp: sql_before_def)
  have "map snd (drop v (zip [1, 2, 3, 4, 5 :: nat] sql_before)) = drop v sql_before"
    by (simp add: sql_before_def flip: drop_map)
  then show ?thesis using schema_between [of v 5] assms unfolding five run_all_sql by auto
qed

lemma after_schema:
  assumes "v \<in> set [6, 7, 8, 9, 10, 11]"
  shows "exec_stmts (concat (drop (v - 6) sql_after)) (schema v) = Inr (schema 11)"
proof -
  have "v \<le> 11" using assms by auto
  moreover have "length (migrations (\<lambda>_. None)) = 11" by (simp add: migrations_def)
  ultimately have "run_all (drop v (migrations (\<lambda>_. None))) (schema v) = Inr (schema 11)"
    using schema_between [of v 11] by simp
  then show ?thesis by (simp add: run_after [OF assms])
qed

lemma six_schema: "migration6 (\<lambda>_. None) (schema 5) = Inr (schema 6)"
proof -
  have "take (6 - 5) (drop 5 (migrations (\<lambda>_. None))) = [\<lparr>mVersion = 6, mRun = Some (migration6 (\<lambda>_. None))\<rparr>]"
    by (simp add: migrations_def)
  with schema_between [of 5 6] show ?thesis by (cases "migration6 (\<lambda>_. None) (schema 5)") simp_all
qed

text \<open>What has to be evaluated: the columns that are written and the tables that are made later are not
  among those of the version.\<close>

lemma schema_safe:
  "list_all (\<lambda>v. list_all (stmt_safe (kept v)) (concat (drop v sql_before))) [0, 1, 2, 3, 4, 5]"
  "list_all (stmt_safe P) (concat sql_after)"
  "list_all (\<lambda>v. list_all (\<lambda>c. fst c \<noteq> ''tailscale_logins'') (columns_of (schema v))) [0, 1, 2, 3, 4, 5]"
  "table_of ''tailscale_logins'' (schema 5) = None"
  by code_simp+

lemma safe_before:
  assumes "v \<in> set [0, 1, 2, 3, 4, 5]"
  shows "list_all (stmt_safe (kept v)) (concat (drop v sql_before))" "''tailscale_logins'' \<notin> fst ` kept v"
proof -
  show "list_all (stmt_safe (kept v)) (concat (drop v sql_before))"
    using schema_safe(1) assms unfolding list_all_iff [of _ "[0, 1, 2, 3, 4, 5]"] by blast
  have "list_all (\<lambda>c. fst c \<noteq> ''tailscale_logins'') (columns_of (schema v))"
    using schema_safe(3) assms unfolding list_all_iff [of _ "[0, 1, 2, 3, 4, 5]"] by blast
  then show "''tailscale_logins'' \<notin> fst ` kept v"
    by (auto simp only: kept_def kept_of_def list_all_iff set_filter)
qed

lemma safe_after: "list_all (stmt_safe P) (concat (drop k sql_after))"
proof -
  have "set (concat (drop k sql_after)) \<subseteq> set (concat sql_after)" using set_drop_subset [of k sql_after] by auto
  with schema_safe(2) [of P] show ?thesis unfolding list_all_iff by blast
qed

lemma upgrade_after:
  assumes "v \<in> set [6, 7, 8, 9, 10, 11]" and "bare d = schema v"
  shows "\<exists>d'. run_all (drop v (migrations je)) d = Inr d' \<and> bare d' = schema 11 \<and> step_ok (kept v) d d'"
proof -
  obtain d' where d': "exec_stmts (concat (drop (v - 6) sql_after)) d = Inr d'" "bare d' = schema 11"
    by (rule exec_stmts_lift [of "concat (drop (v - 6) sql_after)" d "schema 11"])
      (use after_schema [OF assms(1)] assms(2) in simp_all)
  have "run_all (drop v (migrations je)) d = Inr d'" using d'(1) run_after [OF assms(1)] by simp
  moreover have "step_ok (kept v) d d'"
    by (rule exec_stmts_ok [OF d'(1)]) (rule safe_after)
  ultimately show ?thesis using d'(2) by blast
qed

lemma schema_users:
  "case table_of ''users'' (schema 5) of None \<Rightarrow> False
   | Some t \<Rightarrow> (case find (\<lambda>x. scName x = ''tailscale_usernames'') (tbCols t) of None \<Rightarrow> False | Some x \<Rightarrow> scKey x = NoKey)"
  by code_simp

lemma migration6_upgrade:
  assumes "json_each_reads je" and "legacy_plain d" and "bare d = schema 5"
  shows "\<exists>t. table_of ''users'' d = Some t \<and> migration6 je d = Inr (logins_migrated (tbRows t) d)
    \<and> bare (logins_migrated (tbRows t) d) = schema 6 \<and> table_of ''tailscale_logins'' d = None"
proof -
  have none: "table_of ''tailscale_logins'' d = None"
    using schema_safe(4) unfolding assms(3) [symmetric] by simp
  obtain t x where t: "table_of ''users'' d = Some t"
    "find (\<lambda>x. scName x = ''tailscale_usernames'') (tbCols t) = Some x" "scKey x = NoKey"
    using schema_users unfolding assms(3) [symmetric] by (auto split: option.splits)
  have run: "migration6 je d = Inr (logins_migrated (tbRows t) d)"
    by (rule migration6_run [OF assms(1,2) none t])
  from migration6_bare [OF run, of "\<lambda>_. None"] have "bare (logins_migrated (tbRows t) d) = schema 6"
    using six_schema assms(3) by simp
  with run t(1) none show ?thesis by blast
qed

lemma upgrade_before:
  assumes "json_each_reads je" and "db_wf d" and "legacy_plain d"
    and "v \<in> set [0, 1, 2, 3, 4, 5]" and "bare d = schema v"
  shows "\<exists>d'. run_all (drop v (migrations je)) d = Inr d' \<and> bare d' = schema 11 \<and> step_ok (kept v) d d'"
proof -
  obtain d5 where d5: "exec_stmts (concat (drop v sql_before)) d = Inr d5" "bare d5 = schema 5"
    by (rule exec_stmts_lift [of "concat (drop v sql_before)" d "schema 5"])
      (use before_schema [OF assms(4)] assms(5) in simp_all)
  have safe: "list_all (stmt_safe (kept v)) (concat (drop v sql_before))" "list_all (stmt_safe (kept v)) (concat sql_after)"
    using safe_before(1) [OF assms(4)] schema_safe(2) by blast+
  have ok5: "step_ok (kept v) d d5" by (rule exec_stmts_ok [OF d5(1) safe(1)])
  then have "legacy_plain d5" using assms(2,3) by (simp add: step_ok_def)
  from migration6_upgrade [OF assms(1) this d5(2)] obtain d6 us where d6: "migration6 je d5 = Inr d6"
    "d6 = logins_migrated us d5" "bare d6 = schema 6" "table_of ''tailscale_logins'' d5 = None" by blast
  have ok6: "step_ok (kept v) d5 d6"
    unfolding d6(2) by (rule logins_migrated_ok [OF d6(4)]) (use safe_before(2) [OF assms(4)] in \<open>simp_all add: kept_def kept_of_def\<close>)
  obtain d' where d': "exec_stmts (concat sql_after) d6 = Inr d'" "bare d' = schema 11"
    by (rule exec_stmts_lift [of "concat sql_after" d6 "schema 11"])
      (use after_schema [of 6] d6(3) in simp_all)
  have "run_all (drop v (migrations je)) d = Inr d'"
    using d5(1) d6(1) d'(1) by (simp add: run_before [OF assms(4)])
  moreover have "step_ok (kept v) d d'"
    using ok5 ok6 exec_stmts_ok [OF d'(1) safe(2)] by (blast intro: step_ok_trans)
  ultimately show ?thesis using d'(2) by blast
qed


section \<open>The queries\<close>

definition userSelectCols :: "string list" where
  "userSelectCols = [''id'', ''username'', ''password'', ''permission'', ''full_name'', ''avatar_url'', ''qrz_username'',
     ''qrz_password_enc'', ''lookup_source'', ''webauthn_id'']"

definition nodeColumns :: "string list" where
  "nodeColumns = [''id'', ''name'', ''node_number'', ''ami_host'', ''ami_port'', ''ami_user'', ''ami_pass'', ''enabled'',
     ''description'', ''location'']"

definition favColumns :: "string list" where
  "favColumns = [''id'', ''node_id'', ''node_number'', ''callsign'', ''description'', ''location'', ''cmd'', ''sort_order'',
     ''group_name'', ''position'']"

text \<open>The columns the other queries name, by table.\<close>

definition queried :: "(string \<times> string list) list" where
  "queried =
     [(''users'', userSelectCols), (''nodes'', nodeColumns), (''favorites'', favColumns),
      (''configs'', [''key'', ''value'', ''updated_at'']), (''tailscale_logins'', [''login'', ''user_id'']),
      (''stats_cache'', [''node_number'', ''stats_json'', ''updated_at'']),
      (''qrz_cache'', [''callsign'', ''record_json'', ''fetched_at'']),
      (''webauthn_credentials'', [''id'', ''user_id'', ''credential_id'', ''name'', ''credential_json'', ''created_at'', ''last_used_at'']),
      (''webauthn_sessions'', [''session_id'', ''ceremony'', ''user_id'', ''session_json'', ''expires_at'', ''rpid'', ''origin''])]"

lemma queried_columns: "\<forall>(n, cs) \<in> set queried. \<forall>c \<in> set cs. (n, c) \<in> set (columns_of (schema 11))"
  by code_simp

section \<open>Properties\<close>

text \<open>A database file as a release left it whose last migration was \<open>v\<close>.\<close>

definition at_version :: "nat \<Rightarrow> sql_db migrated \<Rightarrow> bool" where
  "at_version v db \<longleftrightarrow> SchemaVersion db = v \<and> bare (mgData db) = schema v \<and> db_wf (mgData db)"

lemma migrate_pending:
  assumes "run_all (drop v (migrations je)) (mgData db) = Inr d'" and "SchemaVersion db = v" and "v \<le> 11"
  shows "migrate (migrations je) db
    = (None, db\<lparr>mgVersions := mgVersions db @ map mVersion (drop v (migrations je)), mgData := d'\<rparr>)"
proof -
  have "migrate_from v (migrations je) db
      = (None, db\<lparr>mgVersions := mgVersions db @ map mVersion (filter (\<lambda>m. v < mVersion m) (migrations je)), mgData := d'\<rparr>)"
  proof (rule migrate_from_run_all)
    show "run_all (filter (\<lambda>m. v < mVersion m) (migrations je)) (mgData db) = Inr d'"
      using assms(1,3) by (simp add: migrations_pending)
    show "sorted_wrt (<) (map mVersion (migrations je))" by (simp add: migrations_versions)
    show "x < mVersion m" if "x \<in> set (mgVersions db)" "v < mVersion m" for x m
      using that assms(2) foldl_max_ge [of x "mgVersions db" 0] by (simp add: SchemaVersion_def)
  qed
  with assms(2,3) show ?thesis by (simp add: migrate_def migrations_pending)
qed

lemma foldl_max_append: "foldl max a (xs @ ys) = foldl max (foldl max a xs) ys"
  by simp

lemma migrated_version:
  "v \<le> 11 \<Longrightarrow> foldl max v (map mVersion (drop v (migrations je))) = 11"
  unfolding drop_map [symmetric] migrations_versions by (drule le_cases) (auto simp: max_def)

text \<open>C5: a database of any release whose stored comma-separated Tailscale logins hold no double quote, backslash or
  control character is upgraded by opening it, when SQLite's \<open>json_each\<close> reads arrays of such texts:
  it ends at the last version
  with the schema of a new database, which has every column the queries name, and each row that was there
  has the values it had; only the column of comma-separated logins goes.\<close>

theorem Open_upgrades:
  assumes "json_each_reads je" and "v \<le> 11" and "at_version v db" and "legacy_plain (mgData db)"
  shows "\<exists>db'. Open je None None db = (None, db') \<and> at_version 11 db' \<and> grows (kept v) (mgData db) (mgData db')
    \<and> (\<forall>(n, cs) \<in> set queried. \<forall>c \<in> set cs. (n, c) \<in> set (columns_of (mgData db')))"
proof -
  have db: "SchemaVersion db = v" "bare (mgData db) = schema v" "db_wf (mgData db)"
    using assms(3) by (simp_all add: at_version_def)
  obtain d' where d': "run_all (drop v (migrations je)) (mgData db) = Inr d'" "bare d' = schema 11"
    "step_ok (kept v) (mgData db) d'"
    using le_cases [OF assms(2)] upgrade_after [OF _ db(2), of je] upgrade_before [OF assms(1) db(3) assms(4) _ db(2)]
    by blast
  define db' where "db' = db\<lparr>mgVersions := mgVersions db @ map mVersion (drop v (migrations je)), mgData := d'\<rparr>"
  have "Open je None None db = (None, db')"
    by (simp add: Open_def migrate_pending [OF d'(1) db(1) assms(2)] db'_def)
  moreover have "SchemaVersion db' = 11"
    using db(1) migrated_version [OF assms(2), of je] by (simp add: SchemaVersion_def db'_def)
  moreover have "columns_of d' = columns_of (schema 11)"
    unfolding d'(2) [symmetric] by (simp add: columns_of_def bare_def o_def)
  ultimately show ?thesis
    using d'(2,3) db(3) assms(4) queried_columns by (auto simp: at_version_def step_ok_def db'_def)
qed

text \<open>A reader of arrays of plain texts.\<close>

fun json_texts :: "string \<Rightarrow> string \<Rightarrow> string list option" where
  "json_texts acc [] = None"
| "json_texts acc (c # s) =
     (if c = CHR ''\"'' then
        (if s = '']'' then Some [rev acc]
         else if prefix '',\"'' s then map_option (Cons (rev acc)) (json_texts [] (drop 2 s)) else None)
      else if c = CHR 0x5C \<or> (of_char c :: nat) < 32 then None
      else json_texts (c # acc) s)"

definition json_array :: "string \<Rightarrow> string list option" where
  "json_array s = (if prefix ''[\"'' s then json_texts [] (drop 2 s) else None)"

lemma json_texts_read:
  assumes "json_plain s"
  shows "json_texts acc (ReplaceAll s '','' ''\",\"'' @ ''\"]'') = (case Split s (CHR '','') of [] \<Rightarrow> None | p # ps \<Rightarrow> Some ((rev acc @ p) # ps))"
  using assms
proof (induction s arbitrary: acc)
  case Nil
  then show ?case by (simp add: ReplaceAll.simps)
next
  case (Cons c s)
  then have s: "json_plain s" and c: "c \<noteq> CHR ''\"''" "c \<noteq> CHR 0x5C" "32 \<le> (of_char c :: nat)" by (simp_all add: json_plain_def)
  obtain p ps where ps: "Split s (CHR '','') = p # ps" by (cases "Split s (CHR '','')") (auto elim: Split.elims split: if_splits list.splits)
  show ?case
  proof (cases "c = CHR '',''")
    case True
    have "ReplaceAll (c # s) '','' ''\",\"'' = ''\",\"'' @ ReplaceAll s '','' ''\",\"''"
      by (subst ReplaceAll.simps) (simp add: True)
    with Cons.IH [OF s, of "[]"] ps True show ?thesis by simp
  next
    case False
    have "ReplaceAll (c # s) '','' ''\",\"'' = c # ReplaceAll s '','' ''\",\"''"
      by (subst ReplaceAll.simps) (use False in simp)
    with Cons.IH [OF s, of "c # acc"] ps False c show ?thesis by simp
  qed
qed

lemma json_array_reads: "json_each_reads json_array"
  unfolding json_each_reads_def
proof (intro allI impI)
  fix s assume "json_plain s"
  from json_texts_read [OF this, of "[]"]
  have "json_array (json_text s) = (case Split s (CHR '','') of [] \<Rightarrow> None | p # ps \<Rightarrow> Some (p # ps))"
    by (simp add: json_array_def json_text_def cong: list.case_cong)
  moreover have "Split s (CHR '','') \<noteq> []" by (cases s) (auto split: list.splits)
  ultimately show "json_array (json_text s) = Some (Split s (CHR '',''))" by (simp split: list.splits)
qed

definition old_users :: "sql_row list" where
  "old_users =
     [[(''id'', Integer 1), (''username'', Text ''w1aw''), (''password'', Text ''*''), (''permission'', Text ''superuser''),
       (''created_at'', Null), (''full_name'', Text []), (''avatar_url'', Text []),
       (''tailscale_usernames'', Text ''a@x, b@x'')],
      [(''id'', Integer 2), (''username'', Text ''n0call''), (''password'', Text ''*''), (''permission'', Text ''readonly''),
       (''created_at'', Null), (''full_name'', Text []), (''avatar_url'', Text []),
       (''tailscale_usernames'', Text ''b@x,,c@x'')]]"

definition old_db :: "sql_db migrated" where
  "old_db = \<lparr>mgVersions = [1, 2, 3, 4, 5], mgData = set_table ''users'' (\<lambda>t. t\<lparr>tbRows := old_users\<rparr>) (schema 5)\<rparr>"

lemma old_db_facts:
  "at_version 5 old_db" "legacy_plain (mgData old_db)" "bare (mgData old_db) = schema 5"
  by code_simp+

lemma Open_upgrades_witness:
  "at_version 5 old_db \<and> (\<exists>db'. Open json_array None None old_db = (None, db') \<and> at_version 11 db'
     \<and> grows (kept 5) (mgData old_db) (mgData db'))"
  using Open_upgrades [of json_array 5 old_db] json_array_reads old_db_facts(1,2) by auto

text \<open>migration 6 turns the comma-separated logins of the accounts into rows, one for each login
  that some account lists, trimmed of spaces, and a login that several list goes to the first of them.\<close>

lemma migration6_logins:
  assumes "json_each_reads je" and "legacy_plain d" and "bare d = schema 5" and "table_of ''users'' d = Some t"
  shows "\<exists>d' t' ls. migration6 je d = Inr d' \<and> table_of ''tailscale_logins'' d' = Some t' \<and> tbRows t' = map login_row ls
    \<and> distinct (map fst ls) \<and> (\<forall>l. map_of ls l = login_owner (tbRows t) l)"
proof -
  have run: "migration6 je d = Inr (logins_migrated (tbRows t) d)" "table_of ''tailscale_logins'' d = None"
    using migration6_upgrade [OF assms(1-3)] assms(4) by auto
  have "table_of ''tailscale_logins'' (logins_migrated (tbRows t) d)
      = Some (logins_table\<lparr>tbRows := map login_row (migrated_logins (tbRows t))\<rparr>)"
    unfolding logins_migrated_def using run(2)
    by (simp add: table_of_set_table table_of_append) (simp add: table_of_def logins_table_def)
  with run(1) migrated_logins_facts show ?thesis by fastforce
qed

lemma migration6_logins_witness:
  "login_owner old_users ''b@x'' = Some (Integer 1) \<and> login_owner old_users ''c@x'' = Some (Integer 2)
   \<and> (\<exists>d' t' ls. migration6 json_array (mgData old_db) = Inr d' \<and> table_of ''tailscale_logins'' d' = Some t'
     \<and> tbRows t' = map login_row ls \<and> distinct (map fst ls) \<and> (\<forall>l. map_of ls l = login_owner old_users l))"
proof -
  have owners: "login_owner old_users ''b@x'' = Some (Integer 1)" "login_owner old_users ''c@x'' = Some (Integer 2)"
    by code_simp+
  obtain t where t: "table_of ''users'' (mgData old_db) = Some t" "tbRows t = old_users"
  proof -
    have "(case table_of ''users'' (mgData old_db) of None \<Rightarrow> False | Some t \<Rightarrow> tbRows t = old_users)" by code_simp
    then show ?thesis using that by (auto split: option.splits)
  qed
  from migration6_logins [OF json_array_reads old_db_facts(2,3) t(1)] owners show ?thesis unfolding t(2) by blast
qed

text \<open>A double quote in a stored login makes the array malformed: the upgrade fails, at every start.\<close>

definition quoted_db :: "sql_db migrated" where
  "quoted_db = \<lparr>mgVersions = [1, 2, 3, 4, 5], mgData = set_table ''users''
     (\<lambda>t. t\<lparr>tbRows := [kv_upsert ''tailscale_usernames'' (Text ''\"a\"@x'') (hd old_users)]\<rparr>) (schema 5)\<rparr>"

lemma quote_stops_upgrade:
  "at_version 5 quoted_db" "Open json_array None None quoted_db = (Some (Migrate (6, ''malformed JSON'')), quoted_db)"
  by code_simp+

end
