(* ===== verification/Db_Readable.thy ===== *)
theory Db_Readable
  imports Db_Upgrade
begin

text \<open>
  Reading the rows of an upgraded database (\<open>scanUser\<close>, \<open>scanNode\<close> and \<open>scanFavorite\<close> of \<open>internal/db\<close>):
  the statements of the migrations keep every value within the type of its column, so that the rows of any
  release, with the columns that came later, can be scanned into the structs.
\<close>

section \<open>Scanning\<close>

text \<open>\<open>Rows.Scan\<close> of \<open>database/sql\<close> into a \<open>string\<close>, an \<open>int64\<close> and a \<open>[]byte\<close>; \<open>None\<close> is its error.\<close>

fun scan_string :: "sql_value \<Rightarrow> string option" where
  "scan_string Null = None"
| "scan_string v = Some (text_of v)"

fun scan_int :: "sql_value \<Rightarrow> int option" where
  "scan_int Null = None"
| "scan_int (Integer i) = Some i"
| "scan_int (Text s) = ParseInt s"

fun scan_bytes :: "sql_value \<Rightarrow> string option" where
  "scan_bytes Null = Some []"
| "scan_bytes v = Some (text_of v)"

definition scanUser :: "sql_row \<Rightarrow> user option" where
  "scanUser r =
     (case (scan_int (value_of ''id'' r), map (\<lambda>c. scan_string (value_of c r))
         [''username'', ''password'', ''permission'', ''full_name'', ''avatar_url'', ''qrz_username'', ''qrz_password_enc'', ''lookup_source''],
         scan_bytes (value_of ''webauthn_id'' r)) of
        (Some i, [Some name, Some pw, Some perm, Some full, Some avatar, Some qrz, Some enc, Some source], Some wid) \<Rightarrow>
          Some \<lparr>uID = i, uUsername = name, uPassword = pw, uPermission = perm, uFullName = full, uAvatarURL = avatar,
            uQRZUsername = qrz, uQRZPasswordEnc = enc, uLookupSource = source, uWebAuthnID = wid\<rparr>
      | _ \<Rightarrow> None)"

definition scanNode :: "sql_row \<Rightarrow> node option" where
  "scanNode r =
     (case (map (\<lambda>c. scan_int (value_of c r)) [''id'', ''ami_port'', ''enabled''],
         map (\<lambda>c. scan_string (value_of c r))
           [''name'', ''node_number'', ''ami_host'', ''ami_user'', ''ami_pass'', ''description'', ''location'']) of
        ([Some i, Some port, Some enabled], [Some name, Some num, Some host, Some user, Some pass, Some descr, Some loc]) \<Rightarrow>
          Some \<lparr>nID = i, nName = name, nNodeNumber = num, nAMIHost = host, nAMIPort = port, nAMIUser = user,
            nAMIPass = pass, nEnabled = (enabled \<noteq> 0), nDescription = descr, nLocation = loc\<rparr>
      | _ \<Rightarrow> None)"

definition scanFavorite :: "sql_row \<Rightarrow> favorite option" where
  "scanFavorite r =
     (case (map (\<lambda>c. scan_int (value_of c r)) [''id'', ''node_id'', ''sort_order'', ''position''],
         map (\<lambda>c. scan_string (value_of c r)) [''node_number'', ''callsign'', ''description'', ''location'', ''cmd'', ''group_name'']) of
        ([Some i, Some nid, Some order, Some pos], [Some num, Some call, Some descr, Some loc, Some cmd, Some grp]) \<Rightarrow>
          Some \<lparr>fID = i, fNodeID = nid, fNodeNumber = num, fCallsign = call, fDescription = descr, fLocation = loc,
            fCmd = cmd, fSortOrder = order, fGroupName = grp, fPosition = pos\<rparr>
      | _ \<Rightarrow> None)"

section \<open>Values within the type of their column\<close>

text \<open>What SQLite's type affinity and the constraints leave in a column.\<close>

definition value_fits :: "sql_column \<Rightarrow> sql_value \<Rightarrow> bool" where
  "value_fits c v = (case v of
     Null \<Rightarrow> \<not> scNotNull c \<and> scKey c \<noteq> AutoIncrement
   | Integer i \<Rightarrow> scType c = ''INTEGER''
   | Text s \<Rightarrow> scType c \<noteq> ''INTEGER'')"

definition table_typed :: "sql_table \<Rightarrow> bool" where
  "table_typed t \<longleftrightarrow> (\<forall>r \<in> set (tbRows t). \<forall>c \<in> set (tbCols t). value_fits c (value_of (scName c) r))"

definition db_typed :: "sql_db \<Rightarrow> bool" where
  "db_typed d \<longleftrightarrow> (\<forall>t \<in> set d. table_typed t)"

text \<open>What a statement must respect, given the columns of the database.\<close>

fun stmt_typed :: "sql_db \<Rightarrow> sql_stmt \<Rightarrow> bool" where
  "stmt_typed d (CreateTable n cs) = True"
| "stmt_typed d (AddColumn n c) = value_fits c (default_value c)"
| "stmt_typed d (DropColumn n c) = True"
| "stmt_typed d (Update n c e w v) =
     (\<forall>t \<in> set d. tbName t = n \<longrightarrow> (\<forall>x \<in> set (tbCols t). \<forall>y \<in> set (tbCols t). scName x = c \<longrightarrow> scName y = e
        \<longrightarrow> scType x = scType y \<and> (scNotNull x \<longrightarrow> scNotNull y \<or> scKey y = AutoIncrement) \<and> (scKey x = AutoIncrement \<longrightarrow> scKey y = AutoIncrement)))"

fun stmts_typed :: "sql_stmt list \<Rightarrow> sql_db \<Rightarrow> bool" where
  "stmts_typed [] d = True"
| "stmts_typed (st # sts) d = (stmt_typed d st \<and> (case exec_stmt st d of Inl _ \<Rightarrow> True | Inr e \<Rightarrow> stmts_typed sts e))"

lemma set_table_typed:
  assumes "db_typed d" and "\<And>t. t \<in> set d \<Longrightarrow> tbName t = n \<Longrightarrow> table_typed (f t)"
  shows "db_typed (set_table n f d)"
  using assms by (auto simp: db_typed_def set_table_def)

lemma value_of_append: "c \<notin> fst ` set r \<Longrightarrow> value_of c' (r @ [(c, v)]) = (if c' = c then v else value_of c' r)"
  by (auto simp: value_of_def map_add_def map_of_eq_None_iff [symmetric] split: option.splits)

lemma add_column_typed:
  assumes "table_wf t" and "table_typed t" and "\<not> has_column (scName c) t" and "value_fits c (default_value c)"
  shows "table_typed (add_column c t)"
  unfolding table_typed_def
proof (intro ballI)
  fix r' x assume "r' \<in> set (tbRows (add_column c t))" and x: "x \<in> set (tbCols (add_column c t))"
  then obtain r where r: "r \<in> set (tbRows t)" "r' = r @ [(scName c, default_value c)]" by (auto simp: add_column_def)
  have "fst ` set r = scName ` set (tbCols t)"
    using assms(1) r(1) unfolding table_wf_def by (metis list.set_map)
  then have new: "value_of (scName x) r' = (if scName x = scName c then default_value c else value_of (scName x) r)"
    unfolding r(2) using assms(3) by (intro value_of_append) (simp add: has_column_def)
  show "value_fits x (value_of (scName x) r')"
  proof (cases "x \<in> set (tbCols t)")
    case True
    then have "scName x \<noteq> scName c" using assms(3) unfolding has_column_def by (metis image_eqI)
    with new True assms(2) r(1) show ?thesis by (simp add: table_typed_def)
  next
    case False
    then have "x = c" using x by (simp add: add_column_def)
    with new assms(4) show ?thesis by simp
  qed
qed

lemma drop_column_typed: "table_typed t \<Longrightarrow> table_typed (drop_column c t)"
  by (auto simp: table_typed_def drop_column_def value_of_def map_of_without_key)

lemma value_of_upsert: "value_of c' (kv_upsert c v r) = (if c' = c then v else value_of c' r)"
  by (simp add: value_of_def)

lemma update_rows_typed:
  assumes "table_typed t" and "has_column e t" and "stmt_typed [t] (Update (tbName t) c e w v)"
  shows "table_typed (update_rows c e w v t)"
  unfolding table_typed_def
proof (intro ballI)
  fix r' x assume "r' \<in> set (tbRows (update_rows c e w v t))" and x: "x \<in> set (tbCols (update_rows c e w v t))"
  then obtain r where r: "r \<in> set (tbRows t)" "r' = r \<or> r' = kv_upsert c (value_of e r) r"
    by (auto simp: update_rows_def set_update_where split: if_splits)
  have old: "value_fits y (value_of (scName y) r)" if "y \<in> set (tbCols t)" for y
    using assms(1) r(1) that by (simp add: table_typed_def)
  obtain y where y: "y \<in> set (tbCols t)" "scName y = e" using assms(2) by (auto simp: has_column_def)
  have "value_fits x (value_of e r)" if "scName x = c"
    using old [OF y(1)] assms(3) x y that by (auto simp: value_fits_def split: sql_value.splits)
  with r(2) old [of x] x show "value_fits x (value_of (scName x) r')"
    by (auto simp: value_of_upsert)
qed

lemma exec_stmt_typed:
  assumes "exec_stmt st d = Inr d'" and "db_wf d" and "db_typed d" and "stmt_typed d st"
  shows "db_typed d'"
proof -
  have same: "table_of (tbName t) d = Some t" if "t \<in> set d" for t
    using assms(2) that by (simp add: db_wf_def table_of_def find_unique)
  show ?thesis
  proof (cases st)
    case (CreateTable n cs)
    with assms(1,3) show ?thesis by (auto simp: db_typed_def table_typed_def split: option.splits)
  next
    case (AddColumn n c)
    with assms(1) have d': "d' = set_table n (add_column c) d"
      and new: "\<And>t. table_of n d = Some t \<Longrightarrow> \<not> has_column (scName c) t"
      by (auto split: option.splits if_splits)
    show ?thesis unfolding d'
    proof (rule set_table_typed [OF assms(3)])
      fix t assume t: "t \<in> set d" "tbName t = n"
      then show "table_typed (add_column c t)"
        using new same [OF t(1)] assms(2-4) AddColumn by (intro add_column_typed) (auto simp: db_wf_def db_typed_def)
    qed
  next
    case (DropColumn n c)
    with assms(1) have d': "d' = set_table n (drop_column c) d" by (auto split: option.splits if_splits)
    with assms(3) show ?thesis
      unfolding d' by (intro set_table_typed) (auto simp: db_typed_def intro: drop_column_typed)
  next
    case (Update n c e w v)
    with assms(1) have d': "d' = set_table n (update_rows c e w v) d"
      and has: "\<And>t. table_of n d = Some t \<Longrightarrow> has_column e t"
      by (auto split: option.splits if_splits)
    show ?thesis unfolding d'
    proof (rule set_table_typed [OF assms(3)])
      fix t assume t: "t \<in> set d" "tbName t = n"
      have "stmt_typed [t] (Update (tbName t) c e w v)" using assms(4) Update t by simp
      with t has same [OF t(1)] assms(3) show "table_typed (update_rows c e w v t)"
        by (intro update_rows_typed) (auto simp: db_typed_def)
    qed
  qed
qed

lemma stmt_typed_bare: "stmt_typed (bare d) st = stmt_typed d st"
  by (cases st) (simp_all add: bare_def)

lemma exec_stmts_typed:
  assumes "exec_stmts sts d = Inr d'" and "db_wf d" and "legacy_plain d" and "db_typed d"
    and "stmts_typed sts (bare d)" and "list_all (stmt_safe P) sts"
  shows "db_typed d'"
  using assms
proof (induction sts arbitrary: d)
  case (Cons st sts)
  then obtain e where e: "exec_stmt st d = Inr e" "exec_stmts sts e = Inr d'" by (auto dest: bindE_InrD)
  have typed: "stmt_typed d st" "stmts_typed sts (bare e)"
    using Cons.prems(5) e(1) by (simp_all add: stmt_typed_bare exec_stmt_bare del: stmt_typed.simps exec_stmt.simps)
  have "db_wf e" "legacy_plain e"
    using exec_stmt_ok [OF e(1), of P] Cons.prems(2,3,6) by (auto simp: step_ok_def)
  with Cons.IH [OF e(2)] exec_stmt_typed [OF e(1) Cons.prems(2,4) typed(1)] typed(2) Cons.prems(6) show ?case by simp
qed simp


section \<open>The migrations\<close>

lemma logins_migrated_typed:
  assumes "db_typed d" and "\<forall>u \<in> set us. \<exists>i. value_of ''id'' u = Integer i" and "table_of ''tailscale_logins'' d = None"
  shows "db_typed (logins_migrated us d)"
proof -
  have ids: "\<exists>i. v = Integer i" if "(l, v) \<in> set (migrated_logins us)" for l v
  proof -
    have "map_of (migrated_logins us) l = Some v" using that migrated_logins_facts(1) by (simp add: map_of_is_SomeI)
    then obtain u where "find (\<lambda>u. l \<in> set (listed_logins u)) us = Some u" "v = value_of ''id'' u"
      by (auto simp: migrated_logins_facts(2) login_owner_def)
    with find_SomeD [OF this(1)] assms(2) show ?thesis by auto
  qed
  have cols: "tbCols logins_table = [keyed PrimaryKey (column ''login'' ''TEXT''), references ''user_id'' ''users'']"
    by (simp add: logins_table_def)
  have typed: "value_fits c (value_of (scName c) (login_row (l, v)))"
    if "(l, v) \<in> set (migrated_logins us)" "c \<in> set (tbCols logins_table)" for l v c
    using ids [OF that(1)] that(2)
    by (auto simp: cols column_defs login_row_def value_of_def value_fits_def)
  have rows: "table_typed (logins_table\<lparr>tbRows := map login_row (migrated_logins us)\<rparr>)"
    using typed by (fastforce simp: table_typed_def)
  have inner: "db_typed (set_table ''tailscale_logins'' (\<lambda>t. t\<lparr>tbRows := map login_row (migrated_logins us)\<rparr>) (d @ [logins_table]))"
  proof (rule set_table_typed)
    show "db_typed (d @ [logins_table])" using assms(1) by (simp add: db_typed_def table_typed_def logins_table_def)
    fix t assume "t \<in> set (d @ [logins_table])" "tbName t = ''tailscale_logins''"
    then have "t = logins_table" using assms(3) by (auto simp: table_of_def find_None_iff)
    with rows show "table_typed (t\<lparr>tbRows := map login_row (migrated_logins us)\<rparr>)" by simp
  qed
  show ?thesis
    unfolding logins_migrated_def
    by (rule set_table_typed [OF inner], rule drop_column_typed) (use inner in \<open>simp add: db_typed_def\<close>)
qed

lemma schema_typed:
  "list_all (\<lambda>v. stmts_typed (concat (drop v sql_before)) (schema v)) [0, 1, 2, 3, 4, 5]"
  "list_all (\<lambda>v. stmts_typed (concat (drop (v - 6) sql_after)) (schema v)) [6, 7, 8, 9, 10, 11]"
  "case table_of ''users'' (schema 5) of None \<Rightarrow> False | Some t \<Rightarrow> (case tbCols t of [] \<Rightarrow> False | c # cs \<Rightarrow> c = auto_id)"
  by code_simp+

lemma upgraded_typed:
  assumes "json_each_reads je" and "v \<le> 11" and "bare d = schema v" and "db_wf d" and "legacy_plain d" and "db_typed d"
    and "run_all (drop v (migrations je)) d = Inr d'"
  shows "db_typed d'"
  using le_cases [OF assms(2)]
proof
  assume v: "v \<in> set [6, 7, 8, 9, 10, 11]"
  show ?thesis
  proof (rule exec_stmts_typed [OF _ assms(4,5,6)])
    show "exec_stmts (concat (drop (v - 6) sql_after)) d = Inr d'" using assms(7) run_after [OF v] by simp
    show "stmts_typed (concat (drop (v - 6) sql_after)) (bare d)"
      using schema_typed(2) v unfolding assms(3) list_all_iff by blast
    show "list_all (stmt_safe (kept v)) (concat (drop (v - 6) sql_after))"
      by (rule safe_after)
  qed
next
  assume v: "v \<in> set [0, 1, 2, 3, 4, 5]"
  obtain d5 d6 where run: "exec_stmts (concat (drop v sql_before)) d = Inr d5" "migration6 je d5 = Inr d6"
    "exec_stmts (concat sql_after) d6 = Inr d'"
    using assms(7) unfolding run_before [OF v] by (auto dest!: bindE_InrD)
  note safe = safe_before(1) [OF v] schema_safe(2) [of "kept v"]
  have "exec_stmts (concat (drop v sql_before)) (schema v) = Inr (schema 5)" by (rule before_schema [OF v])
  then have bare5: "bare d5 = schema 5" using run(1) by (simp add: exec_stmts_bare flip: assms(3))
  have ok5: "db_wf d5" "legacy_plain d5"
    using exec_stmts_ok [OF run(1) safe(1)] assms(4,5) by (simp_all add: step_ok_def)
  have typed5: "db_typed d5"
  proof (rule exec_stmts_typed [OF run(1) assms(4,5,6) _ safe(1)])
    show "stmts_typed (concat (drop v sql_before)) (bare d)"
      using schema_typed(1) v unfolding assms(3) list_all_iff by blast
  qed
  obtain t where t: "table_of ''users'' d5 = Some t" "d6 = logins_migrated (tbRows t) d5" "bare d6 = schema 6"
    "table_of ''tailscale_logins'' d5 = None"
    using migration6_upgrade [OF assms(1) ok5(2) bare5] run(2) by auto
  obtain cs where cols: "tbCols t = auto_id # cs"
    using schema_typed(3) t(1) unfolding bare5 [symmetric] by (auto split: list.splits)
  have "\<exists>i. value_of ''id'' u = Integer i" if "u \<in> set (tbRows t)" for u
  proof -
    have "value_fits auto_id (value_of ''id'' u)"
      using typed5 table_of_SomeD [OF t(1)] that cols by (force simp: db_typed_def table_typed_def column_defs)
    then show ?thesis by (simp add: value_fits_def column_defs split: sql_value.splits)
  qed
  then have typed6: "db_typed d6" unfolding t(2) by (intro logins_migrated_typed [OF typed5 _ t(4)]) blast
  have ok6: "db_wf d6" "legacy_plain d6"
  proof -
    have "step_ok (kept v) d5 d6"
      unfolding t(2) by (rule logins_migrated_ok [OF t(4)]) (use safe_before(2) [OF v] in \<open>simp_all add: kept_def kept_of_def\<close>)
    with ok5 show "db_wf d6" "legacy_plain d6" by (simp_all add: step_ok_def)
  qed
  show ?thesis
  proof (rule exec_stmts_typed [OF run(3) ok6 typed6 _ safe(2)])
    have "stmts_typed (concat (drop (6 - 6) sql_after)) (schema 6)" using schema_typed(2) by simp
    then show "stmts_typed (concat sql_after) (bare d6)" by (simp add: t(3))
  qed
qed


section \<open>Reading the rows\<close>

lemma scan_simps [simp]:
  "scan_string (Text s) = Some s" "scan_bytes (Text s) = Some s"
  by simp_all

lemma fits_text: "value_fits c v \<Longrightarrow> scType c \<noteq> ''INTEGER'' \<Longrightarrow> scNotNull c \<Longrightarrow> \<exists>s. v = Text s"
  by (cases v) (simp_all add: value_fits_def)

lemma fits_integer: "value_fits c v \<Longrightarrow> scType c = ''INTEGER'' \<Longrightarrow> scNotNull c \<or> scKey c = AutoIncrement \<Longrightarrow> \<exists>i. v = Integer i"
  by (cases v) (simp_all add: value_fits_def)

lemma fits_blob: "value_fits c v \<Longrightarrow> scType c \<noteq> ''INTEGER'' \<Longrightarrow> v = Null \<or> (\<exists>s. v = Text s)"
  by (cases v) (simp_all add: value_fits_def)

text \<open>The columns of a table that are texts, required, and integers, required.\<close>

definition text_columns :: "sql_table \<Rightarrow> string list" where
  "text_columns t = map scName (filter (\<lambda>c. scType c \<noteq> ''INTEGER'' \<and> scNotNull c) (tbCols t))"

definition integer_columns :: "sql_table \<Rightarrow> string list" where
  "integer_columns t = map scName (filter (\<lambda>c. scType c = ''INTEGER'' \<and> (scNotNull c \<or> scKey c = AutoIncrement)) (tbCols t))"

definition blob_columns :: "sql_table \<Rightarrow> string list" where
  "blob_columns t = map scName (filter (\<lambda>c. scType c \<noteq> ''INTEGER'') (tbCols t))"

lemma typed_columns:
  assumes "table_typed t" and "r \<in> set (tbRows t)"
  shows "c \<in> set (text_columns t) \<Longrightarrow> \<exists>s. value_of c r = Text s"
    "c \<in> set (integer_columns t) \<Longrightarrow> \<exists>i. value_of c r = Integer i"
    "c \<in> set (blob_columns t) \<Longrightarrow> value_of c r = Null \<or> (\<exists>s. value_of c r = Text s)"
  using assms
  by (auto simp: table_typed_def text_columns_def integer_columns_def blob_columns_def intro: fits_text fits_integer dest: fits_blob)

definition user_texts :: "string list" where
  "user_texts = [''username'', ''password'', ''permission'', ''full_name'', ''avatar_url'', ''qrz_username'', ''qrz_password_enc'', ''lookup_source'']"

definition node_texts :: "string list" where
  "node_texts = [''name'', ''node_number'', ''ami_host'', ''ami_user'', ''ami_pass'', ''description'', ''location'']"

definition account_columns :: "string list" where
  "account_columns = [''id'', ''username'', ''password'', ''permission'']"

lemma schema_columns:
  "case table_of ''users'' (schema 11) of None \<Rightarrow> False
   | Some t \<Rightarrow> set user_texts \<subseteq> set (text_columns t) \<and> ''id'' \<in> set (integer_columns t) \<and> ''webauthn_id'' \<in> set (blob_columns t)"
  "case table_of ''nodes'' (schema 11) of None \<Rightarrow> False
   | Some t \<Rightarrow> set node_texts \<subseteq> set (text_columns t) \<and> {''id'', ''ami_port'', ''enabled''} \<subseteq> set (integer_columns t)"
  "list_all (\<lambda>d. case table_of ''users'' d of None \<Rightarrow> False
     | Some t \<Rightarrow> list_all (\<lambda>c. has_column c t) account_columns) (tl schemas)"
  by code_simp+

lemma columns_bare [simp]:
  "text_columns (bare_table t) = text_columns t" "integer_columns (bare_table t) = integer_columns t"
  "blob_columns (bare_table t) = blob_columns t"
  by (simp_all add: text_columns_def integer_columns_def blob_columns_def)

lemma scanUser_reads:
  assumes "\<exists>i. value_of ''id'' r = Integer i" and "\<forall>c \<in> set user_texts. \<exists>s. value_of c r = Text s"
    and "value_of ''webauthn_id'' r = Null \<or> (\<exists>s. value_of ''webauthn_id'' r = Text s)"
  shows "\<exists>u. scanUser r = Some u \<and> value_of ''id'' r = Integer (uID u) \<and> value_of ''username'' r = Text (uUsername u)
    \<and> value_of ''password'' r = Text (uPassword u) \<and> value_of ''permission'' r = Text (uPermission u)"
  using assms by (auto simp: scanUser_def user_texts_def)

lemma scanNode_reads:
  assumes "\<forall>c \<in> {''id'', ''ami_port'', ''enabled''}. \<exists>i. value_of c r = Integer i"
    and "\<forall>c \<in> set node_texts. \<exists>s. value_of c r = Text s"
  shows "\<exists>n. scanNode r = Some n"
  using assms by (auto simp: scanNode_def node_texts_def)

lemma nodes_readable:
  assumes "bare d = schema 11" and "db_typed d"
  shows "\<exists>ns. table_of ''nodes'' d = Some ns \<and> list_all (\<lambda>r. scanNode r \<noteq> None) (tbRows ns)"
proof -
  obtain ns where ns: "table_of ''nodes'' d = Some ns"
    and cols: "set node_texts \<subseteq> set (text_columns ns)" "{''id'', ''ami_port'', ''enabled''} \<subseteq> set (integer_columns ns)"
    using schema_columns(2) unfolding assms(1) [symmetric] by (auto split: option.splits)
  have typed: "table_typed ns" using assms(2) table_of_SomeD [OF ns] by (auto simp: db_typed_def)
  have "\<exists>n. scanNode r = Some n" if r: "r \<in> set (tbRows ns)" for r
  proof (rule scanNode_reads)
    show "\<forall>c \<in> {''id'', ''ami_port'', ''enabled''}. \<exists>i. value_of c r = Integer i"
      using typed_columns(2) [OF typed r] cols(2) by blast
    show "\<forall>c \<in> set node_texts. \<exists>s. value_of c r = Text s"
      using typed_columns(1) [OF typed r] cols(1) by blast
  qed
  with ns show ?thesis by (fastforce simp: list_all_iff)
qed

text \<open>An account as its row has it.\<close>

definition reads_account :: "sql_row \<Rightarrow> user \<Rightarrow> bool" where
  "reads_account r u \<longleftrightarrow> value_of ''id'' r = Integer (uID u) \<and> value_of ''username'' r = Text (uUsername u)
     \<and> value_of ''password'' r = Text (uPassword u) \<and> value_of ''permission'' r = Text (uPermission u)"

lemma users_readable:
  assumes "bare d = schema 11" and "db_typed d"
  shows "\<exists>us. table_of ''users'' d = Some us \<and> (\<forall>r \<in> set (tbRows us). \<exists>u. scanUser r = Some u \<and> reads_account r u)"
proof -
  obtain us where us: "table_of ''users'' d = Some us"
    and cols: "set user_texts \<subseteq> set (text_columns us)" "''id'' \<in> set (integer_columns us)" "''webauthn_id'' \<in> set (blob_columns us)"
    using schema_columns(1) unfolding assms(1) [symmetric] by (auto split: option.splits)
  have typed: "table_typed us" using assms(2) table_of_SomeD [OF us] by (auto simp: db_typed_def)
  have "\<exists>u. scanUser r = Some u \<and> reads_account r u" if r: "r \<in> set (tbRows us)" for r
  proof -
    have "\<forall>c \<in> set user_texts. \<exists>s. value_of c r = Text s"
      using typed_columns(1) [OF typed r] cols(1) by blast
    from scanUser_reads [OF typed_columns(2) [OF typed r cols(2)] this typed_columns(3) [OF typed r cols(3)]]
    show ?thesis unfolding reads_account_def .
  qed
  with us show ?thesis by blast
qed

lemma kept_column:
  assumes "table_of n (schema v) = Some t" and "has_column c t" and "(n, c) \<noteq> (''users'', ''tailscale_usernames'')"
  shows "(n, c) \<in> kept v"
  using assms table_of_SomeD [OF assms(1)]
  by (force simp: kept_def kept_of_def columns_of_def has_column_def)

lemma users_account_columns:
  assumes "0 < v" and "v \<le> 11" and "bare d = schema v" and "table_of ''users'' d = Some t" and "c \<in> set account_columns"
  shows "has_column c t" "(''users'', c) \<in> kept v"
proof -
  have "v - 1 < length (tl schemas)" "tl schemas ! (v - 1) = schema v"
    using assms(1,2) schemas_length by (simp_all add: schema_nth [OF assms(2)] nth_tl)
  then have "schema v \<in> set (tl schemas)" by (metis nth_mem)
  moreover have users: "table_of ''users'' (schema v) = Some (bare_table t)" using assms(4) by (simp flip: assms(3))
  ultimately have "list_all (\<lambda>c. has_column c (bare_table t)) account_columns"
    using schema_columns(3) unfolding list_all_iff [of _ "tl schemas"] by fastforce
  with assms(5) have has: "has_column c (bare_table t)" by (simp add: list_all_iff)
  show "has_column c t" using has by (simp add: has_column_def)
  show "(''users'', c) \<in> kept v"
    by (rule kept_column [OF users has]) (use assms(5) in \<open>auto simp: account_columns_def\<close>)
qed

lemma kept_account:
  assumes "0 < v" and "v \<le> 11" and "bare d = schema v" and "db_wf d" and "table_of ''users'' d = Some t" and "r \<in> set (tbRows t)"
    and "row_grows (kept v) ''users'' r r'" and "reads_account r' u"
  shows "reads_account r u"
proof -
  have "table_wf t" using assms(4) table_of_SomeD [OF assms(5)] by (auto simp: db_wf_def)
  then have keys: "fst ` set r = scName ` set (tbCols t)" using assms(6) by (metis list.set_map table_wf_def)
  have same: "value_of c r' = value_of c r" if c: "c \<in> set account_columns" for c
  proof -
    have "c \<in> fst ` set r" using users_account_columns(1) [OF assms(1-3,5) c] keys by (simp add: has_column_def)
    then obtain x where "map_of r c = Some x" by (cases "map_of r c") (simp_all add: map_of_eq_None_iff)
    then show ?thesis
      using assms(7) users_account_columns(2) [OF assms(1-3,5) c] by (simp add: row_grows_def value_of_def)
  qed
  with assms(8) show ?thesis by (simp add: reads_account_def account_columns_def)
qed

section \<open>Properties\<close>

text \<open>C6: after an upgrade from any release, under the conditions of the upgrade, every account and every node can be read, the columns that
  came later included, and each account is read with the id, the name, the password hash and the permission
  that were stored for it.\<close>

theorem upgraded_rows_readable:
  assumes "json_each_reads je" and "0 < v" and "v \<le> 11" and "at_version v db" and "legacy_plain (mgData db)"
    and "db_typed (mgData db)" and "table_of ''users'' (mgData db) = Some t"
  shows "\<exists>db' us ns. Open je None None db = (None, db') \<and> table_of ''users'' (mgData db') = Some us
    \<and> table_of ''nodes'' (mgData db') = Some ns \<and> list_all (\<lambda>r. scanNode r \<noteq> None) (tbRows ns)
    \<and> list_all2 (\<lambda>r r'. \<exists>u. scanUser r' = Some u \<and> reads_account r u) (tbRows t) (tbRows us)"
proof -
  have db: "SchemaVersion db = v" "bare (mgData db) = schema v" "db_wf (mgData db)"
    using assms(4) by (simp_all add: at_version_def)
  obtain d' where d': "run_all (drop v (migrations je)) (mgData db) = Inr d'" "bare d' = schema 11"
    "step_ok (kept v) (mgData db) d'"
    using le_cases [OF assms(3)] upgrade_after [OF _ db(2), of je] upgrade_before [OF assms(1) db(3) assms(5) _ db(2)]
    by blast
  have typed: "db_typed d'" by (rule upgraded_typed [OF assms(1,3) db(2,3) assms(5,6) d'(1)])
  have grown: "grows (kept v) (mgData db) d'" using d'(3) db(3) assms(5) by (simp add: step_ok_def)
  obtain us ns where us: "table_of ''users'' d' = Some us" "\<forall>r \<in> set (tbRows us). \<exists>u. scanUser r = Some u \<and> reads_account r u"
    and ns: "table_of ''nodes'' d' = Some ns" "list_all (\<lambda>r. scanNode r \<noteq> None) (tbRows ns)"
    using users_readable [OF d'(2) typed] nodes_readable [OF d'(2) typed] by blast
  have "''users'' \<in> fst ` kept v"
    using users_account_columns(2) [OF assms(2,3) db(2) assms(7), of "''id''"]
    by (metis account_columns_def fst_conv image_eqI list.set_intros(1))
  then obtain us' where "table_of ''users'' d' = Some us'" "list_all2 (row_grows (kept v) ''users'') (tbRows t) (tbRows us')"
    using grown assms(7) unfolding grows_def by blast
  with us(1) have rows: "list_all2 (row_grows (kept v) ''users'') (tbRows t) (tbRows us)" by simp
  have accounts: "list_all2 (\<lambda>r r'. \<exists>u. scanUser r' = Some u \<and> reads_account r u) (tbRows t) (tbRows us)"
    using rows
  proof (rule list.rel_mono_strong)
    fix r r' assume r: "r \<in> set (tbRows t)" "r' \<in> set (tbRows us)" "row_grows (kept v) ''users'' r r'"
    with us(2) obtain u where u: "scanUser r' = Some u" "reads_account r' u" by blast
    with kept_account [OF assms(2,3) db(2,3) assms(7) r(1,3)] show "\<exists>u. scanUser r' = Some u \<and> reads_account r u" by blast
  qed
  have "Open je None None db = (None, db\<lparr>mgVersions := mgVersions db @ map mVersion (drop v (migrations je)), mgData := d'\<rparr>)"
    by (simp add: Open_def migrate_pending [OF d'(1) db(1) assms(3)])
  with us(1) ns accounts show ?thesis by auto
qed

lemma upgraded_rows_readable_witness:
  "\<exists>db' us. Open json_array None None old_db = (None, db') \<and> table_of ''users'' (mgData db') = Some us
    \<and> list_all2 (\<lambda>r r'. \<exists>u. scanUser r' = Some u \<and> reads_account r u) old_users (tbRows us)"
proof -
  have typed: "db_typed (mgData old_db)" by code_simp
  have "(case table_of ''users'' (mgData old_db) of None \<Rightarrow> False | Some t \<Rightarrow> tbRows t = old_users)" by code_simp
  then obtain t where t: "table_of ''users'' (mgData old_db) = Some t" "tbRows t = old_users"
    by (auto split: option.splits)
  from upgraded_rows_readable [OF json_array_reads _ _ old_db_facts(1,2) typed t(1)] show ?thesis
    unfolding t(2) by auto
qed

end
