(* ===== verification/Server_Security.thy ===== *)
theory Server_Security
  imports Http
begin

text \<open>
  \<open>internal/server/security.go\<close>: the form of node numbers, the origin check against cross-site
  requests, and the login limiter. Times are nanoseconds.
\<close>

section \<open>Node numbers\<close>

text \<open>The expression \<open>^\d{4,10}$\<close>.\<close>

definition validNodeNumber :: "string \<Rightarrow> bool" where
  "validNodeNumber s \<longleftrightarrow> 4 \<le> length s \<and> length s \<le> 10 \<and> list_all is_digit s"

section \<open>Cross-site requests\<close>

text \<open>
  \<open>url_host\<close> is the host of a parsed URL, \<open>None\<close> when it does not parse. The answer is that of
  the middleware, \<open>None\<close> when it passes the request on.
\<close>

definition csrfMiddleware :: "(string \<Rightarrow> string option) \<Rightarrow> request \<Rightarrow> (nat \<times> string) option" where
  "csrfMiddleware url_host r =
     (if rqMethod r \<in> {''GET'', ''HEAD'', ''OPTIONS''} then None
      else let origin = HeaderGet ''Origin'' r in
        if origin = [] then None
        else (case url_host origin of
            None \<Rightarrow> Some (403, ''invalid Origin header'')
          | Some h \<Rightarrow>
              (let fwd = HeaderGet ''X-Forwarded-Host'' r;
                   expected = (if fwd \<noteq> [] then fwd else rqHost r)
               in if h \<noteq> expected then Some (403, ''CSRF: origin mismatch'') else None)))"

section \<open>The login limiter\<close>

definition loginMaxFailures :: nat where "loginMaxFailures = 5"
definition loginWindow :: int where "loginWindow = 60 * 1000000000"

record ipRecord =
  irFailures :: nat
  irResetAt :: int

type_synonym login_limiter = "(string \<times> ipRecord) list"

definition newLoginLimiter :: login_limiter where "newLoginLimiter = []"

definition Allow :: "int \<Rightarrow> string \<Rightarrow> login_limiter \<Rightarrow> bool" where
  "Allow now ip l =
     (case map_of l ip of
        None \<Rightarrow> True
      | Some rec \<Rightarrow> if irResetAt rec < now then True else irFailures rec < loginMaxFailures)"

definition RecordFailure :: "int \<Rightarrow> string \<Rightarrow> login_limiter \<Rightarrow> login_limiter" where
  "RecordFailure now ip l =
     (let fresh = kv_upsert ip \<lparr>irFailures = 1, irResetAt = now + loginWindow\<rparr> l in
      case map_of l ip of
        None \<Rightarrow> fresh
      | Some rec \<Rightarrow> if irResetAt rec < now then fresh
                    else kv_upsert ip (rec\<lparr>irFailures := irFailures rec + 1\<rparr>) l)"

definition RecordSuccess :: "string \<Rightarrow> login_limiter \<Rightarrow> login_limiter" where
  "RecordSuccess ip l = kv_delete ip l"

text \<open>One turn of the goroutine that sweeps expired records.\<close>

definition sweep :: "int \<Rightarrow> login_limiter \<Rightarrow> login_limiter" where
  "sweep now l = filter (\<lambda>e. \<not> irResetAt (snd e) < now) l"

section \<open>How many failures pass\<close>

text \<open>
  A login takes the lock of the limiter twice and compares the password in between, so that other
  requests run between its steps: \<open>Starts\<close> is the call of \<open>Allow\<close>, after which an admitted request is in
  flight, \<open>Fails\<close> and \<open>Succeeds\<close> are the calls of \<open>RecordFailure\<close> and \<open>RecordSuccess\<close> that end it,
  \<open>GivesUp\<close> is a form that does not parse. The state has the limiter and the addresses of the requests in
  flight; only these can end.
\<close>

datatype login_event = Starts int string | Fails int string | Succeeds int string | GivesUp int string | Sweep int


fun login_step :: "login_event \<Rightarrow> login_limiter \<times> string list \<Rightarrow> login_limiter \<times> string list" where
  "login_step (Starts t ip) (l, p) = (if Allow t ip l then (l, ip # p) else (l, p))"
| "login_step (Fails t ip) (l, p) = (if ip \<in> set p then (RecordFailure t ip l, remove1 ip p) else (l, p))"
| "login_step (Succeeds t ip) (l, p) = (if ip \<in> set p then (RecordSuccess ip l, remove1 ip p) else (l, p))"
| "login_step (GivesUp t ip) (l, p) = (l, remove1 ip p)"
| "login_step (Sweep t) (l, p) = (sweep t l, p)"

text \<open>The logins from one address that failed, and the most that were in flight at once.\<close>

fun failed_logins :: "string \<Rightarrow> login_event list \<Rightarrow> login_limiter \<times> string list \<Rightarrow> nat" where
  "failed_logins ip [] st = 0"
| "failed_logins ip (e # es) st =
     (case e of Fails t ip' \<Rightarrow> if ip' = ip \<and> ip \<in> set (snd st) then 1 else 0 | _ \<Rightarrow> 0) + failed_logins ip es (login_step e st)"







text \<open>
  The failures an address has left until time \<open>T\<close>, when the clock is at \<open>now\<close>, with at most \<open>k\<close> of its
  requests in flight at once and \<open>c\<close> at the moment: once five have been recorded only those in flight are left.
\<close>

definition in_window :: "nat \<Rightarrow> nat \<Rightarrow> nat \<Rightarrow> nat" where
  "in_window k c f = (if f < 5 then 4 + k - f else c)"






lemma in_window_mono: "c \<le> c' \<Longrightarrow> in_window k c f \<le> in_window k c' f"
  by (simp add: in_window_def)









text \<open>Requests that are all admitted before the first of them has failed are not held back by the limit.\<close>

lemma parallel_logins_exceed:
  "failed_logins ''10.0.0.9'' (replicate 20 (Starts 7 ''10.0.0.9'') @ replicate 20 (Fails 8 ''10.0.0.9'')) (newLoginLimiter, []) = 20"
  by code_simp

end
