(* ===== verification/Server_Config.thy ===== *)
theory Server_Config
  imports Go_Strings "HOL-Library.Word"
begin

unbundle bit_operations_syntax

text \<open>
  \<open>internal/config/config.go\<close> and \<open>perms.go\<close>: the configuration with its defaults, what is
  normalised and checked after it is loaded, and the file permission warnings;
  \<open>internal/server/plaintext_check.go\<close>: the refusal to serve plaintext on a public address; and
  the addresses and WebAuthn origins \<open>internal/server/server.go\<close> derives from the configuration.
  Reading and decoding the file is viper's and a parameter.
\<close>

section \<open>The configuration\<close>

record CommandArg =
  caName :: string
  caLabel :: string
  caType :: string

record NodeCommand =
  ncName :: string
  ncCmd :: string
  ncArgs :: "CommandArg list"
  ncRole :: string
  ncGroup :: string

record ProxyAuthConfig =
  paEnabled :: bool
  paUsernameHeader :: string
  paGroupsHeader :: string
  paGroupRoles :: "(string \<times> string) list"
  paCreateUsers :: bool
  paUpdateDBRole :: bool

record TailscaleAuthConfig =
  tsEnabled :: bool
  tsUserHeader :: string
  tsNameHeader :: string
  tsAvatarHeader :: string

record ServerConfig =
  scHTTPPort :: int
  scHTTPSPort :: int
  scRedirectHTTP :: bool
  scQUIC :: bool
  scBindAddress :: string
  scBasePath :: string
  scAllowPublicPlaintext :: bool

record TLSConfig =
  tlMode :: string
  tlCertFile :: string
  tlKeyFile :: string
  tlACMEDomain :: string
  tlACMECacheDir :: string

record UIConfig =
  uiFooterText :: string
  uiFooterURL :: string
  uiFooterAttribution :: string
  uiFooterAttributionURL :: string

record Config =
  cfServer :: ServerConfig
  cfTLS :: TLSConfig
  cfCommands :: "NodeCommand list"
  cfProxyAuth :: ProxyAuthConfig
  cfTailscaleAuth :: TailscaleAuthConfig
  cfRPID :: string
  cfRPOrigins :: "string list"
  cfConfigFile :: string
  cfDBPath :: string
  cfAstPath :: string
  cfAstUpdate :: bool
  cfLogLevel :: string
  cfUI :: UIConfig

section \<open>Loading\<close>

text \<open>Empty unless the linker is told another address.\<close>

definition DefaultFooterURL :: string where "DefaultFooterURL = []"

text \<open>The values of \<open>SetDefault\<close>, before any file is read.\<close>

definition default_config :: Config where
  "default_config =
     \<lparr>cfServer = \<lparr>scHTTPPort = 8080, scHTTPSPort = 443, scRedirectHTTP = True, scQUIC = True,
        scBindAddress = [], scBasePath = [], scAllowPublicPlaintext = False\<rparr>,
      cfTLS = \<lparr>tlMode = ''disabled'', tlCertFile = [], tlKeyFile = [], tlACMEDomain = [],
        tlACMECacheDir = ''/etc/yaamon/acme''\<rparr>,
      cfCommands = [],
      cfProxyAuth = \<lparr>paEnabled = False, paUsernameHeader = ''X-Auth-Request-Preferred-Username'',
        paGroupsHeader = ''X-Auth-Request-Groups'', paGroupRoles = [], paCreateUsers = True,
        paUpdateDBRole = False\<rparr>,
      cfTailscaleAuth = \<lparr>tsEnabled = False, tsUserHeader = ''Tailscale-User-Login'',
        tsNameHeader = ''Tailscale-User-Name'', tsAvatarHeader = ''Tailscale-User-Profile-Pic''\<rparr>,
      cfRPID = [], cfRPOrigins = [], cfConfigFile = [],
      cfDBPath = ''/var/lib/yaamon/yaamon.db'', cfAstPath = ''/var/lib/yaamon/astdb.txt'', cfAstUpdate = True,
      cfLogLevel = ''info'',
      cfUI = \<lparr>uiFooterText = ''Yet Another Allstarlink MONitor (and favorites)'',
        uiFooterURL = DefaultFooterURL, uiFooterAttribution = ''N2VLV'',
        uiFooterAttributionURL = ''https://n2vlv.net''\<rparr>\<rparr>"

definition plain_command :: "string \<Rightarrow> string \<Rightarrow> string \<Rightarrow> NodeCommand" where
  "plain_command name cmd grp =
     \<lparr>ncName = name, ncCmd = cmd, ncArgs = [], ncRole = ''readwrite'', ncGroup = grp\<rparr>"

definition defaultCommands :: "NodeCommand list" where
  "defaultCommands =
     [plain_command ''Say Time of Day'' ''rpt cmd {node} status 12 xxx'' ''announce'',
      plain_command ''Force ID'' ''rpt cmd {node} status 11 xxx'' ''announce'',
      plain_command ''Reconnect'' ''rpt cmd {node} ilink 16'' ''link'',
      plain_command ''Show Node Status'' ''rpt stats {node}'' ''status'',
      plain_command ''Show Link Status'' ''rpt lstats {node}'' ''status'',
      plain_command ''Show IAX Registry'' ''iax2 show registry'' ''status'',
      plain_command ''Show IAX Channels'' ''iax2 show channels'' ''status'',
      plain_command ''Show Network Status'' ''iax2 show netstats'' ''status'',
      plain_command ''Show Uptime'' ''core show uptime'' ''status'']"

definition base_path :: "string \<Rightarrow> string" where
  "base_path s =
     (let bp = TrimRight s ''/''
      in if bp \<noteq> [] \<and> \<not> HasPrefix bp ''/'' then ''/'' @ bp else bp)"

definition normalise :: "Config \<Rightarrow> Config" where
  "normalise cfg = cfg\<lparr>cfServer := (cfServer cfg)\<lparr>scBasePath := base_path (scBasePath (cfServer cfg))\<rparr>\<rparr>"

datatype config_error =
    BadTLSMode string
  | CertFileRequired
  | KeyFileRequired
  | ACMEDomainRequired
  | BadHTTPPort
  | BadHTTPSPort
  | BadCommandRole nat string

definition tls_modes :: "string list" where
  "tls_modes = [''disabled'', ''self_signed'', ''provided'', ''acme'']"

definition validRoles :: "string list" where
  "validRoles = [''readonly'', ''readwrite'', ''admin'', ''superuser'']"

fun validate_commands :: "nat \<Rightarrow> NodeCommand list \<Rightarrow> config_error option" where
  "validate_commands i [] = None"
| "validate_commands i (c # cs) =
     (if ncRole c \<notin> set validRoles then Some (BadCommandRole i (ncRole c)) else validate_commands (Suc i) cs)"

definition validate :: "Config \<Rightarrow> config_error option" where
  "validate cfg =
     (let tls = cfTLS cfg; sv = cfServer cfg in
      if tlMode tls \<notin> set tls_modes then Some (BadTLSMode (tlMode tls))
      else if tlMode tls = ''provided'' \<and> tlCertFile tls = [] then Some CertFileRequired
      else if tlMode tls = ''provided'' \<and> tlKeyFile tls = [] then Some KeyFileRequired
      else if tlMode tls = ''acme'' \<and> tlACMEDomain tls = [] then Some ACMEDomainRequired
      else if scHTTPPort sv < 1 \<or> 65535 < scHTTPPort sv then Some BadHTTPPort
      else if tlMode tls \<noteq> ''disabled'' \<and> (scHTTPSPort sv < 1 \<or> 65535 < scHTTPSPort sv) then Some BadHTTPSPort
      else validate_commands 0 (cfCommands cfg))"

text \<open>The end of \<open>Load\<close>, on the decoded configuration.\<close>

definition finish_load :: "Config \<Rightarrow> Config \<times> config_error option" where
  "finish_load cfg0 =
     (let cfg = normalise (if cfCommands cfg0 = [] then cfg0\<lparr>cfCommands := defaultCommands\<rparr> else cfg0)
      in (cfg, validate cfg))"

text \<open>
  What \<open>Load\<close> asks of viper: one file, or a file of a name and a type in the first directory that has it;
  and how the environment variable that overrides a setting is named, by a prefix and a replacer.
\<close>

datatype config_source = SetConfigFile string | SearchConfig "string list" string string

definition config_source :: "string \<Rightarrow> config_source" where
  "config_source cfgFile =
     (if cfgFile \<noteq> [] then SetConfigFile cfgFile
      else SearchConfig [''/etc/yaamon'', ''.''] ''config'' ''yaml'')"

record env_binding =
  ebPrefix :: string
  ebReplace :: "string \<Rightarrow> string"

definition env_settings :: env_binding where
  "env_settings = \<lparr>ebPrefix = ''YAAMON'', ebReplace = (\<lambda>key. ReplaceAll key ''.'' ''_'')\<rparr>"

text \<open>
  What viper does: whether it finds and reads a file, the path it used, and the values of that file and of
  the environment over the defaults.
\<close>

datatype read_config = ConfigRead string | ConfigFileNotFound | ConfigUnreadable string

record viper =
  vpReadInConfig :: "config_source \<Rightarrow> read_config"
  vpUnmarshal :: "env_binding \<Rightarrow> Config \<Rightarrow> read_config \<Rightarrow> string + Config"

datatype load_error = ReadingConfig string | ParsingConfig string | InvalidConfig config_error

definition Load :: "viper \<Rightarrow> string \<Rightarrow> load_error + Config" where
  "Load vp cfgFile =
     (case vpReadInConfig vp (config_source cfgFile) of
        ConfigUnreadable e \<Rightarrow> Inl (ReadingConfig e)
      | found \<Rightarrow> (case vpUnmarshal vp env_settings default_config found of
          Inl e \<Rightarrow> Inl (ParsingConfig e)
        | Inr cfg \<Rightarrow>
            (case finish_load (cfg\<lparr>cfConfigFile := (case found of ConfigRead path \<Rightarrow> path | _ \<Rightarrow> [])\<rparr>) of
               (cfg', Some e) \<Rightarrow> Inl (InvalidConfig e)
             | (cfg', None) \<Rightarrow> Inr cfg')))"

section \<open>File permissions\<close>

text \<open>\<open>stat\<close> gives the permission bits of a file, \<open>None\<close> when it cannot be read.\<close>

datatype perm_warning = WorldReadable string "32 word" string | NotOwnerOnly string "32 word" string

definition warnWorldReadable :: "(string \<Rightarrow> 32 word option) \<Rightarrow> string \<Rightarrow> string \<Rightarrow> perm_warning option" where
  "warnWorldReadable stat path label =
     (case stat path of
        None \<Rightarrow> None
      | Some mode \<Rightarrow> if mode AND 0x4 \<noteq> 0 then Some (WorldReadable label mode path) else None)"

definition warnOwnerOnly :: "(string \<Rightarrow> 32 word option) \<Rightarrow> string \<Rightarrow> string \<Rightarrow> perm_warning option" where
  "warnOwnerOnly stat path label =
     (case stat path of
        None \<Rightarrow> None
      | Some mode \<Rightarrow> if mode AND 0x24 \<noteq> 0 then Some (NotOwnerOnly label mode path) else None)"

definition opt_list :: "'a option \<Rightarrow> 'a list" where
  "opt_list x = (case x of None \<Rightarrow> [] | Some a \<Rightarrow> [a])"

definition CheckFilePermissions :: "(string \<Rightarrow> 32 word option) \<Rightarrow> Config \<Rightarrow> string \<Rightarrow> perm_warning list" where
  "CheckFilePermissions stat cfg stateFile =
     (if cfConfigFile cfg \<noteq> [] then opt_list (warnWorldReadable stat (cfConfigFile cfg) ''config file'') else []) @
     (if tlMode (cfTLS cfg) = ''provided'' then opt_list (warnOwnerOnly stat (tlKeyFile (cfTLS cfg)) ''TLS private key'')
      else if tlMode (cfTLS cfg) = ''acme''
      then opt_list (warnWorldReadable stat (tlACMECacheDir (cfTLS cfg)) ''ACME cache directory'')
      else []) @
     (if stateFile \<noteq> [] then opt_list (warnWorldReadable stat stateFile ''state file'') else [])"

section \<open>Plaintext on public addresses\<close>

text \<open>
  An address after \<open>To4\<close>: the four-byte form when there is one. A network has the address and
  the number of bits of its mask.
\<close>

datatype ip = IPv4 "32 word" | IPv6 "128 word"

datatype ipnet = Net4 "32 word" nat | Net6 "128 word" nat

fun net_contains :: "ipnet \<Rightarrow> ip \<Rightarrow> bool" where
  "net_contains (Net4 n p) (IPv4 a) = (n AND NOT (mask (32 - p)) = a AND NOT (mask (32 - p)))"
| "net_contains (Net6 n p) (IPv6 a) = (n AND NOT (mask (128 - p)) = a AND NOT (mask (128 - p)))"
| "net_contains _ _ = False"

definition privateRanges :: "ipnet list" where
  "privateRanges =
     [Net4 0x0A000000 8, Net4 0xAC100000 12, Net4 0xC0A80000 16, Net4 0x7F000000 8,
      Net6 1 128, Net4 0xA9FE0000 16, Net6 0xFE800000000000000000000000000000 10,
      Net6 0xFC000000000000000000000000000000 7, Net4 0x64400000 10,
      Net6 0xFD7A115CA1E000000000000000000000 48]"

definition isPrivateIP :: "ip \<Rightarrow> bool" where
  "isPrivateIP a = list_ex (\<lambda>r. net_contains r a) privateRanges"

text \<open>What the process asks of the host: its interface addresses, the parser of addresses, the resolver.\<close>

record net_env =
  neInterfaces :: "ip list option"
  neParseIP :: "string \<Rightarrow> ip option"
  neLookupHost :: "string \<Rightarrow> string list option"

datatype plaintext_error = NoInterfaces | CannotResolve string | PublicPlaintext ip

definition resolveBindIPs :: "net_env \<Rightarrow> string \<Rightarrow> plaintext_error + ip list" where
  "resolveBindIPs env bindAddr =
     (if bindAddr = [] \<or> bindAddr = ''0.0.0.0'' \<or> bindAddr = ''::''
      then (case neInterfaces env of None \<Rightarrow> Inl NoInterfaces | Some ips \<Rightarrow> Inr ips)
      else (case neParseIP env bindAddr of
          Some ip \<Rightarrow> Inr [ip]
        | None \<Rightarrow> (case neLookupHost env bindAddr of
              None \<Rightarrow> Inl (CannotResolve bindAddr)
            | Some rs \<Rightarrow> Inr (List.map_filter (neParseIP env) rs))))"

definition checkPlaintextSafety :: "net_env \<Rightarrow> Config \<Rightarrow> plaintext_error option" where
  "checkPlaintextSafety env cfg =
     (if tlMode (cfTLS cfg) \<noteq> ''disabled'' then None
      else if paEnabled (cfProxyAuth cfg) \<or> tsEnabled (cfTailscaleAuth cfg) then None
      else if scAllowPublicPlaintext (cfServer cfg) then None
      else (case resolveBindIPs env (scBindAddress (cfServer cfg)) of
          Inl e \<Rightarrow> Some e
        | Inr ips \<Rightarrow> map_option PublicPlaintext (find (\<lambda>ip. \<not> isPrivateIP ip) ips)))"

section \<open>Addresses and origins\<close>

definition webauthn_rpid :: "Config \<Rightarrow> string" where
  "webauthn_rpid cfg =
     (if cfRPID cfg \<noteq> [] then cfRPID cfg
      else if tlACMEDomain (cfTLS cfg) \<noteq> [] then tlACMEDomain (cfTLS cfg) else ''localhost'')"

definition webauthn_origins :: "Config \<Rightarrow> string list" where
  "webauthn_origins cfg =
     (if cfRPOrigins cfg \<noteq> [] then cfRPOrigins cfg
      else let tls = (tlMode (cfTLS cfg) \<noteq> ''disabled'');
               scheme = (if tls then ''https'' else ''http'');
               port = (if tls then scHTTPSPort (cfServer cfg) else scHTTPPort (cfServer cfg))
           in if (scheme = ''http'' \<and> port = 80) \<or> (scheme = ''https'' \<and> port = 443)
              then [scheme @ ''://'' @ webauthn_rpid cfg]
              else [scheme @ ''://'' @ webauthn_rpid cfg @ '':'' @ FormatInt port])"

section \<open>The private ranges as intervals\<close>

text \<open>Two addresses agree on a network's mask when they are in the same block of its size.\<close>

lemma uint_take_bit_length: "take_bit LENGTH('a) (uint (w :: 'a::len word)) = uint w"
  by (rule take_bit_int_eq_self) (simp_all add: uint_lt2p)

lemma masked_eq_iff:
  fixes a b :: "'a::len word"
  shows "a AND NOT (mask k) = b AND NOT (mask k) \<longleftrightarrow> uint a div 2 ^ k = uint b div 2 ^ k"
proof -
  have "a AND NOT (mask k) = b AND NOT (mask k) \<longleftrightarrow> drop_bit k a = drop_bit k b"
    (is "?l \<longleftrightarrow> ?r")
  proof
    assume l: ?l
    show ?r
    proof (rule bit_eqI)
      fix i
      have eq: "bit (a AND NOT (mask k)) (k + i) = bit (b AND NOT (mask k)) (k + i)" by (simp only: l)
      assume "possible_bit TYPE('a word) i"
      show "bit (drop_bit k a) i = bit (drop_bit k b) i"
        using eq bit_imp_le_length [of a "k + i"] bit_imp_le_length [of b "k + i"]
        by (auto simp: bit_drop_bit_eq bit_and_iff bit_not_iff bit_mask_iff)
    qed
  next
    assume r: ?r
    show ?l
    proof (rule bit_eqI)
      fix i
      have "bit (drop_bit k a) (i - k) = bit (drop_bit k b) (i - k)" by (simp only: r)
      then show "bit (a AND NOT (mask k)) i = bit (b AND NOT (mask k)) i"
        by (cases "i < k") (simp_all add: bit_drop_bit_eq bit_and_iff bit_not_iff bit_mask_iff)
    qed
  qed
  also have "\<dots> \<longleftrightarrow> uint (drop_bit k a) = uint (drop_bit k b)"
    by (rule word_uint_eq_iff)
  also have "\<dots> \<longleftrightarrow> uint a div 2 ^ k = uint b div 2 ^ k"
    unfolding unsigned_drop_bit_eq uint_take_bit_length by (simp only: drop_bit_eq_div)
  finally show ?thesis .
qed

text \<open>The networks of RFC 1918, 3927, 4193, 4291 and 6598, as intervals of numbers.\<close>

fun in_private_range :: "ip \<Rightarrow> bool" where
  "in_private_range (IPv4 a) \<longleftrightarrow>
     (0x0A000000 \<le> uint a \<and> uint a \<le> 0x0AFFFFFF) \<or> (0xAC100000 \<le> uint a \<and> uint a \<le> 0xAC1FFFFF)
     \<or> (0xC0A80000 \<le> uint a \<and> uint a \<le> 0xC0A8FFFF) \<or> (0x7F000000 \<le> uint a \<and> uint a \<le> 0x7FFFFFFF)
     \<or> (0xA9FE0000 \<le> uint a \<and> uint a \<le> 0xA9FEFFFF) \<or> (0x64400000 \<le> uint a \<and> uint a \<le> 0x647FFFFF)"
| "in_private_range (IPv6 a) \<longleftrightarrow>
     uint a = 1
     \<or> (0xFE800000000000000000000000000000 \<le> uint a \<and> uint a \<le> 0xFEBFFFFFFFFFFFFFFFFFFFFFFFFFFFFF)
     \<or> (0xFC000000000000000000000000000000 \<le> uint a \<and> uint a \<le> 0xFDFFFFFFFFFFFFFFFFFFFFFFFFFFFFFF)"

lemma div_block:
  fixes c m x :: int
  assumes m: "0 < m"
  shows "c = x div m \<longleftrightarrow> c * m \<le> x \<and> x < (c + 1) * m"
proof
  assume c: "c = x div m"
  show "c * m \<le> x \<and> x < (c + 1) * m"
    using pos_mod_bound [OF m, of x] pos_mod_sign [OF m, of x] div_mult_mod_eq [of x m]
    by (simp only: c distrib_right) linarith
next
  assume "c * m \<le> x \<and> x < (c + 1) * m"
  then show "c = x div m"
    using int_div_pos_eq [of x m c "x - m * c"] by (simp add: algebra_simps)
qed

lemmas net_blocks = isPrivateIP_def privateRanges_def masked_eq_iff div_block

lemma isPrivateIP_range: "isPrivateIP a = in_private_range a"
proof (cases a)
  case (IPv4 w)
  then show ?thesis by (simp add: net_blocks) linarith
next
  case (IPv6 w)
  have "w = 1 \<longleftrightarrow> uint w = 1" by (simp add: word_uint_eq_iff)
  with IPv6 show ?thesis by (simp add: net_blocks) linarith
qed

section \<open>Properties\<close>

lemma TrimRight_last: "TrimRight s cs = [] \<or> last (TrimRight s cs) \<notin> set cs"
proof (cases "dropWhile (\<lambda>c. c \<in> set cs) (rev s)")
  case Nil
  then show ?thesis by (simp add: TrimRight_def)
next
  case (Cons c r)
  then have "c \<notin> set cs" using hd_dropWhile [of "\<lambda>c. c \<in> set cs" "rev s"] by simp
  then show ?thesis by (simp add: TrimRight_def Cons)
qed

lemma TrimRight_id: "s = [] \<or> last s \<notin> set cs \<Longrightarrow> TrimRight s cs = s"
  by (cases s rule: rev_cases) (auto simp: TrimRight_def)

lemma HasPrefix_slash: "HasPrefix s ''/'' \<longleftrightarrow> s \<noteq> [] \<and> hd s = CHR ''/''"
  by (cases s) (auto simp: HasPrefix_def)

text \<open>The defaults, with the default commands, are accepted.\<close>

lemma default_config_valid: "snd (finish_load default_config) = None"
  by code_simp

text \<open>C11: the server starts on plaintext HTTP only behind TLS, behind an authenticating proxy, on
  the operator's word, or when every address it would bind is in one of the private IPv4 and IPv6
  ranges, for a wildcard every address of an interface.\<close>

theorem plaintext_only_private:
  "(checkPlaintextSafety env cfg = None) =
     (if tlMode (cfTLS cfg) = ''disabled'' \<and> \<not> paEnabled (cfProxyAuth cfg) \<and> \<not> tsEnabled (cfTailscaleAuth cfg)
         \<and> \<not> scAllowPublicPlaintext (cfServer cfg)
      then (case resolveBindIPs env (scBindAddress (cfServer cfg)) of
          Inl _ \<Rightarrow> False | Inr ips \<Rightarrow> list_all in_private_range ips)
      else True)"
  by (auto simp: checkPlaintextSafety_def isPrivateIP_range find_None_iff list_all_iff
      split: sum.splits)

lemma base_path_shape: "base_path s = [] \<or> (hd (base_path s) = CHR ''/'' \<and> last (base_path s) \<noteq> CHR ''/'')"
  using TrimRight_last [of s "''/''"] by (auto simp: base_path_def Let_def HasPrefix_slash)

lemma base_path_idem: "base_path (base_path s) = base_path s"
proof -
  have "TrimRight (base_path s) ''/'' = base_path s"
    using base_path_shape [of s] by (intro TrimRight_id) auto
  then show ?thesis
    using base_path_shape [of s] by (auto simp: base_path_def [of "base_path s"] HasPrefix_slash Let_def)
qed

text \<open>After normalising, the base path is empty or starts with a slash and does not end with one,
  so that a path appended to it is absolute; normalising again changes nothing.\<close>

lemma base_path_normal:
  "(let bp = scBasePath (cfServer (normalise cfg))
    in (bp = [] \<or> (hd bp = CHR ''/'' \<and> last bp \<noteq> CHR ''/''))
       \<and> normalise (normalise cfg) = normalise cfg)"
  using base_path_shape [of "scBasePath (cfServer cfg)"]
  by (simp add: normalise_def base_path_idem)

section \<open>What a loaded configuration satisfies\<close>

definition well_formed :: "Config \<Rightarrow> bool" where
  "well_formed cfg \<longleftrightarrow>
     (let tls = cfTLS cfg; sv = cfServer cfg in
      (tlMode tls = ''disabled'' \<or> tlMode tls = ''self_signed''
        \<or> tlMode tls = ''provided'' \<and> tlCertFile tls \<noteq> [] \<and> tlKeyFile tls \<noteq> []
        \<or> tlMode tls = ''acme'' \<and> tlACMEDomain tls \<noteq> [])
      \<and> scHTTPPort sv \<in> {1..65535} \<and> (tlMode tls = ''disabled'' \<or> scHTTPSPort sv \<in> {1..65535})
      \<and> list_all (\<lambda>c. ncRole c \<in> set validRoles) (cfCommands cfg))"

lemma validate_commands_None: "validate_commands i cs = None \<longleftrightarrow> list_all (\<lambda>c. ncRole c \<in> set validRoles) cs"
  by (induction cs arbitrary: i) auto

lemma validate_iff: "validate cfg = None \<longleftrightarrow> well_formed cfg"
  by (auto simp: validate_def well_formed_def tls_modes_def validate_commands_None Let_def)

lemma defaultCommands_roles: "list_all (\<lambda>c. ncRole c \<in> set validRoles) defaultCommands" "defaultCommands \<noteq> []"
  by (simp_all add: defaultCommands_def plain_command_def validRoles_def)

lemma finish_load_facts:
  "snd (finish_load cfg) = None \<longleftrightarrow> well_formed cfg"
  "well_formed (fst (finish_load cfg)) \<longleftrightarrow> well_formed cfg"
  "cfCommands (fst (finish_load cfg)) \<noteq> []"
  "scBasePath (cfServer (fst (finish_load cfg))) = base_path (scBasePath (cfServer cfg))"
  using defaultCommands_roles
  by (auto simp: finish_load_def validate_iff normalise_def well_formed_def Let_def)

text \<open>C29: \<open>Load\<close> returns only configurations with a known TLS mode and the settings that mode needs, ports in the
  range of those that are used, at least one command and only known roles, and a base path that is empty
  or absolute without a slash at its end; and it rejects no other decoded configuration.\<close>

theorem loaded_config_valid:
  "case Load vp cfgFile of
     Inr cfg \<Rightarrow> well_formed cfg \<and> cfCommands cfg \<noteq> []
       \<and> (let bp = scBasePath (cfServer cfg) in bp = [] \<or> hd bp = CHR ''/'' \<and> last bp \<noteq> CHR ''/'')
   | Inl (InvalidConfig e) \<Rightarrow> (case vpUnmarshal vp env_settings default_config (vpReadInConfig vp (config_source cfgFile)) of
       Inr cfg \<Rightarrow> \<not> well_formed cfg | Inl e \<Rightarrow> False)
   | Inl e \<Rightarrow> True"
proof -
  have keep: "well_formed (cfg\<lparr>cfConfigFile := p\<rparr>) = well_formed cfg" for cfg p by (simp add: well_formed_def)
  have after: "(case finish_load c of (cfg', Some e) \<Rightarrow> Inl (InvalidConfig e) | (cfg', None) \<Rightarrow> Inr cfg')
      = (if well_formed c then Inr (fst (finish_load c)) else Inl (InvalidConfig (the (snd (finish_load c)))))" for c
    using finish_load_facts(1) [of c] by (cases "finish_load c") (auto split: option.split)
  show ?thesis
    by (auto simp: Load_def after keep finish_load_facts(2-4) Let_def base_path_shape split: sum.split read_config.split
        dest: base_path_shape [THEN disjE])
qed

end
