(* ===== verification/Server_ProxyAuth.thy ===== *)
theory Server_ProxyAuth
  imports Server_Security Server_Config
begin

text \<open>
  \<open>internal/server/proxyauth.go\<close>: sessions taken from the identity headers of an upstream proxy,
  Tailscale or oauth2-proxy, once per request.
\<close>

section \<open>Roles of groups\<close>

text \<open>The local \<open>rank\<close> map; reading a missing key gives zero.\<close>

definition roleRank :: "string \<Rightarrow> int" where
  "roleRank role = (case map_of [(PermSuperuser, 4), (PermAdmin, 3), (PermReadWrite, 2), (PermReadOnly, 1)] role of
     None \<Rightarrow> 0 | Some r \<Rightarrow> r)"

definition role_step :: "(string \<times> string) list \<Rightarrow> string \<Rightarrow> string \<times> int \<Rightarrow> string \<times> int" where
  "role_step groupRoles part st =
     (case map_of groupRoles (TrimSpace part) of
        None \<Rightarrow> st
      | Some role \<Rightarrow> if snd st < roleRank role then (role, roleRank role) else st)"

definition highestRole :: "string \<Rightarrow> (string \<times> string) list \<Rightarrow> string \<times> bool" where
  "highestRole groupsHdr groupRoles =
     (case fold (role_step groupRoles) (Split groupsHdr (CHR '','')) ([], -1) of
        (best, bestRank) \<Rightarrow> (best, 0 \<le> bestRank))"

section \<open>Sessions from headers\<close>

definition proxy_session :: "user \<Rightarrow> string \<Rightarrow> string \<Rightarrow> Session" where
  "proxy_session u permission authMethod =
     \<lparr>sUserID = uID u, sUsername = uUsername u, sPermission = permission, sFullName = uFullName u,
      sAvatarURL = uAvatarURL u, sExpires = 0, sAuthMethod = authMethod, sExternalUsername = []\<rparr>"

definition tailscaleSession :: "request \<Rightarrow> TailscaleAuthConfig \<Rightarrow> store \<Rightarrow> Session option" where
  "tailscaleSession r cfg s =
     (let login = TrimSpace (HeaderGet (tsUserHeader cfg) r) in
      if login = [] then None
      else (case GetUserByTailscaleLogin login s of
          Inl e \<Rightarrow> None
        | Inr u \<Rightarrow>
            (let s0 = proxy_session u (uPermission u) ''tailscale'';
                 s1 = (if login \<noteq> uUsername u then s0\<lparr>sExternalUsername := login\<rparr> else s0);
                 name = TrimSpace (HeaderGet (tsNameHeader cfg) r);
                 s2 = (if sFullName s1 = [] \<and> name \<noteq> [] then s1\<lparr>sFullName := name\<rparr> else s1);
                 pic = TrimSpace (HeaderGet (tsAvatarHeader cfg) r);
                 s3 = (if sAvatarURL s2 = [] \<and> pic \<noteq> [] then s2\<lparr>sAvatarURL := pic\<rparr> else s2)
             in Some s3)))"

text \<open>The account of the header's name, created when it may be.\<close>

definition oauth_user :: "string \<Rightarrow> string \<Rightarrow> ProxyAuthConfig \<Rightarrow> store \<Rightarrow> user option \<times> store" where
  "oauth_user username role cfg s =
     (case GetUser username s of
        Inr u \<Rightarrow> (Some u, s)
      | Inl e \<Rightarrow>
          if e \<noteq> ErrNotFound \<or> \<not> paCreateUsers cfg then (None, s)
          else (case CreateUser username ''*'' role s of
              (Inl e', s') \<Rightarrow> (None, s') | (Inr u, s') \<Rightarrow> (Some u, s')))"

text \<open>The session, whether the request is denied, and the database, where the user may be created
  and its role updated.\<close>

definition oauthSession :: "request \<Rightarrow> ProxyAuthConfig \<Rightarrow> store \<Rightarrow> (Session option \<times> bool) \<times> store" where
  "oauthSession r cfg s =
     (let username = TrimSpace (HeaderGet (paUsernameHeader cfg) r) in
      if username = [] then ((None, False), s)
      else case highestRole (HeaderGet (paGroupsHeader cfg) r) (paGroupRoles cfg) of
          (role, ok) \<Rightarrow>
            if \<not> ok then ((None, True), s)
            else (case oauth_user username role cfg s of
                (None, s') \<Rightarrow> ((None, True), s')
              | (Some u, s') \<Rightarrow>
                  ((Some (proxy_session u role ''OAuth2''), False),
                   if paUpdateDBRole cfg \<and> uPermission u \<noteq> role then UpdateUserPermission (uID u) role s' else s')))"

text \<open>What the middleware passes on as the session of the context, or \<open>Inl\<close> its answer.\<close>

definition proxyAuthMiddleware :: "ProxyAuthConfig \<Rightarrow> TailscaleAuthConfig \<Rightarrow> request \<Rightarrow> store
    \<Rightarrow> ((nat \<times> string) + Session option) \<times> store" where
  "proxyAuthMiddleware proxyCfg tsCfg r s =
     (case (if tsEnabled tsCfg then tailscaleSession r tsCfg s else None) of
        Some sess \<Rightarrow> (Inr (Some sess), s)
      | None \<Rightarrow>
          if paEnabled proxyCfg
          then (case oauthSession r proxyCfg s of
              ((sess, deny), s') \<Rightarrow>
                if deny then (Inl (403, ''forbidden: no matching group permission''), s')
                else (Inr sess, s'))
          else (Inr None, s))"

section \<open>The highest role\<close>

lemma roleRank_range: "0 \<le> roleRank r" "roleRank r \<le> 4"
  by (auto simp: roleRank_def split: option.splits dest!: map_of_SomeD)

text \<open>What the loop over the groups keeps, from any best role so far.\<close>

lemma role_fold:
  assumes "fold (role_step gr) parts (best0, rank0) = (best, rank)"
  shows "rank0 \<le> rank
    \<and> (\<forall>p \<in> set parts. \<forall>role. map_of gr (TrimSpace p) = Some role \<longrightarrow> roleRank role \<le> rank)
    \<and> ((best, rank) = (best0, rank0)
       \<or> (\<exists>p \<in> set parts. map_of gr (TrimSpace p) = Some best \<and> rank = roleRank best))"
  using assms
proof (induction parts arbitrary: best0 rank0)
  case (Cons p ps)
  show ?case
  proof (cases "map_of gr (TrimSpace p)")
    case None
    then show ?thesis using Cons.IH [of best0 rank0] Cons.prems by (simp add: role_step_def [of gr p])
  next
    case (Some role)
    show ?thesis
    proof (cases "rank0 < roleRank role")
      case True
      then have "fold (role_step gr) ps (role, roleRank role) = (best, rank)"
        using Cons.prems Some by (simp add: role_step_def [of gr p])
      from Cons.IH [OF this] True Some show ?thesis by auto
    next
      case False
      then have "fold (role_step gr) ps (best0, rank0) = (best, rank)"
        using Cons.prems Some by (simp add: role_step_def [of gr p])
      from Cons.IH [OF this] False Some show ?thesis by auto
    qed
  qed
qed simp

text \<open>The roles the configuration gives to the groups of a header, in order.\<close>

definition header_roles :: "string \<Rightarrow> (string \<times> string) list \<Rightarrow> string list" where
  "header_roles hdr gr = List.map_filter (\<lambda>p. map_of gr (TrimSpace p)) (Split hdr (CHR '',''))"

lemma set_map_filter_option: "set (List.map_filter f xs) = {y. \<exists>x \<in> set xs. f x = Some y}"
  by (induction xs) (auto simp: List.map_filter_simps split: option.splits)

lemma highestRole_cases:
  "highestRole hdr gr = ([], False) \<and> header_roles hdr gr = []
   \<or> (\<exists>best \<in> set (header_roles hdr gr). highestRole hdr gr = (best, True)
        \<and> (\<forall>role \<in> set (header_roles hdr gr). roleRank role \<le> roleRank best))"
proof -
  obtain best rank where f: "fold (role_step gr) (Split hdr (CHR '','')) ([], -1) = (best, rank)"
    by fastforce
  then have h: "highestRole hdr gr = (best, 0 \<le> rank)" by (simp add: highestRole_def)
  from role_fold [OF f]
  have le: "\<And>role. role \<in> set (header_roles hdr gr) \<Longrightarrow> roleRank role \<le> rank"
    and ex: "(best, rank) = ([], -1) \<or> best \<in> set (header_roles hdr gr) \<and> rank = roleRank best"
    by (auto simp: header_roles_def set_map_filter_option)
  from ex show ?thesis
  proof
    assume e: "(best, rank) = ([], -1)"
    have "header_roles hdr gr = []"
    proof (rule ccontr)
      assume "header_roles hdr gr \<noteq> []"
      then obtain role where "role \<in> set (header_roles hdr gr)" using last_in_set by blast
      then show False using le [of role] roleRank_range(1) [of role] e by simp
    qed
    with e h show ?thesis by simp
  next
    assume "best \<in> set (header_roles hdr gr) \<and> rank = roleRank best"
    then show ?thesis using le h roleRank_range(1) [of best] by auto
  qed
qed

text \<open>C10: the role of a proxied user is one that the configuration gives to a group of the header, and
  no group of the header has a role of a higher rank; when no group has a role there is none.\<close>

theorem highestRole_spec:
  "(case highestRole hdr gr of
      (best, False) \<Rightarrow> header_roles hdr gr = []
    | (best, True) \<Rightarrow> best \<in> set (header_roles hdr gr)
        \<and> list_all (\<lambda>role. roleRank role \<le> roleRank best) (header_roles hdr gr))"
  using highestRole_cases [of hdr gr] by (auto simp: list_all_iff)

section \<open>Where a proxied session comes from\<close>

text \<open>
  The account is in the database the request leaves, and its permission is the account's for
  Tailscale and the highest role of the groups for OAuth2.
\<close>

definition proxied :: "ProxyAuthConfig \<Rightarrow> TailscaleAuthConfig \<Rightarrow> request \<Rightarrow> store \<Rightarrow> Session \<Rightarrow> bool" where
  "proxied proxyCfg tsCfg r s sess \<longleftrightarrow>
     (\<exists>u \<in> set (t_rows (users s)). uID u = sUserID sess \<and> uUsername u = sUsername sess) \<and>
     ((tsEnabled tsCfg \<and> sAuthMethod sess = ''tailscale''
         \<and> map_of (tailscale_logins s) (TrimSpace (HeaderGet (tsUserHeader tsCfg) r)) = Some (sUserID sess)
         \<and> (\<exists>u \<in> set (t_rows (users s)). uID u = sUserID sess \<and> uPermission u = sPermission sess))
      \<or> (paEnabled proxyCfg \<and> sAuthMethod sess = ''OAuth2''
         \<and> sUsername sess = TrimSpace (HeaderGet (paUsernameHeader proxyCfg) r) \<and> sUsername sess \<noteq> []
         \<and> highestRole (HeaderGet (paGroupsHeader proxyCfg) r) (paGroupRoles proxyCfg) = (sPermission sess, True)))"

lemma tailscaleSession_SomeD:
  assumes "tailscaleSession r cfg s = Some sess"
  shows "\<exists>u. GetUserByTailscaleLogin (TrimSpace (HeaderGet (tsUserHeader cfg) r)) s = Inr u
    \<and> sUserID sess = uID u \<and> sUsername sess = uUsername u \<and> sPermission sess = uPermission u
    \<and> sAuthMethod sess = ''tailscale'' \<and> TrimSpace (HeaderGet (tsUserHeader cfg) r) \<noteq> []"
  using assms
  by (simp add: tailscaleSession_def Let_def proxy_session_def split: if_splits sum.splits)
    (auto simp: proxy_session_def)

lemma oauth_user_SomeD:
  "oauth_user username role cfg s = (Some u, s1) \<Longrightarrow>
     (GetUser username s = Inr u \<and> s1 = s) \<or> CreateUser username ''*'' role s = (Inr u, s1)"
  by (auto simp: oauth_user_def split: sum.splits if_splits prod.splits)

lemma oauthSession_SomeD:
  assumes "oauthSession r cfg s = ((Some sess, False), s')"
  shows "\<exists>u s1. oauth_user (TrimSpace (HeaderGet (paUsernameHeader cfg) r)) (sPermission sess) cfg s = (Some u, s1)
    \<and> s' = (if paUpdateDBRole cfg \<and> uPermission u \<noteq> sPermission sess
            then UpdateUserPermission (uID u) (sPermission sess) s1 else s1)
    \<and> sess = proxy_session u (sPermission sess) ''OAuth2''
    \<and> TrimSpace (HeaderGet (paUsernameHeader cfg) r) \<noteq> []
    \<and> highestRole (HeaderGet (paGroupsHeader cfg) r) (paGroupRoles cfg) = (sPermission sess, True)"
proof -
  obtain role ok where role: "highestRole (HeaderGet (paGroupsHeader cfg) r) (paGroupRoles cfg) = (role, ok)"
    by fastforce
  obtain uo s1 where ou: "oauth_user (TrimSpace (HeaderGet (paUsernameHeader cfg) r)) role cfg s = (uo, s1)"
    by fastforce
  from assms role ou obtain u where uo: "uo = Some u" "ok"
    "TrimSpace (HeaderGet (paUsernameHeader cfg) r) \<noteq> []" "sess = proxy_session u role ''OAuth2''"
    "s' = (if paUpdateDBRole cfg \<and> uPermission u \<noteq> role then UpdateUserPermission (uID u) role s1 else s1)"
    by (auto simp: oauthSession_def Let_def split: if_splits option.splits)
  moreover from uo(4) have "sPermission sess = role" by (simp add: proxy_session_def)
  ultimately show ?thesis using role ou by auto
qed

end
