(* ===== verification/Server_Login.thy ===== *)
theory Server_Login
  imports Server_ProxyAuth Passwords Db_Nodes
begin

text \<open>
  \<open>internal/server/handlers.go\<close>: the setup, login and dashboard pages; with the guard that sends
  every request to the setup page while there is no account, the check of
  \<open>internal/server/profile.go\<close> that the account of a session still exists, and the session secret
  of \<open>server.go\<close>.
\<close>

section \<open>What the handlers share\<close>

text \<open>
  The server's configuration and what it uses of packages: the HMAC and JSON coding of sessions,
  bcrypt, the URL parser, and the text of a database error. \<open>svNow\<close> is the clock in Unix seconds.
\<close>

record server_env =
  svConfig :: Config
  svVersion :: string
  svMac :: "string \<Rightarrow> string"
  svMarshal :: "Session \<Rightarrow> string option"
  svUnmarshal :: "string \<Rightarrow> Session option"
  svBcryptGen :: "string \<Rightarrow> string option"
  svBcryptCmp :: "string \<Rightarrow> string \<Rightarrow> bool"
  svURLHost :: "string \<Rightarrow> string option"
  svErrorText :: "db_error \<Rightarrow> string"
  svNow :: int

definition url :: "server_env \<Rightarrow> string \<Rightarrow> string" where
  "url env path = scBasePath (cfServer (svConfig env)) @ path"

definition secure :: "server_env \<Rightarrow> bool" where
  "secure env = (tlMode (cfTLS (svConfig env)) \<noteq> ''disabled'')"

definition login_url :: "server_env \<Rightarrow> string" where
  "login_url env = (let bp = scBasePath (cfServer (svConfig env)) in if bp \<noteq> [] then bp @ ''/login'' else ''/login'')"

text \<open>\<open>SetSession\<close> for an account, with the avatar to show.\<close>

definition session_cookie :: "server_env \<Rightarrow> user \<Rightarrow> string \<Rightarrow> Cookie option" where
  "session_cookie env u avatarURL =
     SetSession (svMac env) (svMarshal env) (secure env) (svNow env) (uID u) (uUsername u) (uPermission u) (uFullName u) avatarURL"

record pageData =
  pdUsername :: string
  pdPermission :: string
  pdFullName :: string
  pdAvatarURL :: string
  pdVersion :: string
  pdRepoURL :: string
  pdAuthMethod :: string
  pdExternalUsername :: string
  pdBasePath :: string

definition newPageData :: "server_env \<Rightarrow> pageData" where
  "newPageData env = \<lparr>pdUsername = [], pdPermission = [], pdFullName = [], pdAvatarURL = [],
     pdVersion = svVersion env, pdRepoURL = uiFooterURL (cfUI (svConfig env)), pdAuthMethod = [], pdExternalUsername = [],
     pdBasePath = scBasePath (cfServer (svConfig env))\<rparr>"

definition fillSession :: "Session option \<Rightarrow> pageData \<Rightarrow> pageData" where
  "fillSession sess pd =
     (case sess of
        None \<Rightarrow> pd
      | Some s \<Rightarrow> pd\<lparr>pdUsername := sUsername s, pdPermission := sPermission s, pdFullName := sFullName s,
          pdAvatarURL := sAvatarURL s, pdAuthMethod := sAuthMethod s, pdExternalUsername := sExternalUsername s\<rparr>)"

text \<open>The data a template is given: the common fields with an error, the nodes, or a node number.\<close>

datatype page =
    PlainPage pageData
  | NoticePage pageData string
  | NodesPage pageData "node list" "node option"
  | GraphPage pageData string int

text \<open>An answer with the cookies it sets.\<close>

type_synonym 'a answer = "'a reply \<times> Cookie list"

section \<open>The session secret\<close>

text \<open>\<open>random\<close> is the secret \<open>GenerateSecret\<close> would give; the result is the decoded key.\<close>

definition initSessions :: "string \<Rightarrow> store \<Rightarrow> string option \<times> store" where
  "initSessions random s =
     (let secret0 = GetConfig ''session_secret'' s;
          (secret, s') = (if secret0 = [] then (random, SetConfig ''session_secret'' random s) else (secret0, s))
      in (StdDecode secret, s'))"

section \<open>Setup\<close>

definition password_message :: "password_error \<Rightarrow> string" where
  "password_message e = (case e of TooShort \<Rightarrow> ''password must be at least 8 characters''
     | HashingFailed \<Rightarrow> ''hashing password: bcrypt: password length exceeds 72 bytes'')"

definition handleSetupGet :: "server_env \<Rightarrow> store \<Rightarrow> page answer" where
  "handleSetupGet env s =
     (if 0 < CountUsers s then (HttpRedirect 302 (url env ''/login''), [])
      else (Page 200 ''setup'' (NoticePage (newPageData env) []), []))"

definition setup_notice :: "server_env \<Rightarrow> string \<Rightarrow> page answer" where
  "setup_notice env msg = (Page 200 ''setup'' (NoticePage (newPageData env) msg), [])"

text \<open>\<open>formOk\<close> says whether the form of the request parses.\<close>

definition handleSetupPost :: "server_env \<Rightarrow> bool \<Rightarrow> request \<Rightarrow> store \<Rightarrow> page answer \<times> store" where
  "handleSetupPost env formOk r s =
     (if 0 < CountUsers s then ((HttpRedirect 302 (url env ''/login''), []), s)
      else if \<not> formOk then (setup_notice env ''Invalid form data'', s)
      else let username = FormValue ''username'' r; password = FormValue ''password'' r; confirm = FormValue ''confirm'' r in
        if username = [] then (setup_notice env ''Username is required'', s)
        else if password \<noteq> confirm then (setup_notice env ''Passwords do not match'', s)
        else (case HashPassword (svBcryptGen env) password of
            Inl e \<Rightarrow> (setup_notice env (password_message e), s)
          | Inr hash \<Rightarrow> (case CreateUser username hash PermSuperuser s of
                (Inl e, s') \<Rightarrow> (setup_notice env (''Failed to create user: '' @ svErrorText env e), s')
              | (Inr u, s') \<Rightarrow> (case session_cookie env u (uAvatarURL u) of
                    None \<Rightarrow> (setup_notice env ''Session error'', s')
                  | Some ck \<Rightarrow> ((HttpRedirect 303 (url env ''/dashboard''), [ck]), s')))))"

section \<open>Login and logout\<close>

definition handleLoginGet :: "server_env \<Rightarrow> Session option \<Rightarrow> store \<Rightarrow> page answer" where
  "handleLoginGet env ctx s =
     (case ctx of
        Some sess \<Rightarrow> (HttpRedirect 302 (url env ''/dashboard''), [])
      | None \<Rightarrow> if CountUsers s = 0 then (HttpRedirect 302 (url env ''/setup''), [])
                else (Page 200 ''login'' (NoticePage (newPageData env) []), []))"

text \<open>The same for an unknown user and a wrong password.\<close>

definition renderLoginError :: "server_env \<Rightarrow> page answer" where
  "renderLoginError env = (Page 401 ''login'' (NoticePage (newPageData env) ''Invalid username or password''), [])"

definition client_ip :: "request \<Rightarrow> string" where
  "client_ip r = (case SplitHostPort (rqRemoteAddr r) of None \<Rightarrow> rqRemoteAddr r | Some (host, port) \<Rightarrow> host)"

text \<open>\<open>nanos\<close> is the limiter's clock.\<close>

definition handleLoginPost :: "server_env \<Rightarrow> int \<Rightarrow> bool \<Rightarrow> request \<Rightarrow> store \<Rightarrow> login_limiter \<Rightarrow> page answer \<times> login_limiter" where
  "handleLoginPost env nanos formOk r s l =
     (let ip = client_ip r in
      if \<not> Allow nanos ip l then ((HttpError 429 (''Too many failed login attempts '' @ em_dash @ '' try again in a minute''), []), l)
      else if \<not> formOk then ((Page 200 ''login'' (NoticePage (newPageData env) ''Invalid form data''), []), l)
      else let username = FormValue ''username'' r; password = FormValue ''password'' r in
        (case GetUser username s of
           Inl e \<Rightarrow> (renderLoginError env, RecordFailure nanos ip l)
         | Inr u \<Rightarrow>
             if uPassword u = ''*'' then (renderLoginError env, RecordFailure nanos ip l)
             else if \<not> CheckPassword (svBcryptCmp env) (uPassword u) password
             then (renderLoginError env, RecordFailure nanos ip l)
             else let l' = RecordSuccess ip l in
               (case session_cookie env u (uAvatarURL u) of
                  None \<Rightarrow> ((HttpError 500 ''session error'', []), l')
                | Some ck \<Rightarrow>
                    (let next0 = FormValue ''next'' r;
                         next = (if next0 = [] \<or> hd next0 \<noteq> CHR ''/'' then url env ''/dashboard'' else next0)
                     in ((HttpRedirect 303 next, [ck]), l')))))"

definition handleLogout :: "server_env \<Rightarrow> page answer" where
  "handleLogout env = (HttpRedirect 303 (url env ''/login''), [ClearSession (secure env)])"

section \<open>Dashboard\<close>

definition setLastDashboard :: "string \<Rightarrow> Cookie" where
  "setLastDashboard value = \<lparr>ckName = ''yaamon_last_dashboard'', ckValue = value, ckPath = ''/'',
     ckMaxAge = 30 * 24 * 3600, ckHttpOnly = False, ckSecure = False, ckSameSiteStrict = False\<rparr>"

definition handleDashboardOverview :: "server_env \<Rightarrow> page answer" where
  "handleDashboardOverview env = (HttpRedirect 302 (url env ''/dashboard''), [setLastDashboard ''overview''])"

text \<open>\<open>lookup\<close> is \<open>nodeDB.Lookup\<close>: description and location of a node number.\<close>

definition fill_node :: "(string \<Rightarrow> (string \<times> string) option) \<Rightarrow> node \<Rightarrow> node" where
  "fill_node lookup n =
     (if nDescription n = [] \<or> nLocation n = []
      then (case lookup (nNodeNumber n) of
          None \<Rightarrow> n
        | Some (desc, loc) \<Rightarrow>
            n\<lparr>nDescription := (if nDescription n = [] then desc else nDescription n),
              nLocation := (if nLocation n = [] then loc else nLocation n)\<rparr>)
      else n)"

definition fillNodeInfo :: "(string \<Rightarrow> (string \<times> string) option) \<Rightarrow> node list \<Rightarrow> node list" where
  "fillNodeInfo lookup ns = map (fill_node lookup) ns"

text \<open>The node an id string names, if it is one of the list.\<close>

definition node_by_string :: "string \<Rightarrow> node list \<Rightarrow> node option" where
  "node_by_string idStr ns =
     (case ParseInt idStr of None \<Rightarrow> None | Some i \<Rightarrow> find (\<lambda>n. nID n = i) ns)"

definition dashboard_url :: "server_env \<Rightarrow> int \<Rightarrow> string" where
  "dashboard_url env i = url env (''/dashboard/'' @ FormatInt i)"

definition handleDashboard :: "server_env \<Rightarrow> (string \<Rightarrow> (string \<times> string) option) \<Rightarrow> Session option \<Rightarrow> request \<Rightarrow> store
    \<Rightarrow> page answer" where
  "handleDashboard env lookup ctx r s =
     (let pd = fillSession ctx (newPageData env);
          ns = fillNodeInfo lookup (ListNodes s);
          idStr = URLParam ''nodeID'' r
      in case (if idStr \<noteq> [] then node_by_string idStr ns else None) of
           Some n \<Rightarrow> (Page 200 ''dashboard'' (NodesPage pd ns (Some n)), [setLastDashboard idStr])
         | None \<Rightarrow>
             (case ns of
                [] \<Rightarrow> (Page 200 ''dashboard'' (NodesPage pd ns None), [])
              | [n] \<Rightarrow> (HttpRedirect 302 (dashboard_url env (nID n)), [])
              | _ \<Rightarrow>
                  (case (case map_of (rqCookies r) ''yaamon_last_dashboard'' of
                           None \<Rightarrow> None
                         | Some v \<Rightarrow> if v \<noteq> ''overview'' then node_by_string v ns else None) of
                     Some n \<Rightarrow> (HttpRedirect 302 (dashboard_url env (nID n)), [])
                   | None \<Rightarrow> (Page 200 ''dashboard'' (NodesPage pd ns None), [setLastDashboard ''overview'']))))"

section \<open>Guards in front of every route\<close>

definition setupGuard :: "server_env \<Rightarrow> request \<Rightarrow> store \<Rightarrow> page answer option" where
  "setupGuard env r s =
     (if rqPath r = url env ''/setup'' \<or> rqPath r = ''/health'' \<or> HasPrefix (rqPath r) (url env ''/static/'') then None
      else if CountUsers s = 0 then Some (HttpRedirect 302 (url env ''/setup''), [])
      else None)"

text \<open>Sessions of a proxy are not checked against the database, they were derived from it.\<close>

definition validateSessionUser :: "server_env \<Rightarrow> Session option \<Rightarrow> request \<Rightarrow> store \<Rightarrow> page answer option" where
  "validateSessionUser env ctx r s =
     (case ctx of
        None \<Rightarrow> None
      | Some sess \<Rightarrow>
          if sAuthMethod sess \<noteq> [] then None
          else (case GetUserByID (sUserID sess) s of
              Inr u \<Rightarrow> None
            | Inl e \<Rightarrow>
                Some (if HasPrefix (rqPath r) (url env ''/api/'') then HttpError 401 ''session expired''
                      else HttpRedirect 303 (url env ''/login''),
                      [ClearSession (secure env)])))"

section \<open>Who is logged in\<close>

lemma session_cookie_name: "session_cookie env u a = Some ck \<Longrightarrow> ckName ck = cookieName"
  by (auto simp: session_cookie_def SetSession_def split: option.splits)

text \<open>C7: a login sets a session cookie exactly when the limiter admits the client's address, the form
  parses, and the password matches that of an account which is not for proxies only; an unknown
  name, a proxy account and a wrong password get the same answer and count as a failure.\<close>

theorem login_sets_session:
  "(case handleLoginPost env nanos formOk r s l of
      ((answer, cookies), l') \<Rightarrow>
        (if Allow nanos (client_ip r) l \<and> formOk
         then (case GetUser (FormValue ''username'' r) s of
             Inr u \<Rightarrow>
               if uPassword u \<noteq> ''*'' \<and> svBcryptCmp env (uPassword u) (FormValue ''password'' r)
               then cookies = (case session_cookie env u (uAvatarURL u) of None \<Rightarrow> [] | Some ck \<Rightarrow> [ck])
                  \<and> l' = RecordSuccess (client_ip r) l
               else (answer, cookies) = renderLoginError env \<and> l' = RecordFailure nanos (client_ip r) l
           | Inl e \<Rightarrow> (answer, cookies) = renderLoginError env \<and> l' = RecordFailure nanos (client_ip r) l)
         else cookies = [] \<and> l' = l))"
  by (simp add: handleLoginPost_def Let_def CheckPassword_def renderLoginError_def split: sum.split option.split)

text \<open>C9: the setup form changes the database only while there is no account, and then the one account
  it makes is a superuser with a name and the hash of a password of at least eight characters.\<close>

theorem setup_first_account:
  "snd (handleSetupPost env formOk r s) = s
   \<or> (t_rows (users s) = []
      \<and> (\<exists>u. t_rows (users (snd (handleSetupPost env formOk r s))) = [u] \<and> uPermission u = PermSuperuser
           \<and> uUsername u = FormValue ''username'' r \<and> uUsername u \<noteq> []
           \<and> 8 \<le> length (FormValue ''password'' r)
           \<and> svBcryptGen env (FormValue ''password'' r) = Some (uPassword u)))"
  by (auto simp: handleSetupPost_def Let_def CountUsers_def CreateUser_def tbl_insert_def user_new_def
      split: sum.splits option.splits if_splits dest!: HashPassword_InrD)

text \<open>The path after a login is only asked to begin with a slash: it may name another host.\<close>

definition demoLogin :: server_env where
  "demoLogin = \<lparr>svConfig = default_config, svVersion = ''dev'', svMac = rev,
     svMarshal = (\<lambda>sess. Some ''pay''), svUnmarshal = (\<lambda>p. None), svBcryptGen = Some, svBcryptCmp = (=),
     svURLHost = Some, svErrorText = (\<lambda>e. ''database error''), svNow = 100\<rparr>"

lemma login_redirects_elsewhere:
  "fst (fst (handleLoginPost demoLogin 0 True
      \<lparr>rqMethod = ''POST'', rqPath = ''/login'', rqURI = ''/login'', rqHost = ''yaamon'', rqRemoteAddr = ''10.0.0.9:4711'',
       rqTLS = True, rqHeader = [], rqCookies = [],
       rqForm = [(''username'', ''ann''), (''password'', ''secret-1''), (''next'', ''//evil.example/'')], rqParam = []\<rparr>
      (snd (CreateUser ''ann'' ''secret-1'' ''admin'' store_empty)) newLoginLimiter))
   = HttpRedirect 303 ''//evil.example/''"
  by code_simp

end
