(* ===== verification/Server_Routes.thy ===== *)
theory Server_Routes
  imports Server_Login
begin

text \<open>
  \<open>internal/server/server.go\<close>, \<open>Run\<close>: the chain of middlewares in front of the router, the table
  of routes with the permission of each group, and what a request must have passed when a handler
  runs. Matching a request against the table is the router's (a parameter), which answers an unknown
  method with 405 where the model says 404. The middlewares of the router's library that come first
  (\<open>RealIP\<close>, \<open>Logger\<close>, \<open>Recoverer\<close>) are left out: the address of a request is the one \<open>RealIP\<close> leaves.
\<close>

section \<open>The table\<close>

text \<open>A route of any method has the method \<open>*\<close>; \<open>rtPerm\<close> is the permission of its group.\<close>

record route =
  rtMethod :: string
  rtPattern :: string
  rtPerm :: "string option"
  rtHandler :: string

definition route_in :: "string option \<Rightarrow> string \<times> string \<times> string \<Rightarrow> route" where
  "route_in perm mph = \<lparr>rtMethod = fst mph, rtPattern = fst (snd mph), rtPerm = perm, rtHandler = snd (snd mph)\<rparr>"

definition public_routes :: "route list" where
  "public_routes = map (route_in None)
     [(''GET'', ''/favicon.ico'', ''serveFavicon''),
      (''GET'', ''/favicon.png'', ''serveFavicon''),
      (''*'', ''/static/*'', ''FileServer''),
      (''GET'', ''/health'', ''handleHealth''),
      (''GET'', ''/setup'', ''handleSetupGet''),
      (''POST'', ''/setup'', ''handleSetupPost''),
      (''GET'', ''/login'', ''handleLoginGet''),
      (''POST'', ''/login'', ''handleLoginPost''),
      (''GET'', ''/logout'', ''handleLogout''),
      (''POST'', ''/api/passkeys/login/begin'', ''handleAPIPasskeysLoginBegin''),
      (''POST'', ''/api/passkeys/login/finish'', ''handleAPIPasskeysLoginFinish'')]"

definition readonly_routes :: "route list" where
  "readonly_routes = map (route_in (Some PermReadOnly))
     [(''GET'', ''/'', ''redirectToDashboard''),
      (''GET'', ''/dashboard'', ''handleDashboard''),
      (''GET'', ''/dashboard/overview'', ''handleDashboardOverview''),
      (''GET'', ''/dashboard/{nodeID}'', ''handleDashboard''),
      (''GET'', ''/sse/{nodeID}'', ''handleSSE''),
      (''GET'', ''/api/nodes'', ''handleAPIListNodes''),
      (''GET'', ''/api/nodes/{id}/favorites'', ''handleAPIListFavorites''),
      (''GET'', ''/api/nodes/{id}/stats'', ''handleAPINodeStats''),
      (''GET'', ''/api/nodes/{id}/connections/{nodeNumber}'', ''handleAPIConnections''),
      (''GET'', ''/graph/{nodeNumber}'', ''handleGraphPage''),
      (''GET'', ''/api/profile'', ''handleAPIGetProfile''),
      (''PUT'', ''/api/profile'', ''handleAPIUpdateProfile''),
      (''POST'', ''/api/profile/avatar'', ''handleAPIUploadAvatar''),
      (''DELETE'', ''/api/profile/avatar'', ''handleAPIDeleteAvatar''),
      (''GET'', ''/api/profile/qrz'', ''handleAPIGetUserQRZ''),
      (''PUT'', ''/api/profile/qrz'', ''handleAPISetUserQRZ''),
      (''DELETE'', ''/api/profile/qrz'', ''handleAPIDeleteUserQRZ''),
      (''DELETE'', ''/api/profile/qrz/cache'', ''handleAPIClearUserQRZCache''),
      (''GET'', ''/api/users/{id}/avatar'', ''handleAPIGetAvatar''),
      (''GET'', ''/api/nodes/{id}/commands'', ''handleAPIListCommands''),
      (''POST'', ''/api/nodes/{id}/cmd'', ''handleAPIRunCommand''),
      (''GET'', ''/api/qrz/{callsign}'', ''handleAPIQRZLookup''),
      (''GET'', ''/api/passkeys'', ''handleAPIListPasskeys''),
      (''POST'', ''/api/passkeys/register/begin'', ''handleAPIPasskeysRegisterBegin''),
      (''POST'', ''/api/passkeys/register/finish'', ''handleAPIPasskeysRegisterFinish''),
      (''PATCH'', ''/api/passkeys/{id}'', ''handleAPIRenamePasskey''),
      (''DELETE'', ''/api/passkeys/{id}'', ''handleAPIDeletePasskey''),
      (''GET'', ''/api/nodes/{id}/favorites/export'', ''handleAPIFavoritesExport'')]"

definition readwrite_routes :: "route list" where
  "readwrite_routes = map (route_in (Some PermReadWrite))
     [(''GET'', ''/settings/favorites'', ''handleFavoritesPage''),
      (''GET'', ''/settings/favorites/{nodeID}'', ''handleFavoritesPage''),
      (''POST'', ''/api/nodes/{id}/connect'', ''handleConnect''),
      (''POST'', ''/api/nodes/{id}/disconnect'', ''handleDisconnect''),
      (''POST'', ''/api/nodes/{id}/favorites'', ''handleAPICreateFavorite''),
      (''PUT'', ''/api/nodes/{id}/favorites/{fid}'', ''handleAPIUpdateFavorite''),
      (''PUT'', ''/api/nodes/{id}/favorites/reorder'', ''handleAPIReorderFavorites''),
      (''POST'', ''/api/nodes/{id}/favorites/copy'', ''handleAPICopyFavorites''),
      (''DELETE'', ''/api/nodes/{id}/favorites/{fid}'', ''handleAPIDeleteFavorite''),
      (''POST'', ''/api/nodes/{id}/favorites/import/preview'', ''handleAPIFavoritesImportPreview''),
      (''POST'', ''/api/nodes/{id}/favorites/import'', ''handleAPIFavoritesImport'')]"

definition admin_routes :: "route list" where
  "admin_routes = map (route_in (Some PermAdmin))
     [(''POST'', ''/api/admin/favicon'', ''handleAPIUploadFavicon''),
      (''DELETE'', ''/api/admin/favicon'', ''handleAPIDeleteFavicon''),
      (''POST'', ''/api/admin/import/allmon3/preview'', ''handleAPIImportAllmon3Preview''),
      (''POST'', ''/api/admin/import/allmon3'', ''handleAPIImportAllmon3''),
      (''GET'', ''/admin/nodes'', ''handleNodesPage''),
      (''POST'', ''/api/nodes'', ''handleAPICreateNode''),
      (''PUT'', ''/api/nodes/{id}'', ''handleAPIUpdateNode''),
      (''DELETE'', ''/api/nodes/{id}'', ''handleAPIDeleteNode''),
      (''POST'', ''/api/nodes/{id}/test'', ''handleAPITestNode''),
      (''GET'', ''/api/nodes/{id}/secret'', ''handleAPINodeSecret''),
      (''GET'', ''/admin/users'', ''handleUsersPage''),
      (''GET'', ''/api/users'', ''handleAPIListUsers''),
      (''POST'', ''/api/users'', ''handleAPICreateUser''),
      (''PUT'', ''/api/users/{id}'', ''handleAPIUpdateUser''),
      (''DELETE'', ''/api/users/{id}'', ''handleAPIDeleteUser''),
      (''GET'', ''/admin/backup'', ''handleBackupPage''),
      (''POST'', ''/api/backup'', ''handleAPIBackup''),
      (''POST'', ''/api/backup/inspect'', ''handleAPIBackupInspect''),
      (''POST'', ''/api/backup/restore'', ''handleAPIBackupRestore''),
      (''DELETE'', ''/api/admin/integrations/qrz/cache'', ''handleAPIClearQRZCache'')]"

definition routes :: "route list" where
  "routes = public_routes @ readonly_routes @ readwrite_routes @ admin_routes"

section \<open>The chain\<close>

datatype served = Answered "page answer" | Dispatched route "Session option"

text \<open>
  \<open>pick\<close> is the router. The database may change on the way: the proxy middleware creates accounts
  and updates roles.
\<close>

definition serve :: "server_env \<Rightarrow> (request \<Rightarrow> route option) \<Rightarrow> request \<Rightarrow> store \<Rightarrow> served \<times> store" where
  "serve env pick r s =
     (case csrfMiddleware (svURLHost env) r of
        Some (code, msg) \<Rightarrow> (Answered (HttpError code msg, []), s)
      | None \<Rightarrow> (case setupGuard env r s of
          Some a \<Rightarrow> (Answered a, s)
        | None \<Rightarrow> (case proxyAuthMiddleware (cfProxyAuth (svConfig env)) (cfTailscaleAuth (svConfig env)) r s of
            (Inl (code, msg), s') \<Rightarrow> (Answered (HttpError code msg, []), s')
          | (Inr ctx0, s') \<Rightarrow>
              (let ctx = Middleware (svMac env) (svUnmarshal env) (svNow env) (rqCookies r) ctx0 in
               case validateSessionUser env ctx r s' of
                 Some a \<Rightarrow> (Answered a, s')
               | None \<Rightarrow> (case pick r of
                   None \<Rightarrow> (Answered (HttpError 404 ''404 page not found'', []), s')
                 | Some rt \<Rightarrow> (case rtPerm rt of
                     None \<Rightarrow> (Dispatched rt ctx, s')
                   | Some p \<Rightarrow> (case RequirePermission (login_url env) p (rqURI r) ctx of
                       Allowed sess \<Rightarrow> (Dispatched rt (Some sess), s')
                     | RedirectTo target \<Rightarrow> (Answered (HttpRedirect 303 target, []), s')
                     | Forbidden msg \<Rightarrow> (Answered (HttpError 403 msg, []), s'))))))))"

section \<open>Who may be served\<close>

text \<open>The cookie of the request carries a payload the server signed, and the session is that payload.\<close>

definition signed_session :: "server_env \<Rightarrow> request \<Rightarrow> Session \<Rightarrow> bool" where
  "signed_session env r sess \<longleftrightarrow>
     (\<exists>enc payload. map_of (rqCookies r) cookieName = Some (enc @ ''.'' @ sign (svMac env) enc)
        \<and> RawURLDecode enc = Some payload \<and> svUnmarshal env payload = Some sess \<and> svNow env \<le> sExpires sess)"

lemma cookie_session_signed:
  "GetSession (svMac env) (svUnmarshal env) (svNow env) (rqCookies r) = Some sess \<Longrightarrow> signed_session env r sess"
  by (auto simp: GetSession_def signed_session_def split: option.splits dest!: parseToken_SomeD)

lemma GetUserByTailscaleLogin_InrD:
  "GetUserByTailscaleLogin login s = Inr u \<Longrightarrow>
     u \<in> set (t_rows (users s)) \<and> map_of (tailscale_logins s) login = Some (uID u)"
  by (auto simp: GetUserByTailscaleLogin_def split: option.splits dest: GetUserByID_InrD)

text \<open>A role update changes neither ids nor names.\<close>

lemma permission_update_user:
  assumes "u \<in> set (t_rows (users s))"
  shows "\<exists>u' \<in> set (t_rows (users (UpdateUserPermission i p s))). uID u' = uID u \<and> uUsername u' = uUsername u"
proof -
  define u' where "u' = (if uID u = i then u\<lparr>uPermission := p\<rparr> else u)"
  have "u' \<in> set (t_rows (users (UpdateUserPermission i p s)))"
    using assms by (simp add: UpdateUserPermission_def db_simps set_update_where u'_def)
  then show ?thesis by (rule bexI [rotated]) (simp add: u'_def)
qed

lemma proxy_middleware_proxied:
  assumes "proxyAuthMiddleware pc tc r s = (Inr (Some sess), s')"
  shows "proxied pc tc r s' sess"
proof (cases "if tsEnabled tc then tailscaleSession r tc s else None")
  case (Some ts)
  then have eq: "ts = sess" "s' = s" and en: "tsEnabled tc" "tailscaleSession r tc s = Some sess"
    using assms by (auto simp: proxyAuthMiddleware_def split: if_splits)
  from tailscaleSession_SomeD [OF en(2)] show ?thesis
    by (auto simp: proxied_def eq en dest!: GetUserByTailscaleLogin_InrD)
next
  case None
  then have en: "paEnabled pc" and o: "oauthSession r pc s = ((Some sess, False), s')"
    using assms by (auto simp: proxyAuthMiddleware_def split: if_splits prod.splits)
  from oauthSession_SomeD [OF o] obtain u s1 where
    from_db: "oauth_user (TrimSpace (HeaderGet (paUsernameHeader pc) r)) (sPermission sess) pc s = (Some u, s1)"
    and s': "s' = (if paUpdateDBRole pc \<and> uPermission u \<noteq> sPermission sess
            then UpdateUserPermission (uID u) (sPermission sess) s1 else s1)"
    and sess: "sess = proxy_session u (sPermission sess) ''OAuth2''"
    and hdr: "TrimSpace (HeaderGet (paUsernameHeader pc) r) \<noteq> []"
      "highestRole (HeaderGet (paGroupsHeader pc) r) (paGroupRoles pc) = (sPermission sess, True)"
    by blast
  from from_db have u: "u \<in> set (t_rows (users s1))" "uUsername u = TrimSpace (HeaderGet (paUsernameHeader pc) r)"
    by (auto dest!: oauth_user_SomeD dest: GetUser_InrD CreateUser_InrD)
  have ids: "sUserID sess = uID u" "sUsername sess = uUsername u" "sAuthMethod sess = ''OAuth2''"
    by (subst sess, simp add: proxy_session_def)+
  have "\<exists>u' \<in> set (t_rows (users s')). uID u' = uID u \<and> uUsername u' = uUsername u"
    using permission_update_user [OF u(1)] u(1) by (auto simp: s')
  then show ?thesis using en hdr ids u(2) by (simp add: proxied_def)
qed

lemma protected_has_permission:
  "rt \<in> set routes \<Longrightarrow> rt \<notin> set public_routes \<Longrightarrow>
     rtPerm rt \<in> {Some PermReadOnly, Some PermReadWrite, Some PermAdmin}"
  by (auto simp: routes_def readonly_routes_def readwrite_routes_def admin_routes_def route_in_def)

text \<open>What a dispatched request has passed.\<close>

lemma serve_DispatchedD:
  assumes "serve env pick r s = (Dispatched rt ctx, s')"
  shows "csrfMiddleware (svURLHost env) r = None \<and> setupGuard env r s = None \<and> pick r = Some rt
    \<and> (\<exists>ctx0. proxyAuthMiddleware (cfProxyAuth (svConfig env)) (cfTailscaleAuth (svConfig env)) r s = (Inr ctx0, s')
        \<and> ctx = Middleware (svMac env) (svUnmarshal env) (svNow env) (rqCookies r) ctx0)
    \<and> validateSessionUser env ctx r s' = None
    \<and> (\<forall>p. rtPerm rt = Some p \<longrightarrow> (\<exists>sess. Some sess = ctx \<and> PermissionAtLeast (sPermission sess) p))"
  using assms
  by (auto simp: serve_def Let_def RequirePermission_def permissionAtLeast_eq
      split: option.splits prod.splits sum.splits if_splits)

lemma validated_user_exists:
  "validateSessionUser env (Some sess) r s = None \<Longrightarrow> sAuthMethod sess = [] \<Longrightarrow>
     \<exists>u \<in> set (t_rows (users s)). uID u = sUserID sess"
  by (auto simp: validateSessionUser_def split: sum.splits dest: GetUserByID_InrD)

text \<open>A session of the context comes from a proxy or from the cookie.\<close>

lemma context_session:
  assumes "proxyAuthMiddleware pc tc r s = (Inr ctx0, s')"
    and "Middleware (svMac env) (svUnmarshal env) (svNow env) (rqCookies r) ctx0 = Some sess"
  shows "proxied pc tc r s' sess \<or> signed_session env r sess"
  using assms by (cases ctx0) (auto simp: Middleware_def dest: proxy_middleware_proxied cookie_session_signed)

lemma csrf_passes:
  "csrfMiddleware url_host r = None \<Longrightarrow> rqMethod r \<in> {''GET'', ''HEAD'', ''OPTIONS''} \<or> HeaderGet ''Origin'' r = []
     \<or> url_host (HeaderGet ''Origin'' r) = Some (if HeaderGet ''X-Forwarded-Host'' r \<noteq> [] then HeaderGet ''X-Forwarded-Host'' r else rqHost r)"
  by (auto simp: csrfMiddleware_def Let_def split: if_splits option.splits)

text \<open>C1: the handler of a route that is not public runs only for a session whose permission is at
  least that of the route's group. The session was signed by the server and its account still
  exists, unless it records a proxy as its login method, which no session the server sets does; or it was
  derived in this request from the headers of an enabled proxy for an account of
  the database. And a request that may change state, if it has an \<open>Origin\<close> header at all, has one whose host
  is that of \<open>X-Forwarded-Host\<close>, or without such a header that of the request.\<close>

theorem serve_authorised:
  assumes "serve env pick r s = (Dispatched rt ctx, s')"
    and "\<forall>r rt. pick r = Some rt \<longrightarrow> rt \<in> set routes" and "rt \<notin> set public_routes"
  shows "\<exists>sess p. ctx = Some sess \<and> rtPerm rt = Some p \<and> PermissionAtLeast (sPermission sess) p
    \<and> p \<in> {PermReadOnly, PermReadWrite, PermAdmin}
    \<and> (proxied (cfProxyAuth (svConfig env)) (cfTailscaleAuth (svConfig env)) r s' sess
       \<or> (signed_session env r sess
          \<and> (sAuthMethod sess = [] \<longrightarrow> (\<exists>u \<in> set (t_rows (users s')). uID u = sUserID sess))))
    \<and> (rqMethod r \<in> {''GET'', ''HEAD'', ''OPTIONS''} \<or> HeaderGet ''Origin'' r = []
       \<or> svURLHost env (HeaderGet ''Origin'' r)
          = Some (if HeaderGet ''X-Forwarded-Host'' r \<noteq> [] then HeaderGet ''X-Forwarded-Host'' r else rqHost r))"
proof -
  note d = serve_DispatchedD [OF assms(1)]
  with assms(2) have "rt \<in> set routes" by blast
  with protected_has_permission assms(3) obtain p where p: "rtPerm rt = Some p"
    and in_p: "p \<in> {PermReadOnly, PermReadWrite, PermAdmin}" by blast
  with d obtain sess ctx0 where ctx: "ctx = Some sess" "PermissionAtLeast (sPermission sess) p"
    and pa: "proxyAuthMiddleware (cfProxyAuth (svConfig env)) (cfTailscaleAuth (svConfig env)) r s = (Inr ctx0, s')"
      "Middleware (svMac env) (svUnmarshal env) (svNow env) (rqCookies r) ctx0 = Some sess"
    by (metis (no_types, lifting))
  have "sAuthMethod sess = [] \<longrightarrow> (\<exists>u \<in> set (t_rows (users s')). uID u = sUserID sess)"
    using d ctx(1) by (auto dest: validated_user_exists)
  with context_session [OF pa] ctx p in_p d csrf_passes show ?thesis by blast
qed

section \<open>An example\<close>

text \<open>A server with one account, an admin, and a session of it whose payload is coded as \<open>pay\<close>.\<close>

definition demoSession :: Session where
  "demoSession = newSession 100 1 ''ann'' ''admin'' [] []"

definition demoServer :: server_env where
  "demoServer = \<lparr>svConfig = default_config, svVersion = ''dev'', svMac = rev,
     svMarshal = (\<lambda>sess. if sess = demoSession then Some ''pay'' else None),
     svUnmarshal = (\<lambda>p. if p = ''pay'' then Some demoSession else None),
     svBcryptGen = Some, svBcryptCmp = (=), svURLHost = (\<lambda>u. if HasPrefix u ''https://'' then Some (drop 8 u) else None),
     svErrorText = (\<lambda>e. ''database error''), svNow = 200\<rparr>"

definition demoUsers :: "string \<Rightarrow> store" where
  "demoUsers perm = snd (CreateUser ''ann'' ''secret-1'' perm store_empty)"

definition demoRequest :: "string \<Rightarrow> string \<Rightarrow> request" where
  "demoRequest method path = \<lparr>rqMethod = method, rqPath = path, rqURI = path, rqHost = ''yaamon'',
     rqRemoteAddr = ''10.0.0.9:4711'', rqTLS = True, rqHeader = [(''Origin'', ''https://yaamon'')],
     rqCookies = [(cookieName, RawURLEncode ''pay'' @ ''.'' @ sign rev (RawURLEncode ''pay''))],
     rqForm = [], rqParam = []\<rparr>"

definition demoPick :: "request \<Rightarrow> route option" where
  "demoPick r = find (\<lambda>rt. rtMethod rt = rqMethod r \<and> rtPattern rt = rqPath r) routes"

lemma demoPick_routes: "\<forall>r rt. demoPick r = Some rt \<longrightarrow> rt \<in> set routes"
  by (auto simp: demoPick_def dest: find_SomeD)

theorem serve_authorised_witness:
  "\<exists>sess. snd (case fst (serve demoServer demoPick (demoRequest ''POST'' ''/api/users'') (demoUsers ''admin'')) of
      Dispatched rt ctx \<Rightarrow> (rt, ctx) | Answered a \<Rightarrow> (route_in None ([], [], []), None)) = Some sess
    \<and> PermissionAtLeast (sPermission sess) PermAdmin"
proof -
  define rt where "rt = route_in (Some PermAdmin) (''POST'', ''/api/users'', ''handleAPICreateUser'')"
  have run: "serve demoServer demoPick (demoRequest ''POST'' ''/api/users'') (demoUsers ''admin'')
      = (Dispatched rt (Some demoSession), demoUsers ''admin'')"
    unfolding rt_def by code_simp
  have "rt \<notin> set public_routes" unfolding rt_def by code_simp
  from serve_authorised [OF run demoPick_routes this] run show ?thesis
    by (auto simp: rt_def route_in_def)
qed

text \<open>
  There is no token against forged requests: one that changes state and has no \<open>Origin\<close> header is served for
  its cookie alone.
\<close>

lemma served_without_origin:
  "serve demoServer demoPick ((demoRequest ''POST'' ''/api/users'')\<lparr>rqHeader := []\<rparr>) (demoUsers ''admin'')
     = (Dispatched (route_in (Some PermAdmin) (''POST'', ''/api/users'', ''handleAPICreateUser'')) (Some demoSession),
        demoUsers ''admin'')"
  by code_simp

text \<open>
  The permission is the one signed into the cookie: an account whose permission has been lowered
  since keeps the old one until the session expires.
\<close>

lemma lowered_permission_kept:
  "serve demoServer demoPick (demoRequest ''POST'' ''/api/users'') (demoUsers ''readonly'')
     = (Dispatched (route_in (Some PermAdmin) (''POST'', ''/api/users'', ''handleAPICreateUser'')) (Some demoSession),
        demoUsers ''readonly'')"
  by code_simp

end
