(* ===== verification/Server_Users.thy ===== *)
theory Server_Users
  imports Server_Login
begin

text \<open>
  \<open>internal/server/users.go\<close>: the account handlers, which run behind the admin group of routes. A
  body is \<open>None\<close> when it does not decode; a handler gives its answer and the database.
\<close>

record userJSON =
  ujID :: int
  ujUsername :: string
  ujPermission :: string
  ujFullName :: string
  ujAvatarURL :: string
  ujTailscaleUsernames :: string

record userInput =
  uiUsername :: string
  uiPassword :: string
  uiPermission :: string
  uiTailscaleUsernames :: "string option"

definition userToJSON :: "user \<Rightarrow> string list \<Rightarrow> userJSON" where
  "userToJSON u logins = \<lparr>ujID = uID u, ujUsername = uUsername u, ujPermission = uPermission u,
     ujFullName = uFullName u, ujAvatarURL = uAvatarURL u, ujTailscaleUsernames = Join logins '',''\<rparr>"

text \<open>The \<open>seen\<close> map of the loop holds what has been collected.\<close>

definition add_login :: "string \<Rightarrow> string list \<Rightarrow> string list" where
  "add_login part out = (let l = TrimSpace part in if l \<noteq> [] \<and> l \<notin> set out then out @ [l] else out)"

definition splitLogins :: "string \<Rightarrow> string list" where
  "splitLogins s = fold add_login (Split s (CHR '','')) []"

definition handleAPIListUsers :: "store \<Rightarrow> userJSON list reply" where
  "handleAPIListUsers s = Json 200 (map (\<lambda>u. userToJSON u (GetTailscaleLogins (uID u) s)) (ListUsers s))"

definition handleAPICreateUser :: "server_env \<Rightarrow> Session \<Rightarrow> userInput option \<Rightarrow> store \<Rightarrow> userJSON reply \<times> store" where
  "handleAPICreateUser env sess body s =
     (case body of
        None \<Rightarrow> (HttpError 400 ''invalid JSON'', s)
      | Some inp \<Rightarrow>
          if uiUsername inp = [] then (HttpError 400 ''username is required'', s)
          else if \<not> ValidPermission (uiPermission inp) then (HttpError 400 ''invalid permission level'', s)
          else if uiPermission inp = PermSuperuser \<and> sPermission sess \<noteq> PermSuperuser
          then (HttpError 403 ''only superusers can create superuser accounts'', s)
          else (case HashPassword (svBcryptGen env) (uiPassword inp) of
              Inl e \<Rightarrow> (HttpError 400 (password_message e), s)
            | Inr hash \<Rightarrow> (case CreateUser (uiUsername inp) hash (uiPermission inp) s of
                  (Inl e, s') \<Rightarrow> (HttpError 500 (''create user: '' @ svErrorText env e), s')
                | (Inr u, s') \<Rightarrow> (Json 201 (userToJSON u []), s'))))"

text \<open>
  The update in the order of the handler: permission, password, Tailscale logins. What an earlier
  part has written stays when a later one fails.
\<close>

definition update_permission :: "Session \<Rightarrow> user \<Rightarrow> userInput \<Rightarrow> store \<Rightarrow> (nat \<times> string) option \<times> user \<times> store" where
  "update_permission sess existing inp s =
     (if uiPermission inp = [] then (None, existing, s)
      else if \<not> ValidPermission (uiPermission inp) then (Some (400, ''invalid permission level''), existing, s)
      else if uiPermission inp = PermSuperuser \<and> sPermission sess \<noteq> PermSuperuser
      then (Some (403, ''only superusers can grant superuser permission''), existing, s)
      else (None, existing\<lparr>uPermission := uiPermission inp\<rparr>, UpdateUserPermission (uID existing) (uiPermission inp) s))"

definition update_password :: "server_env \<Rightarrow> int \<Rightarrow> userInput \<Rightarrow> store \<Rightarrow> (nat \<times> string) option \<times> store" where
  "update_password env i inp s =
     (if uiPassword inp = [] then (None, s)
      else (case HashPassword (svBcryptGen env) (uiPassword inp) of
          Inl e \<Rightarrow> (Some (400, password_message e), s)
        | Inr hash \<Rightarrow> (None, UpdateUserPassword i hash s)))"

definition update_logins :: "server_env \<Rightarrow> int \<Rightarrow> string option \<Rightarrow> store \<Rightarrow> (nat \<times> string) option \<times> store" where
  "update_logins env i names s =
     (case names of
        None \<Rightarrow> (None, s)
      | Some ns \<Rightarrow> (case SetTailscaleLogins i (splitLogins ns) s of
            (Inl e, s') \<Rightarrow> (Some (400, svErrorText env e), s')
          | (Inr _, s') \<Rightarrow> (None, s')))"

definition update_account :: "server_env \<Rightarrow> Session \<Rightarrow> user \<Rightarrow> userInput \<Rightarrow> store \<Rightarrow> userJSON reply \<times> store" where
  "update_account env sess existing inp s =
     (case update_permission sess existing inp s of
        (Some (code, msg), _, s1) \<Rightarrow> (HttpError code msg, s1)
      | (None, u, s1) \<Rightarrow> (case update_password env (uID existing) inp s1 of
          (Some (code, msg), s2) \<Rightarrow> (HttpError code msg, s2)
        | (None, s2) \<Rightarrow> (case update_logins env (uID existing) (uiTailscaleUsernames inp) s2 of
            (Some (code, msg), s3) \<Rightarrow> (HttpError code msg, s3)
          | (None, s3) \<Rightarrow> (Json 200 (userToJSON u (GetTailscaleLogins (uID existing) s3)), s3))))"

definition handleAPIUpdateUser :: "server_env \<Rightarrow> Session \<Rightarrow> request \<Rightarrow> userInput option \<Rightarrow> store \<Rightarrow> userJSON reply \<times> store" where
  "handleAPIUpdateUser env sess r body s =
     (case ParseInt (URLParam ''id'' r) of
        None \<Rightarrow> (HttpError 400 ''invalid id'', s)
      | Some i \<Rightarrow> (case GetUserByID i s of
          Inl e \<Rightarrow> (HttpError 404 ''user not found'', s)
        | Inr existing \<Rightarrow>
            if uPermission existing = PermSuperuser \<and> sPermission sess \<noteq> PermSuperuser
            then (HttpError 403 ''only superusers can modify superuser accounts'', s)
            else (case body of
                None \<Rightarrow> (HttpError 400 ''invalid JSON'', s)
              | Some inp \<Rightarrow> update_account env sess existing inp s)))"

text \<open>The handler reads no session: any admin may delete any account but the last superuser.\<close>

definition handleAPIDeleteUser :: "request \<Rightarrow> store \<Rightarrow> userJSON reply \<times> store" where
  "handleAPIDeleteUser r s =
     (case ParseInt (URLParam ''id'' r) of
        None \<Rightarrow> (HttpError 400 ''invalid id'', s)
      | Some i \<Rightarrow> (case GetUserByID i s of
          Inl e \<Rightarrow> (HttpError 404 ''user not found'', s)
        | Inr existing \<Rightarrow>
            if uPermission existing = PermSuperuser \<and> CountSuperusers s \<le> 1
            then (HttpError 409 ''cannot delete the last superuser'', s)
            else (Status 204, DeleteUser i s)))"

definition handleUsersPage :: "server_env \<Rightarrow> Session option \<Rightarrow> page reply" where
  "handleUsersPage env ctx = Page 200 ''users'' (PlainPage (fillSession ctx (newPageData env)))"

section \<open>Logins\<close>

lemma add_login_inv: "distinct out \<Longrightarrow> [] \<notin> set out \<Longrightarrow> distinct (add_login p out) \<and> [] \<notin> set (add_login p out)"
  by (auto simp: add_login_def Let_def)

lemma fold_add_login_inv:
  "distinct out \<Longrightarrow> [] \<notin> set out \<Longrightarrow> distinct (fold add_login ps out) \<and> [] \<notin> set (fold add_login ps out)"
  by (induction ps arbitrary: out) (simp_all add: add_login_inv)

lemma splitLogins_distinct: "distinct (splitLogins s)" "[] \<notin> set (splitLogins s)"
  using fold_add_login_inv [of "[]" "Split s (CHR '','')"] by (simp_all add: splitLogins_def)

section \<open>The superusers\<close>

definition superusers :: "store \<Rightarrow> user list" where
  "superusers s = filter (\<lambda>u. uPermission u = PermSuperuser) (t_rows (users s))"

text \<open>No superuser has the id \<open>i\<close>: such an account can be written without touching one.\<close>

definition ordinary :: "int \<Rightarrow> store \<Rightarrow> bool" where
  "ordinary i s \<longleftrightarrow> (\<forall>u \<in> set (t_rows (users s)). uID u = i \<longrightarrow> uPermission u \<noteq> PermSuperuser)"

lemma ordinaryI:
  assumes "users_ok s" and "GetUserByID i s = Inr u" and "uPermission u \<noteq> PermSuperuser"
  shows "ordinary i s"
  using assms user_rows.ids_eqD [OF users_ok_tbl [OF assms(1)]]
  by (fastforce simp: ordinary_def dest: GetUserByID_InrD)

lemma superusers_update:
  assumes "ordinary i s" and "\<And>x. uPermission x \<noteq> PermSuperuser \<Longrightarrow> uPermission (f x) \<noteq> PermSuperuser"
    and "\<And>x. uID (f x) = uID x"
  shows "superusers (update_user i f s) = superusers s" "ordinary i (update_user i f s)"
proof -
  have "filter (\<lambda>u. uPermission u = PermSuperuser) (update_where (\<lambda>u. uID u = i) f (t_rows (users s)))
      = filter (\<lambda>u. uPermission u = PermSuperuser) (t_rows (users s))"
    by (rule filter_update_where_disjoint) (use assms in \<open>auto simp: ordinary_def\<close>)
  then show "superusers (update_user i f s) = superusers s" by (simp add: superusers_def db_simps)
  show "ordinary i (update_user i f s)"
    using assms by (auto simp: ordinary_def db_simps set_update_where split: if_splits)
qed

lemma superusers_logins: "users s' = users s \<Longrightarrow> superusers s' = superusers s"
  by (simp add: superusers_def)

lemma SetTailscaleLogins_users: "users (snd (SetTailscaleLogins i logins s)) = users s"
  by (simp add: SetTailscaleLogins_def split: option.split)

text \<open>The logins of an account are only changed by its own update.\<close>

lemma SetTailscaleLogins_other:
  assumes "j \<noteq> i"
  shows "GetTailscaleLogins j (snd (SetTailscaleLogins i logins s)) = GetTailscaleLogins j s"
proof (cases "insert_logins (uID ` set (t_rows (users s))) i logins (filter (\<lambda>l. snd l \<noteq> i) (tailscale_logins s))")
  case (Some ls)
  have "filter (\<lambda>l. snd l = j) ls = filter (\<lambda>l. snd l = j) (tailscale_logins s)"
    using insert_logins_Some [OF Some] assms by (auto simp: filter_empty_conv intro!: filter_cong)
  then show ?thesis by (simp add: SetTailscaleLogins_def GetTailscaleLogins_def Some)
qed (simp add: SetTailscaleLogins_def)

text \<open>Each part of an update, by a session that is no superuser's, leaves the superusers alone.\<close>

lemma update_permission_superusers:
  assumes "update_permission sess u inp s = (e, u', s')" and "ordinary (uID u) s"
    and "sPermission sess \<noteq> PermSuperuser"
  shows "superusers s' = superusers s \<and> ordinary (uID u) s' \<and> tailscale_logins s' = tailscale_logins s"
  using assms superusers_update [of "uID u" s]
  by (auto simp: update_permission_def UpdateUserPermission_def db_simps split: if_splits)

lemma update_password_superusers:
  assumes "update_password env i inp s = (e, s')" and "ordinary i s"
  shows "superusers s' = superusers s \<and> ordinary i s' \<and> tailscale_logins s' = tailscale_logins s"
  using assms superusers_update [of i s]
  by (auto simp: update_password_def UpdateUserPassword_def db_simps split: if_splits sum.splits)

lemma update_logins_superusers:
  assumes "update_logins env i names s = (e, s')" and "j \<noteq> i"
  shows "superusers s' = superusers s \<and> GetTailscaleLogins j s' = GetTailscaleLogins j s"
proof (cases names)
  case None
  then show ?thesis using assms by (simp add: update_logins_def)
next
  case (Some ns)
  obtain x s1 where x: "SetTailscaleLogins i (splitLogins ns) s = (x, s1)" by fastforce
  then have "s' = s1" using assms(1) Some by (auto simp: update_logins_def split: sum.splits)
  then show ?thesis
    using x SetTailscaleLogins_other [OF assms(2), of "splitLogins ns" s]
      superusers_logins [OF SetTailscaleLogins_users [of i "splitLogins ns" s]]
    by simp
qed

lemma GetTailscaleLogins_cong: "tailscale_logins s' = tailscale_logins s \<Longrightarrow> GetTailscaleLogins j s' = GetTailscaleLogins j s"
  by (simp add: GetTailscaleLogins_def)

lemma update_account_superusers:
  assumes "ordinary (uID u) s" and "sPermission sess \<noteq> PermSuperuser"
  shows "superusers (snd (update_account env sess u inp s)) = superusers s
    \<and> (\<forall>x \<in> set (superusers s). GetTailscaleLogins (uID x) (snd (update_account env sess u inp s))
          = GetTailscaleLogins (uID x) s)"
proof -
  obtain e1 u' s1 where r1: "update_permission sess u inp s = (e1, u', s1)" by (metis prod_cases3)
  obtain e2 s2 where r2: "update_password env (uID u) inp s1 = (e2, s2)" by fastforce
  obtain e3 s3 where r3: "update_logins env (uID u) (uiTailscaleUsernames inp) s2 = (e3, s3)" by fastforce
  note k1 = update_permission_superusers [OF r1 assms]
  then have k2: "superusers s2 = superusers s1 \<and> ordinary (uID u) s2 \<and> tailscale_logins s2 = tailscale_logins s1"
    using update_password_superusers [OF r2] by blast
  have k3: "superusers s3 = superusers s2 \<and> GetTailscaleLogins j s3 = GetTailscaleLogins j s2" if "j \<noteq> uID u" for j
    by (rule update_logins_superusers [OF r3 that])
  have k3s: "superusers s3 = superusers s2" using k3 [of "uID u + 1"] by simp
  have other: "uID x \<noteq> uID u" if "x \<in> set (superusers s)" for x
    using that assms(1) by (auto simp: superusers_def ordinary_def)
  have "snd (update_account env sess u inp s) \<in> {s1, s2, s3}"
    by (simp add: update_account_def r1 r2 r3 split: option.split prod.split)
  then show ?thesis
    using k1 k2 k3s k3 other by (auto simp: GetTailscaleLogins_def)
qed

lemma update_keeps_superusers:
  assumes "users_ok s" and "sPermission sess \<noteq> PermSuperuser"
  shows "superusers (snd (handleAPIUpdateUser env sess r body s)) = superusers s
    \<and> (\<forall>x \<in> set (superusers s). GetTailscaleLogins (uID x) (snd (handleAPIUpdateUser env sess r body s))
          = GetTailscaleLogins (uID x) s)"
proof -
  have run: "superusers (snd (update_account env sess u inp s)) = superusers s
    \<and> (\<forall>x \<in> set (superusers s). GetTailscaleLogins (uID x) (snd (update_account env sess u inp s))
          = GetTailscaleLogins (uID x) s)"
    if "GetUserByID i s = Inr u" "uPermission u \<noteq> PermSuperuser" for i u inp
    using update_account_superusers [OF _ assms(2)] ordinaryI [OF assms(1) that] that(1)
    by (auto dest: GetUserByID_InrD)
  show ?thesis
    using assms(2) by (auto simp: handleAPIUpdateUser_def run split: option.split sum.split)
qed

lemma create_keeps_superusers:
  assumes "sPermission sess \<noteq> PermSuperuser"
  shows "superusers (snd (handleAPICreateUser env sess body s)) = superusers s"
  using assms
  by (auto simp: handleAPICreateUser_def superusers_def split: option.split sum.split prod.split
      dest: CreateUser_InrD CreateUser_cases)

section \<open>Properties\<close>

text \<open>C3: a session that is no superuser's, an admin's say, neither makes an account a superuser nor
  changes anything of the superuser accounts by creating or updating accounts, their passwords and
  Tailscale logins included.\<close>

theorem superusers_protected:
  assumes "users_ok s" and "sPermission sess \<noteq> PermSuperuser"
  shows "superusers (snd (handleAPICreateUser env sess body s)) = superusers s
    \<and> superusers (snd (handleAPIUpdateUser env sess r body s)) = superusers s
    \<and> (\<forall>u \<in> set (superusers s). GetTailscaleLogins (uID u) (snd (handleAPIUpdateUser env sess r body s))
          = GetTailscaleLogins (uID u) s)"
  using update_keeps_superusers [OF assms] create_keeps_superusers [OF assms(2)] by blast

definition userRequest :: "string \<Rightarrow> request" where
  "userRequest i = \<lparr>rqMethod = ''PUT'', rqPath = ''/api/users/'' @ i, rqURI = ''/api/users/'' @ i, rqHost = ''yaamon'',
     rqRemoteAddr = ''10.0.0.9:4711'', rqTLS = True, rqHeader = [], rqCookies = [], rqForm = [], rqParam = [(''id'', i)]\<rparr>"

definition twoUsers :: store where
  "twoUsers = snd (CreateUser ''bob'' ''h2'' ''superuser'' (snd (CreateUser ''ann'' ''h1'' ''admin'' store_empty)))"

definition grantSuperuser :: userInput where
  "grantSuperuser = \<lparr>uiUsername = [], uiPassword = [], uiPermission = ''superuser'', uiTailscaleUsernames = Some ''bob@x''\<rparr>"

theorem superusers_protected_witness:
  "superusers (snd (handleAPIUpdateUser demoLogin (newSession 0 1 ''ann'' ''admin'' [] []) (userRequest ''1'')
      (Some grantSuperuser) twoUsers)) = superusers twoUsers
   \<and> length (superusers twoUsers) = 1"
proof -
  have ok: "users_ok twoUsers"
    using CreateUser_ok [OF CreateUser_ok [OF store_empty_ok]] by (simp add: twoUsers_def store_ok_def)
  have perm: "sPermission (newSession 0 1 ''ann'' ''admin'' [] []) \<noteq> PermSuperuser"
    by (simp add: newSession_def PermSuperuser_def)
  have "length (superusers twoUsers) = 1" by code_simp
  with superusers_protected [OF ok perm] show ?thesis by blast
qed

text \<open>C4: deleting accounts through the API never takes the last superuser away, and it removes exactly
  the account of the request with its Tailscale logins and passkeys.\<close>

theorem last_superuser_kept:
  assumes "users_ok s"
  shows "(0 < CountSuperusers (snd (handleAPIDeleteUser r s)) \<longleftrightarrow> 0 < CountSuperusers s)
    \<and> (snd (handleAPIDeleteUser r s) = s
       \<or> (\<exists>u. u \<in> set (t_rows (users s)) \<and> ParseInt (URLParam ''id'' r) = Some (uID u)
            \<and> snd (handleAPIDeleteUser r s) = DeleteUser (uID u) s))"
proof (cases "snd (handleAPIDeleteUser r s) = s")
  case False
  then obtain i u where i: "ParseInt (URLParam ''id'' r) = Some i" and u: "GetUserByID i s = Inr u"
    by (auto simp: handleAPIDeleteUser_def split: option.splits sum.splits)
  then have "uID u = i" by (auto dest: GetUserByID_InrD)
  with i u False have u: "ParseInt (URLParam ''id'' r) = Some (uID u)" "GetUserByID (uID u) s = Inr u"
    "snd (handleAPIDeleteUser r s) = DeleteUser (uID u) s"
    "uPermission u = PermSuperuser \<longrightarrow> 1 < CountSuperusers s"
    by (auto simp: handleAPIDeleteUser_def split: if_splits)
  then have "u \<in> set (t_rows (users s))" by (auto dest: GetUserByID_InrD)
  with CountSuperusers_delete [OF assms this] u show ?thesis
    by (auto simp: PermSuperuser_def split: if_splits)
qed simp

theorem last_superuser_kept_witness:
  "0 < CountSuperusers (snd (handleAPIDeleteUser (userRequest ''2'') twoUsers))"
proof -
  have ok: "users_ok twoUsers"
    using CreateUser_ok [OF CreateUser_ok [OF store_empty_ok]] by (simp add: twoUsers_def store_ok_def)
  have "0 < CountSuperusers twoUsers" by code_simp
  with last_superuser_kept [OF ok, of "userRequest ''2''"] show ?thesis by blast
qed

text \<open>
  A superuser may lower its own permission, also when it is the only one; and the delete handler
  asks no more of its caller than the route does, so that an admin can delete a superuser while
  there is another.
\<close>

lemma last_superuser_lowered:
  "CountSuperusers (snd (handleAPIUpdateUser demoLogin (newSession 0 2 ''bob'' ''superuser'' [] []) (userRequest ''2'')
      (Some \<lparr>uiUsername = [], uiPassword = [], uiPermission = ''none'', uiTailscaleUsernames = None\<rparr>) twoUsers)) = 0"
  by code_simp

lemma superuser_deleted_by_any_caller:
  "superusers (snd (handleAPIDeleteUser (userRequest ''2'') (snd (CreateUser ''eve'' ''h3'' ''superuser'' twoUsers))))
     \<noteq> superusers (snd (CreateUser ''eve'' ''h3'' ''superuser'' twoUsers))"
  by code_simp

end
