(* ===== verification/Server_Nodes.thy ===== *)
theory Server_Nodes
  imports Server_Login Ami_Manager Favorites_Ini
begin

text \<open>
  \<open>internal/server/nodes.go\<close> and the Allmon3 import of \<open>internal/server/backup.go\<close>: the node
  handlers, which write the database and start and stop AMI clients, with \<open>initAMI\<close> of
  \<open>server.go\<close>. That the running clients are those the database asks for is stated over the
  interface \<open>client_registry\<close>, which the AMI manager provides.
\<close>

record nodeJSON =
  njID :: int
  njName :: string
  njNodeNumber :: string
  njAMIHost :: string
  njAMIPort :: int
  njAMIUser :: string
  njEnabled :: bool
  njConnected :: bool
  njDescription :: string
  njLocation :: string

record nodeInput =
  niName :: string
  niNodeNumber :: string
  niAMIHost :: string
  niAMIPort :: int
  niAMIUser :: string
  niAMIPass :: string
  niEnabled :: bool
  niDescription :: string
  niLocation :: string

datatype node_answer =
    NodeList "nodeJSON list"
  | NodeOne nodeJSON
  | NodeSecret string
  | TestAnswer "string option"
  | AllmonPreview "(AllmonNode \<times> bool) list"
  | NodesAdded nat

text \<open>\<open>connected\<close> is \<open>amiMgr.IsConnected\<close>.\<close>

definition nodeToJSON :: "(int \<Rightarrow> bool) \<Rightarrow> node \<Rightarrow> nodeJSON" where
  "nodeToJSON connected n = \<lparr>njID = nID n, njName = nName n, njNodeNumber = nNodeNumber n, njAMIHost = nAMIHost n,
     njAMIPort = nAMIPort n, njAMIUser = nAMIUser n, njEnabled = nEnabled n, njConnected = connected (nID n),
     njDescription = nDescription n, njLocation = nLocation n\<rparr>"

definition initAMI :: "store \<Rightarrow> manager" where
  "initAMI s = LoadNodes (ListNodes s) NewManager"

definition handleAPIListNodes :: "(int \<Rightarrow> bool) \<Rightarrow> store \<Rightarrow> node_answer reply" where
  "handleAPIListNodes connected s = Json 200 (NodeList (map (nodeToJSON connected) (ListNodes s)))"

text \<open>The \<open>db.Node\<close> literals of the handlers.\<close>

definition node_of_input :: "int \<Rightarrow> nodeInput \<Rightarrow> node" where
  "node_of_input i inp = \<lparr>nID = i, nName = niName inp, nNodeNumber = niNodeNumber inp, nAMIHost = niAMIHost inp,
     nAMIPort = niAMIPort inp, nAMIUser = niAMIUser inp, nAMIPass = niAMIPass inp, nEnabled = niEnabled inp,
     nDescription = niDescription inp, nLocation = niLocation inp\<rparr>"

definition bad_node_number :: "node_answer reply" where
  "bad_node_number = HttpError 400 (''node_number must be 4'' @ en_dash @ ''10 digits'')"

definition create_defaults :: "nodeInput \<Rightarrow> nodeInput" where
  "create_defaults inp = inp\<lparr>niAMIUser := (if niAMIUser inp = [] then ''admin'' else niAMIUser inp),
     niAMIPort := (if niAMIPort inp = 0 then 5038 else niAMIPort inp),
     niAMIHost := (if niAMIHost inp = [] then ''localhost'' else niAMIHost inp)\<rparr>"

definition handleAPICreateNode :: "(int \<Rightarrow> bool) \<Rightarrow> nodeInput option \<Rightarrow> store \<times> manager
    \<Rightarrow> node_answer reply \<times> store \<times> manager" where
  "handleAPICreateNode connected body sm =
     (case body of
        None \<Rightarrow> (HttpError 400 ''invalid JSON'', sm)
      | Some inp \<Rightarrow>
          if niName inp = [] \<or> niNodeNumber inp = [] then (HttpError 400 ''name and node_number are required'', sm)
          else if \<not> validNodeNumber (niNodeNumber inp) then (bad_node_number, sm)
          else (case CreateNode (node_of_input 0 (create_defaults inp)) (fst sm) of
              (n, s') \<Rightarrow> (Json 201 (NodeOne (nodeToJSON connected n)), s', Add n (snd sm))))"

text \<open>Omitted fields keep the values of the row.\<close>

definition keep_existing :: "node \<Rightarrow> nodeInput \<Rightarrow> nodeInput" where
  "keep_existing n inp = inp\<lparr>niName := (if niName inp = [] then nName n else niName inp),
     niNodeNumber := (if niNodeNumber inp = [] then nNodeNumber n else niNodeNumber inp),
     niAMIHost := (if niAMIHost inp = [] then nAMIHost n else niAMIHost inp),
     niAMIPort := (if niAMIPort inp = 0 then nAMIPort n else niAMIPort inp),
     niAMIUser := (if niAMIUser inp = [] then nAMIUser n else niAMIUser inp),
     niAMIPass := (if niAMIPass inp = [] then nAMIPass n else niAMIPass inp)\<rparr>"

definition handleAPIUpdateNode :: "(int \<Rightarrow> bool) \<Rightarrow> request \<Rightarrow> nodeInput option \<Rightarrow> store \<times> manager
    \<Rightarrow> node_answer reply \<times> store \<times> manager" where
  "handleAPIUpdateNode connected r body sm =
     (case ParseInt (URLParam ''id'' r) of
        None \<Rightarrow> (HttpError 400 ''invalid id'', sm)
      | Some i \<Rightarrow> (case GetNodeByID i (fst sm) of
          Inl e \<Rightarrow> (HttpError 404 ''node not found'', sm)
        | Inr existing \<Rightarrow> (case body of
            None \<Rightarrow> (HttpError 400 ''invalid JSON'', sm)
          | Some inp0 \<Rightarrow>
              (let inp = keep_existing existing inp0 in
               if niNodeNumber inp \<noteq> nNodeNumber existing \<and> \<not> validNodeNumber (niNodeNumber inp)
               then (bad_node_number, sm)
               else let updated = node_of_input i inp
                    in (Json 200 (NodeOne (nodeToJSON connected updated)), UpdateNode updated (fst sm), Add updated (snd sm))))))"

definition handleAPINodeSecret :: "request \<Rightarrow> store \<Rightarrow> node_answer reply" where
  "handleAPINodeSecret r s =
     (case ParseInt (URLParam ''id'' r) of
        None \<Rightarrow> HttpError 400 ''invalid id''
      | Some i \<Rightarrow> (case GetNodeByID i s of
          Inl e \<Rightarrow> HttpError 404 ''node not found'' | Inr n \<Rightarrow> Json 200 (NodeSecret (nAMIPass n))))"

definition handleAPIDeleteNode :: "request \<Rightarrow> store \<times> manager \<Rightarrow> node_answer reply \<times> store \<times> manager" where
  "handleAPIDeleteNode r sm =
     (case ParseInt (URLParam ''id'' r) of
        None \<Rightarrow> (HttpError 400 ''invalid id'', sm)
      | Some i \<Rightarrow> (Status 204, DeleteNode i (fst sm), Remove i (snd sm)))"

text \<open>\<open>test\<close> is \<open>ami.TestConnection\<close> on the settings of the node: the text of its error.\<close>

definition handleAPITestNode :: "(node \<Rightarrow> string option) \<Rightarrow> request \<Rightarrow> store \<Rightarrow> node_answer reply" where
  "handleAPITestNode test r s =
     (case ParseInt (URLParam ''id'' r) of
        None \<Rightarrow> HttpError 400 ''invalid id''
      | Some i \<Rightarrow> (case GetNodeByID i s of
          Inl e \<Rightarrow> HttpError 404 ''node not found'' | Inr n \<Rightarrow> Json 200 (TestAnswer (test n))))"

definition handleNodesPage :: "server_env \<Rightarrow> Session option \<Rightarrow> page reply" where
  "handleNodesPage env ctx = Page 200 ''nodes'' (PlainPage (fillSession ctx (newPageData env)))"

section \<open>Importing allmon3.ini\<close>

definition importMaxBytes :: nat where "importMaxBytes = 2 ^ 20"

definition handleAPIImportAllmon3Preview :: "string \<Rightarrow> store \<Rightarrow> node_answer reply" where
  "handleAPIImportAllmon3Preview data s =
     (if importMaxBytes < length data then HttpError 400 ''read error''
      else (case ParseAllmon3INI data of
          (ns, tooLong) \<Rightarrow>
            if tooLong then HttpError 400 ''parse error: bufio.Scanner: token too long''
            else if ns = [] then HttpError 400 ''no nodes found in file''
            else Json 200 (AllmonPreview (map (\<lambda>n. (n, case GetNodeByNumber (anNodeNumber n) s of Inl _ \<Rightarrow> False | Inr _ \<Rightarrow> True)) ns))))"

definition node_of_allmon :: "AllmonNode \<Rightarrow> node" where
  "node_of_allmon a = \<lparr>nID = 0, nName = anNodeNumber a, nNodeNumber = anNodeNumber a,
     nAMIHost = (if anAMIHost a = [] then ''localhost'' else anAMIHost a),
     nAMIPort = (if anAMIPort a = 0 then 5038 else anAMIPort a),
     nAMIUser = anAMIUser a, nAMIPass = anAMIPass a, nEnabled = True, nDescription = [], nLocation = []\<rparr>"

definition import_one :: "AllmonNode \<Rightarrow> store \<times> manager \<Rightarrow> store \<times> manager" where
  "import_one a sm = (case CreateNode (node_of_allmon a) (fst sm) of (n, s') \<Rightarrow> (s', Add n (snd sm)))"

definition handleAPIImportAllmon3 :: "AllmonNode list option \<Rightarrow> store \<times> manager \<Rightarrow> node_answer reply \<times> store \<times> manager" where
  "handleAPIImportAllmon3 body sm =
     (case body of
        None \<Rightarrow> (HttpError 400 ''invalid JSON'', sm)
      | Some ns \<Rightarrow> (Json 200 (NodesAdded (length ns)), fold import_one ns sm))"

section \<open>The clients the database asks for\<close>

text \<open>The connection of a node: its settings when it is there and enabled.\<close>

definition wanted :: "store \<Rightarrow> int \<Rightarrow> ami_conf option" where
  "wanted s i = (case GetNodeByID i s of Inl e \<Rightarrow> None | Inr n \<Rightarrow> if nEnabled n then Some (conf_of n) else None)"

text \<open>What the handlers rely on: a registry of clients keyed by node id, in which adding a node puts
  the client of its settings, or none, in place of what was there.\<close>

locale client_registry =
  fixes inv :: "'m \<Rightarrow> bool" and conf :: "'m \<Rightarrow> int \<Rightarrow> ami_conf option"
    and empty :: 'm and add :: "node \<Rightarrow> 'm \<Rightarrow> 'm" and remove :: "int \<Rightarrow> 'm \<Rightarrow> 'm"
  assumes inv_empty: "inv empty" and conf_empty: "conf empty i = None"
    and inv_add: "inv m \<Longrightarrow> inv (add n m)" and inv_remove: "inv m \<Longrightarrow> inv (remove i m)"
    and conf_add: "inv m \<Longrightarrow> conf (add n m) i =
      (if i = nID n then if nEnabled n then Some (conf_of n) else None else conf m i)"
    and conf_remove: "inv m \<Longrightarrow> conf (remove j m) i = (if i = j then None else conf m i)"
begin

lemma agree_add:
  assumes "inv m" and "\<And>i. wanted s' i = (if i = nID n then if nEnabled n then Some (conf_of n) else None else wanted s i)"
    and "conf m = wanted s"
  shows "inv (add n m) \<and> conf (add n m) = wanted s'"
  using assms by (auto simp: inv_add conf_add)

lemma agree_remove:
  assumes "inv m" and "\<And>i. wanted s' i = (if i = j then None else wanted s i)" and "conf m = wanted s"
  shows "inv (remove j m) \<and> conf (remove j m) = wanted s'"
  using assms by (auto simp: inv_remove conf_remove)

text \<open>Adding the enabled nodes of a list with distinct ids.\<close>

lemma load_nodes:
  assumes "distinct (map nID ns)" and "inv m"
  shows "inv (fold (\<lambda>n m. if nEnabled n then add n m else m) ns m)
    \<and> conf (fold (\<lambda>n m. if nEnabled n then add n m else m) ns m) i =
      (case find (\<lambda>n. nID n = i) ns of
         Some n \<Rightarrow> if nEnabled n then Some (conf_of n) else conf m i | None \<Rightarrow> conf m i)"
  using assms
proof (induction ns arbitrary: m)
  case (Cons n ns)
  have "find (\<lambda>x. nID x = i) ns = None" if "nID n = i"
    using Cons.prems(1) that by (auto simp: find_None_iff image_iff)
  then show ?case
    using Cons by (auto simp: inv_add conf_add split: option.split)
qed simp

end

definition client_conf :: "manager \<Rightarrow> int \<Rightarrow> ami_conf option" where
  "client_conf m i = map_option (\<lambda>h. mgHandles m ! h) (map_of (mgClients m) i)"

lemma client_conf_stop:
  "client_conf (stop_client j m) i = (if i = j then None else client_conf m i)"
  by (simp add: client_conf_def stop_client_def map_of_kv_delete split: option.split)

lemma client_conf_add:
  assumes "manager_inv m"
  shows "client_conf (Add n m) i =
    (if i = nID n then if nEnabled n then Some (conf_of n) else None else client_conf m i)"
proof (cases "nEnabled n")
  case True
  note s = stop_client_inv [OF assms, of "nID n"]
  have bound: "h < length (mgHandles m)" if "map_of (mgClients (stop_client (nID n) m)) j = Some h" for j h
    using manager_invD(7) [OF s(1) map_of_SomeD [OF that]] s(3) by simp
  then have "client_conf (Add n m) i = client_conf (stop_client (nID n) m) i" if "i \<noteq> nID n"
    using that s(3) by (auto simp: client_conf_def Add_enabled [OF assms True] nth_append
        split: option.split intro!: option.map_cong0)
  then show ?thesis
    using True by (simp add: client_conf_stop) (simp add: client_conf_def Add_enabled [OF assms True])
next
  case False
  then show ?thesis by (simp add: Add_def Let_def client_conf_stop)
qed

interpretation ami: client_registry manager_inv client_conf NewManager Add Remove
  by unfold_locales
    (simp_all add: Add_inv Remove_def stop_client_inv client_conf_add client_conf_stop manager_reach_inv manager_reach.new,
     simp add: client_conf_def NewManager_def)

section \<open>What the operations of the database ask for\<close>

lemma GetNodeByID_cases: "GetNodeByID i s = (case find (\<lambda>n. nID n = i) (t_rows (nodes s)) of None \<Rightarrow> Inl ErrNotFound | Some n \<Rightarrow> Inr n)"
  by (simp add: GetNodeByID_def tbl_find_def)

lemma wanted_find: "wanted s i = (case find (\<lambda>n. nID n = i) (t_rows (nodes s)) of
    None \<Rightarrow> None | Some n \<Rightarrow> if nEnabled n then Some (conf_of n) else None)"
  by (simp add: wanted_def GetNodeByID_cases split: option.split)

lemma wanted_create:
  assumes "store_ok s"
  shows "wanted (snd (CreateNode n s)) i =
    (if i = nID (fst (CreateNode n s))
     then if nEnabled (fst (CreateNode n s)) then Some (conf_of (fst (CreateNode n s))) else None else wanted s i)"
proof -
  have "find (\<lambda>x. nID x = t_seq (nodes s) + 1) (t_rows (nodes s)) = None"
    using assms by (auto simp: find_None_iff store_ok_defs tbl_inv_def)
  then show ?thesis
    by (auto simp: wanted_find db_simps find_append) (simp_all add: CreateNode_eq split: option.split)
qed

lemma wanted_update:
  assumes "GetNodeByID (nID n) s = Inr e"
  shows "wanted (UpdateNode n s) i = (if i = nID n then if nEnabled n then Some (conf_of n) else None else wanted s i)"
proof -
  have "find (\<lambda>x. nID x = i) (t_rows (nodes (UpdateNode n s)))
      = map_option (\<lambda>r. if nID r = nID n then n else r) (find (\<lambda>x. nID x = i) (t_rows (nodes s)))"
    by (simp add: UpdateNode_def find_update_where) (rule option.map_cong0, simp)
  moreover have "find (\<lambda>x. nID x = nID n) (t_rows (nodes s)) = Some e"
    using assms by (simp add: GetNodeByID_cases split: option.splits)
  ultimately show ?thesis
    by (auto simp: wanted_find split: option.split dest: find_SomeD)
qed

lemma wanted_delete: "wanted (DeleteNode j s) i = (if i = j then None else wanted s i)"
proof -
  have "find (\<lambda>n. nID n = i) (filter (\<lambda>n. nID n \<noteq> j) (t_rows (nodes s)))
      = (if i = j then None else find (\<lambda>n. nID n = i) (t_rows (nodes s)))"
    by (auto simp: find_filter find_None_iff intro: find_cong_set)
  then show ?thesis by (simp add: wanted_find DeleteNode_def split: option.split)
qed

section \<open>Clients and database agree\<close>

definition in_step :: "store \<times> manager \<Rightarrow> bool" where
  "in_step sm \<longleftrightarrow> store_ok (fst sm) \<and> manager_inv (snd sm) \<and> client_conf (snd sm) = wanted (fst sm)"

lemma initAMI_in_step:
  assumes "store_ok s"
  shows "in_step (s, initAMI s)"
proof -
  have dist: "distinct (map nID (ListNodes s))"
    using assms by (simp add: ListNodes_def store_ok_defs tbl_inv_def distinct_map)
  have "find (\<lambda>n. nID n = i) (ListNodes s) = find (\<lambda>n. nID n = i) (t_rows (nodes s))" for i
  proof (cases "find (\<lambda>n. nID n = i) (ListNodes s)")
    case None
    then have "find (\<lambda>n. nID n = i) (t_rows (nodes s)) = None" by (simp add: find_None_iff)
    then show ?thesis using None by simp
  next
    case (Some n)
    then have "n \<in> set (t_rows (nodes s))" "nID n = i" by (auto dest: find_SomeD)
    then show ?thesis using GetNodeByID_iff [OF assms, of i n] Some
      by (auto simp: GetNodeByID_cases split: option.splits)
  qed
  then have "client_conf (initAMI s) i = wanted s i" for i
    using ami.load_nodes [OF dist ami.inv_empty, of i]
    by (simp add: initAMI_def LoadNodes_def wanted_find ami.conf_empty split: option.split)
  then show ?thesis
    using assms ami.inv_empty by (auto simp: in_step_def initAMI_def LoadNodes_inv)
qed

lemma create_in_step:
  assumes "in_step (s, m)"
  shows "in_step (case CreateNode n s of (n', s') \<Rightarrow> (s', Add n' m))"
proof -
  from assms have ok: "store_ok s" "manager_inv m" "client_conf m = wanted s" by (simp_all add: in_step_def)
  obtain n' s' where c: "CreateNode n s = (n', s')" by fastforce
  show ?thesis
    using ami.agree_add [OF ok(2) wanted_create [OF ok(1)] ok(3), of n] CreateNode_ok [OF ok(1), of n]
    by (simp add: c in_step_def)
qed

lemma import_in_step: "in_step sm \<Longrightarrow> in_step (fold import_one ns sm)"
proof (induction ns arbitrary: sm)
  case (Cons a ns)
  have "in_step (import_one a sm)"
    using create_in_step [of "fst sm" "snd sm"] Cons.prems by (simp add: import_one_def)
  then show ?case by (simp add: Cons.IH)
qed simp

lemma update_in_step:
  assumes "in_step (s, m)" and "GetNodeByID (nID n) s = Inr e"
  shows "in_step (UpdateNode n s, Add n m)"
proof -
  from assms(1) have ok: "store_ok s" "manager_inv m" "client_conf m = wanted s" by (simp_all add: in_step_def)
  show ?thesis
    using ami.agree_add [OF ok(2) wanted_update [OF assms(2)] ok(3)] UpdateNode_ok [OF ok(1)]
    by (simp add: in_step_def)
qed

lemma delete_in_step:
  assumes "in_step (s, m)"
  shows "in_step (DeleteNode i s, Remove i m)"
proof -
  from assms have ok: "store_ok s" "manager_inv m" "client_conf m = wanted s" by (simp_all add: in_step_def)
  show ?thesis
    using ami.agree_remove [OF ok(2) wanted_delete ok(3)] DeleteNode_ok [OF ok(1)] by (simp add: in_step_def)
qed

lemma node_of_input_id [simp]: "nID (node_of_input i inp) = i"
  by (simp add: node_of_input_def)

lemma node_handlers_in_step:
  assumes "in_step sm"
  shows "in_step (snd (handleAPICreateNode connected body sm))"
    "in_step (snd (handleAPIUpdateNode connected r body sm))"
    "in_step (snd (handleAPIDeleteNode r sm))"
    "in_step (snd (handleAPIImportAllmon3 ns sm))"
proof -
  obtain s m where sm: "sm = (s, m)" by fastforce
  note step = assms [unfolded sm]
  show "in_step (snd (handleAPICreateNode connected body sm))"
  proof (cases body)
    case (Some inp)
    then show ?thesis
      using create_in_step [OF step, of "node_of_input 0 (create_defaults inp)"]
      by (cases "CreateNode (node_of_input 0 (create_defaults inp)) s") (simp add: handleAPICreateNode_def sm step)
  qed (simp add: handleAPICreateNode_def step sm)
  show "in_step (snd (handleAPIUpdateNode connected r body sm))"
    using update_in_step [OF step] by (auto simp: handleAPIUpdateNode_def Let_def sm step split: option.split sum.split)
  show "in_step (snd (handleAPIDeleteNode r sm))"
    using delete_in_step [OF step] by (simp add: handleAPIDeleteNode_def sm step split: option.split)
  show "in_step (snd (handleAPIImportAllmon3 ns sm))"
    using import_in_step [OF step] by (simp add: handleAPIImportAllmon3_def sm step split: option.split)
qed

text \<open>The server's life: it starts on a database and serves node requests in any order.\<close>

inductive node_run :: "store \<times> manager \<Rightarrow> bool" where
  start: "store_ok s \<Longrightarrow> node_run (s, initAMI s)"
| create: "node_run sm \<Longrightarrow> node_run (snd (handleAPICreateNode connected body sm))"
| update: "node_run sm \<Longrightarrow> node_run (snd (handleAPIUpdateNode connected r body sm))"
| delete: "node_run sm \<Longrightarrow> node_run (snd (handleAPIDeleteNode r sm))"
| import_nodes: "node_run sm \<Longrightarrow> node_run (snd (handleAPIImportAllmon3 ns sm))"

lemma node_run_in_step: "node_run sm \<Longrightarrow> in_step sm"
  by (induction rule: node_run.induct) (simp_all add: initAMI_in_step node_handlers_in_step)

text \<open>C2: from its start on and through any sequence of node requests, the server has an AMI client
  exactly for the enabled nodes of its database, each with the host, port and credentials the
  database holds now: the manager refines the table of nodes.\<close>

theorem clients_follow_database:
  assumes "node_run (s, m)"
  shows "map_option (\<lambda>h. mgHandles m ! h) (map_of (mgClients m) i) =
    (case GetNodeByID i s of
       Inr n \<Rightarrow> if nEnabled n then Some (conf_of n) else None
     | Inl _ \<Rightarrow> None)"
proof -
  have "client_conf m i = wanted s i" using node_run_in_step [OF assms] by (simp add: in_step_def)
  then show ?thesis by (simp add: client_conf_def wanted_def split: sum.splits)
qed

definition hubInput :: nodeInput where
  "hubInput = \<lparr>niName = ''hub'', niNodeNumber = ''2000'', niAMIHost = [], niAMIPort = 0, niAMIUser = [],
     niAMIPass = ''pw'', niEnabled = True, niDescription = [], niLocation = []\<rparr>"

theorem clients_follow_database_witness:
  "map_option (\<lambda>h. mgHandles (snd (snd (handleAPICreateNode (\<lambda>i. False) (Some hubInput) (store_empty, initAMI store_empty)))) ! h)
     (map_of (mgClients (snd (snd (handleAPICreateNode (\<lambda>i. False) (Some hubInput) (store_empty, initAMI store_empty))))) 1)
   = Some (conf_of (node_of_input 1 (create_defaults hubInput)))"
proof -
  let ?sm = "snd (handleAPICreateNode (\<lambda>i. False) (Some hubInput) (store_empty, initAMI store_empty))"
  have "node_run ?sm" by (intro node_run.create node_run.start store_empty_ok)
  then have run: "node_run (fst ?sm, snd ?sm)" by simp
  have "GetNodeByID 1 (fst ?sm) = Inr (node_of_input 1 (create_defaults hubInput))" by code_simp
  moreover have "nEnabled (node_of_input 1 (create_defaults hubInput))" by code_simp
  ultimately show ?thesis using clients_follow_database [OF run, of 1] by simp
qed

text \<open>An import does not look whether a node is there: importing a file twice doubles its nodes.\<close>

lemma import_doubles:
  "length (t_rows (nodes (fst (fold import_one (replicate 2 \<lparr>anNodeNumber = ''2000'', anAMIHost = [], anAMIPort = 0,
      anAMIUser = [], anAMIPass = []\<rparr>) (store_empty, NewManager))))) = 2"
  by code_simp

end
