(* ===== verification/Server_Listen.thy ===== *)
theory Server_Listen
  imports Server_Config Http
begin

text \<open>
  \<open>internal/tls/server.go\<close>, \<open>listenAndServe\<close> of \<open>internal/server/server.go\<close> and the two header
  middlewares of \<open>security.go\<close>: which listeners a configuration starts, with which certificates, and
  what each puts in front of the application's handler.
\<close>

section \<open>Certificates\<close>

text \<open>
  Certificates are opaque: \<open>load\<close> reads a key pair and \<open>generate\<close> is \<open>generateSelfSigned\<close>, both
  \<open>None\<close> when they fail. For \<open>acme\<close> the certificate comes from a directory cache for one domain.
\<close>

datatype tls_error = LoadCertificate string string | SelfSignedFailed | UnknownTLSMode string

datatype 'c tls_conf = Certificates "'c list" | Autocert string string

definition NewTLSConfig :: "(string \<Rightarrow> string \<Rightarrow> 'c option) \<Rightarrow> 'c option \<Rightarrow> TLSConfig \<Rightarrow> tls_error + 'c tls_conf option" where
  "NewTLSConfig load generate cfg =
     (if tlMode cfg = ''disabled'' then Inr None
      else if tlMode cfg = ''provided'' then
        (case load (tlCertFile cfg) (tlKeyFile cfg) of
           None \<Rightarrow> Inl (LoadCertificate (tlCertFile cfg) (tlKeyFile cfg))
         | Some cert \<Rightarrow> Inr (Some (Certificates [cert])))
      else if tlMode cfg = ''self_signed'' then
        (case generate of None \<Rightarrow> Inl SelfSignedFailed | Some cert \<Rightarrow> Inr (Some (Certificates [cert])))
      else if tlMode cfg = ''acme'' then Inr (Some (Autocert (tlACMECacheDir cfg) (tlACMEDomain cfg)))
      else Inl (UnknownTLSMode (tlMode cfg)))"

text \<open>
  The self-signed certificate; times are Unix seconds. \<open>'k\<close> is an ECDSA P-256 key, and the functions of the
  cryptographic packages are fields of a parameter, \<open>None\<close> when they fail.
\<close>

record cert_template =
  ctSerialNumber :: int
  ctCommonName :: string
  ctNotBefore :: int
  ctNotAfter :: int
  ctIPAddresses :: "string list"
  ctDNSNames :: "string list"

definition selfSignedTemplate :: "int \<Rightarrow> cert_template" where
  "selfSignedTemplate now = \<lparr>ctSerialNumber = 1, ctCommonName = ''yaamon'', ctNotBefore = now - 60,
     ctNotAfter = now + 365 * 24 * 3600, ctIPAddresses = [''127.0.0.1'', ''::1''], ctDNSNames = [''localhost'']\<rparr>"

text \<open>\<open>clCreate\<close> has the template, the parent and the key; \<open>clPEM\<close> a block's type and bytes.\<close>

record ('k, 'c) cert_lib =
  clGenerateKey :: "'k option"
  clCreate :: "cert_template \<Rightarrow> cert_template \<Rightarrow> 'k \<Rightarrow> string option"
  clMarshalKey :: "'k \<Rightarrow> string option"
  clPEM :: "string \<Rightarrow> string \<Rightarrow> string"
  clKeyPair :: "string \<Rightarrow> string \<Rightarrow> 'c option"

definition generateSelfSigned :: "('k, 'c) cert_lib \<Rightarrow> int \<Rightarrow> 'c option" where
  "generateSelfSigned lib now =
     (case clGenerateKey lib of
        None \<Rightarrow> None
      | Some key \<Rightarrow> (case clCreate lib (selfSignedTemplate now) (selfSignedTemplate now) key of
          None \<Rightarrow> None
        | Some certDER \<Rightarrow> (case clMarshalKey lib key of
            None \<Rightarrow> None
          | Some keyDER \<Rightarrow> clKeyPair lib (clPEM lib ''CERTIFICATE'' certDER) (clPEM lib ''EC PRIVATE KEY'' keyDER))))"

section \<open>Handlers in front of the application\<close>

text \<open>A handler as what it makes of the response headers set before it.\<close>

type_synonym headers = "(string \<times> string) list"
type_synonym handler = "request \<Rightarrow> headers \<Rightarrow> headers"

definition hstsMiddleware :: "handler \<Rightarrow> handler" where
  "hstsMiddleware next r h =
     next r (kv_upsert ''Strict-Transport-Security'' ''max-age=63072000; includeSubDomains'' h)"

text \<open>\<open>quic\<close> is \<open>SetQUICHeaders\<close> of the HTTP/3 server.\<close>

definition altSvcMiddleware :: "(headers \<Rightarrow> headers) \<Rightarrow> handler \<Rightarrow> handler" where
  "altSvcMiddleware quic next r h = next r (quic h)"

definition RedirectHandler :: "int \<Rightarrow> request \<Rightarrow> 'a reply" where
  "RedirectHandler httpsPort r =
     (let host = (case SplitHostPort (rqHost r) of None \<Rightarrow> rqHost r | Some (host, port) \<Rightarrow> host)
      in HttpRedirect 301 (''https://'' @ host @
           (if httpsPort \<noteq> 443 then '':'' @ FormatInt httpsPort else []) @ rqURI r))"

section \<open>Listeners\<close>

definition listen_addr :: "string \<Rightarrow> int \<Rightarrow> string" where
  "listen_addr bindAddr port = bindAddr @ '':'' @ FormatInt port"

text \<open>
  What a server listens on: the address and handler of the main listener, its certificates, the
  HTTP/3 listener, and the plain listener that redirects to a port.
\<close>

record 'c listeners =
  lsAddr :: string
  lsHandler :: handler
  lsTLS :: "'c tls_conf option"
  lsQUIC :: "(string \<times> handler) option"
  lsRedirect :: "(string \<times> int) option"

datatype start_error = UnsafePlaintext plaintext_error | TLSFailed tls_error

definition listenAndServe :: "net_env \<Rightarrow> (string \<Rightarrow> string \<Rightarrow> 'c option) \<Rightarrow> 'c option \<Rightarrow> (headers \<Rightarrow> headers)
    \<Rightarrow> Config \<Rightarrow> handler \<Rightarrow> start_error + 'c listeners" where
  "listenAndServe env load generate quic cfg handler =
     (case checkPlaintextSafety env cfg of
        Some e \<Rightarrow> Inl (UnsafePlaintext e)
      | None \<Rightarrow> (case NewTLSConfig load generate (cfTLS cfg) of
          Inl e \<Rightarrow> Inl (TLSFailed e)
        | Inr (Some tls) \<Rightarrow>
            (let bind_addr = scBindAddress (cfServer cfg);
                 httpsAddr = listen_addr bind_addr (scHTTPSPort (cfServer cfg));
                 https = hstsMiddleware handler
             in Inr \<lparr>lsAddr = bind_addr @ httpsAddr,
                  lsHandler = (if scQUIC (cfServer cfg) then altSvcMiddleware quic https else https),
                  lsTLS = Some tls,
                  lsQUIC = (if scQUIC (cfServer cfg) then Some (httpsAddr, https) else None),
                  lsRedirect = (if scRedirectHTTP (cfServer cfg)
                    then Some (listen_addr bind_addr (scHTTPPort (cfServer cfg)), scHTTPSPort (cfServer cfg))
                    else None)\<rparr>)
        | Inr None \<Rightarrow>
            Inr \<lparr>lsAddr = listen_addr (scBindAddress (cfServer cfg)) (scHTTPPort (cfServer cfg)),
              lsHandler = handler, lsTLS = None, lsQUIC = None, lsRedirect = None\<rparr>))"

section \<open>What is in front of the application\<close>

lemma NewTLSConfig_None: "NewTLSConfig load generate c = Inr None \<longleftrightarrow> tlMode c = ''disabled''"
  by (auto simp: NewTLSConfig_def split: option.splits)

lemma validated_mode_known:
  "validate cfg = None \<Longrightarrow> NewTLSConfig load generate (cfTLS cfg) \<noteq> Inl (UnknownTLSMode m)"
  by (auto simp: validate_def NewTLSConfig_def tls_modes_def Let_def split: if_splits option.splits)

text \<open>A handler keeps a header when it leaves the ones it does not know alone.\<close>

definition hsts_set :: "headers \<Rightarrow> bool" where
  "hsts_set h \<longleftrightarrow> map_of h ''Strict-Transport-Security'' = Some ''max-age=63072000; includeSubDomains''"

lemma hsts_kept:
  assumes "\<And>r h. hsts_set h \<Longrightarrow> hsts_set (handler r h)"
  shows "hsts_set (hstsMiddleware handler r h)" and "hsts_set (altSvcMiddleware quic (hstsMiddleware handler) r h)"
  using assms by (simp_all add: hstsMiddleware_def altSvcMiddleware_def hsts_set_def)

text \<open>C23: a server that starts serves either plain HTTP alone, where the configuration has no TLS and
  passed the check of its addresses, or HTTPS, where every answer of the TCP and of the HTTP/3
  listener carries the HSTS header (unless the application removes it), and the only plain listener
  is the one that redirects to the HTTPS port.\<close>

theorem listeners_safe:
  assumes "listenAndServe env load generate quic cfg handler = Inr ls"
    and "\<forall>r h. hsts_set h \<longrightarrow> hsts_set (handler r h)"
  shows "if lsTLS ls = None
    then tlMode (cfTLS cfg) = ''disabled'' \<and> checkPlaintextSafety env cfg = None
      \<and> lsQUIC ls = None \<and> lsRedirect ls = None
    else tlMode (cfTLS cfg) \<noteq> ''disabled'' \<and> hsts_set (lsHandler ls r h)
      \<and> (case lsQUIC ls of None \<Rightarrow> True | Some (addr, q) \<Rightarrow> hsts_set (q r h))
      \<and> (case lsRedirect ls of None \<Rightarrow> True | Some (addr, port) \<Rightarrow> port = scHTTPSPort (cfServer cfg))"
proof -
  from assms(2) have keep: "\<And>r h. hsts_set h \<Longrightarrow> hsts_set (handler r h)" by blast
  show ?thesis
  proof (cases "NewTLSConfig load generate (cfTLS cfg) = Inr None")
    case True
    then have "tlMode (cfTLS cfg) = ''disabled''" by (simp add: NewTLSConfig_None)
    moreover have "checkPlaintextSafety env cfg = None" "lsTLS ls = None" "lsQUIC ls = None" "lsRedirect ls = None"
      using assms(1) True by (auto simp: listenAndServe_def split: option.splits)
    ultimately show ?thesis by simp
  next
    case False
    then show ?thesis
      using assms(1) hsts_kept [of handler, OF keep]
      by (auto simp: listenAndServe_def NewTLSConfig_None Let_def split: option.splits sum.splits if_splits)
  qed
qed

text \<open>The defaults with a certificate: HTTPS on 443, HTTP/3 beside it, a redirect on 8080.\<close>

definition demoTLS :: Config where
  "demoTLS = default_config\<lparr>cfTLS := (cfTLS default_config)\<lparr>tlMode := ''self_signed''\<rparr>\<rparr>"

definition demoGet :: request where
  "demoGet = \<lparr>rqMethod = ''GET'', rqPath = ''/'', rqURI = ''/'', rqHost = ''[::1]:8080'', rqRemoteAddr = [], rqTLS = False,
     rqHeader = [], rqCookies = [], rqForm = [], rqParam = []\<rparr>"

theorem listeners_safe_witness:
  "lsTLS (projr (listenAndServe \<lparr>neInterfaces = None, neParseIP = \<lambda>a. None, neLookupHost = \<lambda>a. None\<rparr>
       (\<lambda>c k. None) (Some True) id demoTLS (\<lambda>r h. h))) = Some (Certificates [True])
   \<and> hsts_set (lsHandler (projr (listenAndServe \<lparr>neInterfaces = None, neParseIP = \<lambda>a. None, neLookupHost = \<lambda>a. None\<rparr>
       (\<lambda>c k. None) (Some True) id demoTLS (\<lambda>r h. h))) demoGet [])"
proof -
  let ?l = "listenAndServe \<lparr>neInterfaces = None, neParseIP = \<lambda>a. None, neLookupHost = \<lambda>a. None\<rparr>
       (\<lambda>c k. None) (Some True) id demoTLS (\<lambda>r h. h)"
  have run: "?l = Inr (projr ?l)" and tls: "lsTLS (projr ?l) = Some (Certificates [True])"
    by (simp_all add: listenAndServe_def demoTLS_def default_config_def checkPlaintextSafety_def NewTLSConfig_def Let_def)
  show ?thesis using listeners_safe [OF run, of demoGet "[]"] tls by simp
qed

lemma digits443: "FormatInt 443 = ''443''" by code_simp

text \<open>
  A bind address is part of the address of the TLS listener twice; without TLS, and for HTTP/3, once.
\<close>

lemma https_address_doubled:
  "lsAddr (projr (listenAndServe env load (Some True) quic
      (demoTLS\<lparr>cfServer := (cfServer default_config)\<lparr>scBindAddress := ''127.0.0.1''\<rparr>\<rparr>) handler)) = ''127.0.0.1127.0.0.1:443''"
  "map_option fst (lsQUIC (projr (listenAndServe env load (Some True) quic
      (demoTLS\<lparr>cfServer := (cfServer default_config)\<lparr>scBindAddress := ''127.0.0.1''\<rparr>\<rparr>) handler))) = Some ''127.0.0.1:443''"
  by (simp_all add: listenAndServe_def demoTLS_def default_config_def checkPlaintextSafety_def NewTLSConfig_def Let_def
      listen_addr_def digits443)

text \<open>The redirect of a request to an IPv6 literal loses the brackets of the host.\<close>

lemma redirect_drops_brackets: "RedirectHandler 443 demoGet = (HttpRedirect 301 ''https://::1/'' :: unit reply)"
  by code_simp

end
