(* ===== verification/Ami_Calls.thy ===== *)
theory Ami_Calls
  imports Ami_Props Ami_Manager
begin

text \<open>
  Whole calls to an AMI server: \<open>SendActionWait\<close> of the client and of the manager, put together of the
  atomic parts of \<open>Ami_Client\<close>, and \<open>TestConnection\<close> (\<open>internal/ami/client.go\<close>, \<open>manager.go\<close>), with
  the answers a caller is given.
\<close>

section \<open>Sending and waiting\<close>

text \<open>
  \<open>others\<close> is what the read loop and other callers do to the client between the registration and the
  end of the wait. The result has the bytes written, the answer and the client afterwards; a caller
  whose channel is still empty has waited until the timeout.
\<close>

definition SendActionWait :: "int \<Rightarrow> bool \<Rightarrow> (client \<Rightarrow> client) \<Rightarrow> headers \<Rightarrow> client
    \<Rightarrow> string \<times> (ami_error + headers) \<times> client" where
  "SendActionWait nano written others h c =
     (let actionID = ''ya-'' @ FormatInt nano in
      if \<not> clConn c then ([], Inl NotConnected, c)
      else let c1 = others (wait_register actionID c) in
        if \<not> written then ([], Inl WriteError, wait_remove actionID c1)
        else (writeAction (kv_upsert ''ActionID'' actionID h),
          (case wait_take actionID c1 of Some r \<Rightarrow> r | None \<Rightarrow> Inl Timeout), wait_remove actionID c1))"

text \<open>\<open>wait\<close> is \<open>SendActionWait\<close> of a client, given by its handle; \<open>None\<close>: the node has no client.\<close>

definition MgrSendActionWait :: "(nat \<Rightarrow> headers \<Rightarrow> 'r) \<Rightarrow> int \<Rightarrow> headers \<Rightarrow> manager \<Rightarrow> 'r option" where
  "MgrSendActionWait wait nodeID h m =
     (case map_of (mgClients m) nodeID of None \<Rightarrow> None | Some i \<Rightarrow> Some (wait i h))"

lemma wait_removed: "map_of (clPending (wait_remove a c)) a = None"
  by (auto simp: wait_remove_def map_of_eq_None_iff)

text \<open>However the call ends, it leaves no entry behind for a late response.\<close>

lemma SendActionWait_leaves_nothing:
  assumes "SendActionWait nano written others h c = (out, r, c')" and "clConn c"
  shows "map_of (clPending c') (''ya-'' @ FormatInt nano) = None"
  using assms wait_removed by (auto simp: SendActionWait_def Let_def split: if_splits)

text \<open>The reply to the action, read by the read loop while the caller waits, is what the caller is given.\<close>

lemma SendActionWait_answered:
  assumes "list_all header_ok reply" and "distinct (map fst reply)" and "reply \<noteq> []"
    and "hget ''ActionID'' reply = ''ya-'' @ FormatInt nano" and "clConn c"
  shows "\<exists>out evt c'. map_of evt = map_of reply
    \<and> SendActionWait nano True (\<lambda>c. snd (snd (readLoop (ReadLines (writeAction reply)) [] c))) h c
      = (out, if hget ''Response'' reply = ''Error'' then Inl (AmiError (hget ''Message'' reply)) else Inr evt, c')"
proof -
  let ?id = "''ya-'' @ FormatInt nano" and ?evt = "action_first reply"
  have get: "hget k ?evt = hget k reply" for k by (simp add: hget_def map_of_action_first)
  let ?c1 = "wait_register ?id c"
  have entry: "map_of (clPending ?c1) ?id = Some []"
    using assms(5) by (simp add: wait_register_def map_of_kv_upsert)
  have "readLoop (ReadLines (writeAction reply)) [] ?c1
      = (None, [], ?c1\<lparr>clPending := kv_upsert ?id [?evt] (clPending ?c1)\<rparr>)"
    using read_block [OF assms(1-3), of "[]" ?c1] entry
    by (simp add: dispatch_def Let_def get assms(4) try_send_def)
  then have "wait_take ?id (snd (snd (readLoop (ReadLines (writeAction reply)) [] ?c1)))
      = Some (if hget ''Response'' reply = ''Error'' then Inl (AmiError (hget ''Message'' reply)) else Inr ?evt)"
    by (simp add: wait_take_def map_of_kv_upsert get)
  then show ?thesis
    using assms(5) map_of_action_first [of reply] by (auto simp: SendActionWait_def Let_def)
qed

section \<open>Testing a connection\<close>

datatype connection_test = ConnectionRefused | NoBanner | SendLoginFailed | Answered test_result

text \<open>The bytes written and the result; \<open>dialed\<close> and \<open>written\<close> say whether dialling and writing the login
  succeed, the first input is the banner, and the deadline of five seconds is a failing read.\<close>

definition TestConnection :: "bool \<Rightarrow> bool \<Rightarrow> string \<Rightarrow> string \<Rightarrow> loop_input list \<Rightarrow> string \<times> connection_test" where
  "TestConnection dialed written user pass ins =
     (if \<not> dialed then ([], ConnectionRefused)
      else case ins of
          [] \<Rightarrow> ([], Answered TestWaiting)
        | RawLine banner # rest \<Rightarrow>
            if \<not> written then ([], SendLoginFailed)
            else (writeAction (login_action ''test-1'' user pass), Answered (test_read rest []))
        | _ \<Rightarrow> ([], NoBanner))"

lemma test_read_headers:
  assumes "list_all header_ok kvs" and "distinct (map fst (h @ kvs))"
  shows "test_read (map (RawLine \<circ> header_line) kvs @ ins) h = test_read ins (h @ kvs)"
  using assms
proof (induction kvs arbitrary: h)
  case (Cons kv kvs)
  obtain n where n: "length (fst kv) = Suc n" using Cons.prems(1) by (cases "fst kv") (auto simp: header_ok_def)
  have idx: "Index (fst kv @ CHR '':'' # CHR '' '' # snd kv) '': '' = Some (Suc n)"
    using Index_colon Cons.prems(1) n by (simp add: header_ok_def)
  have parts: "take (Suc n) (fst kv @ CHR '':'' # CHR '' '' # snd kv) = fst kv"
    "drop (Suc n + 2) (fst kv @ CHR '':'' # CHR '' '' # snd kv) = snd kv"
    by (simp_all flip: n)
  have "kv_upsert (fst kv) (snd kv) h = h @ [kv]"
    using kv_upsert_new [of "fst kv" h "snd kv"] Cons.prems(2) by auto
  then show ?case
    using Cons.IH [of "h @ [kv]"] Cons.prems header_line_parse(1) [of kv] idx parts by (simp add: Let_def)
qed simp

text \<open>A test succeeds exactly when the first block after the banner is a success; another block's message, or
  \<open>authentication failed\<close>, is the reason shown.\<close>

lemma TestConnection_answered:
  assumes "list_all header_ok reply" and "distinct (map fst reply)" and "reply \<noteq> []"
  shows "snd (TestConnection True True user pass (RawLine banner # ReadLines (writeAction reply) @ ins))
    = Answered (if hget ''Response'' reply = ''Success'' then TestOk
        else TestFailed (if hget ''Message'' reply = [] then ''authentication failed'' else hget ''Message'' reply))"
proof -
  note ok = action_first_ok [OF assms]
  have get: "hget k (action_first reply) = hget k reply" for k by (simp add: hget_def map_of_action_first)
  have "test_read (ReadLines (writeAction reply) @ ins) [] = test_read (RawLine [CR, LF] # ins) (action_first reply)"
    using test_read_headers [OF ok(1), of "[]" "RawLine [CR, LF] # ins"] ok(2) by (simp add: ReadLines_action [OF assms])
  then show ?thesis using ok(3) by (simp add: TestConnection_def Let_def get)
qed

end
