(* ===== verification/Server_Commands.thy ===== *)
theory Server_Commands
  imports Server_Stats Server_Config Ami_Calls
begin

text \<open>
  \<open>internal/server/commands.go\<close>: the commands of the configuration a user may run on a node. The
  digest SHA-256 is a parameter; \<open>range\<close> over the arguments of a request
  gives them in any order, here the order of a list.
\<close>

section \<open>The list of commands\<close>

text \<open>\<open>%x\<close> of a byte string.\<close>

definition hex_digit :: "nat \<Rightarrow> char" where
  "hex_digit n = ''0123456789abcdef'' ! n"

definition hex :: "string \<Rightarrow> string" where
  "hex s = concat (map (\<lambda>c. [hex_digit (of_char c div 16), hex_digit (of_char c mod 16)]) s)"

definition computeCheck :: "(string \<Rightarrow> string) \<Rightarrow> int \<Rightarrow> string \<Rightarrow> string" where
  "computeCheck sha i cmdTemplate = take 16 (hex (sha (FormatInt i @ '':'' @ cmdTemplate)))"

record commandListItem =
  clIndex :: int
  clName :: string
  clCheck :: string
  clArgs :: "CommandArg list"
  clGroup :: string

text \<open>The permission of the caller, none without a session.\<close>

definition userPerm :: "Session option \<Rightarrow> string" where
  "userPerm sess = (case sess of None \<Rightarrow> [] | Some s \<Rightarrow> sPermission s)"

fun list_items :: "(string \<Rightarrow> string) \<Rightarrow> string \<Rightarrow> int \<Rightarrow> NodeCommand list \<Rightarrow> commandListItem list" where
  "list_items sha perm i [] = []"
| "list_items sha perm i (cmd # cmds) =
     (if \<not> PermissionAtLeast perm (ncRole cmd) then list_items sha perm (i + 1) cmds
      else \<lparr>clIndex = i, clName = ncName cmd, clCheck = computeCheck sha i (ncCmd cmd), clArgs = ncArgs cmd,
             clGroup = ncGroup cmd\<rparr> # list_items sha perm (i + 1) cmds)"

datatype command_answer = Commands "commandListItem list" | CommandOutput string | CommandFailed "ami_error option"

definition handleAPIListCommands :: "(string \<Rightarrow> string) \<Rightarrow> Config \<Rightarrow> Session option \<Rightarrow> request \<Rightarrow> store
    \<Rightarrow> command_answer reply" where
  "handleAPIListCommands sha cfg sess r s =
     (case ParseInt (URLParam ''id'' r) of
        None \<Rightarrow> HttpError 400 ''invalid node id''
      | Some nodeID \<Rightarrow> (case GetNodeByID nodeID s of
          Inl e \<Rightarrow> HttpError 404 ''node not found''
        | Inr n \<Rightarrow> Json 200 (Commands (list_items sha (userPerm sess) 0 (cfCommands cfg)))))"

section \<open>Running a command\<close>

record runCommandRequest =
  rcIndex :: int
  rcCheck :: string
  rcArgs :: "(string \<times> string) list"

text \<open>The checks on a request: the index, the digest the client echoes, the role.\<close>

definition command_gate :: "(string \<Rightarrow> string) \<Rightarrow> NodeCommand list \<Rightarrow> string \<Rightarrow> runCommandRequest \<Rightarrow> (nat \<times> string) + NodeCommand" where
  "command_gate sha cmds perm body =
     (if rcIndex body < 0 \<or> int (length cmds) \<le> rcIndex body then Inl (400, ''invalid command index'')
      else let cmd = cmds ! nat (rcIndex body) in
        if computeCheck sha (rcIndex body) (ncCmd cmd) \<noteq> rcCheck body
        then Inl (400, ''check mismatch '' @ em_dash @ '' reload the page'')
        else if \<not> PermissionAtLeast perm (ncRole cmd) then Inl (403, ''forbidden'')
        else Inr cmd)"

text \<open>The command line: the node's number, then the arguments one by one.\<close>

definition brace :: "string \<Rightarrow> string" where
  "brace k = ''{'' @ k @ ''}''"

definition subst_arg :: "string \<times> string \<Rightarrow> string \<Rightarrow> string" where
  "subst_arg kv resolved = ReplaceAll resolved (brace (fst kv)) (snd kv)"

definition resolve_command :: "string \<Rightarrow> string \<Rightarrow> (string \<times> string) list \<Rightarrow> string option" where
  "resolve_command template nodeNumber args =
     (let resolved = fold subst_arg args (ReplaceAll template ''{node}'' nodeNumber)
      in if Contains resolved ''{'' then None else Some resolved)"

text \<open>An error of the client whose text says that the command ran without output.\<close>

definition ran_silently :: "ami_error \<Rightarrow> bool" where
  "ran_silently e = (case e of
     AmiError msg \<Rightarrow> Contains (''AMI error: '' @ msg) ''Command output follows but no following output'' | _ \<Rightarrow> False)"

text \<open>
  What the network does to one action: the time of the call, whether the write succeeds, and what the
  read loop does to the client until the wait is over.
\<close>

record ami_net =
  anNano :: int
  anWritten :: bool
  anOthers :: "client \<Rightarrow> client"

text \<open>
  \<open>amiMgr.SendActionWait\<close>: the bytes written to the node, the answer, and the clients by their handle
  afterwards; \<open>None\<close>: the node has no client.
\<close>

definition ask_node :: "ami_net \<Rightarrow> manager \<Rightarrow> (nat \<Rightarrow> client) \<Rightarrow> int \<Rightarrow> headers
    \<Rightarrow> (string \<times> (ami_error + headers) \<times> (nat \<Rightarrow> client)) option" where
  "ask_node net m cl nodeID h =
     MgrSendActionWait (\<lambda>i h. case SendActionWait (anNano net) (anWritten net) (anOthers net) h (cl i) of
       (out, answer, c) \<Rightarrow> (out, answer, cl(i := c))) nodeID h m"

text \<open>The result has the bytes written to a node; a failure without an error of the client says that there is none.\<close>

definition handleAPIRunCommand :: "(string \<Rightarrow> string) \<Rightarrow> ami_net \<Rightarrow> manager \<Rightarrow> Config \<Rightarrow> Session option \<Rightarrow> request
    \<Rightarrow> runCommandRequest option \<Rightarrow> store \<Rightarrow> (nat \<Rightarrow> client) \<Rightarrow> command_answer reply \<times> string \<times> (nat \<Rightarrow> client)" where
  "handleAPIRunCommand sha net m cfg sess r body s cl =
     (case ParseInt (URLParam ''id'' r) of
        None \<Rightarrow> (HttpError 400 ''invalid node id'', [], cl)
      | Some nodeID \<Rightarrow> (case GetNodeByID nodeID s of
          Inl e \<Rightarrow> (HttpError 404 ''node not found'', [], cl)
        | Inr n \<Rightarrow> (case body of
            None \<Rightarrow> (HttpError 400 ''invalid request body'', [], cl)
          | Some b \<Rightarrow> (case command_gate sha (cfCommands cfg) (userPerm sess) b of
              Inl (code, msg) \<Rightarrow> (HttpError code msg, [], cl)
            | Inr cmd \<Rightarrow> (case resolve_command (ncCmd cmd) (nNodeNumber n) (rcArgs b) of
                None \<Rightarrow> (HttpError 400 ''unresolved command placeholders'', [], cl)
              | Some resolved \<Rightarrow>
                  (case ask_node net m cl nodeID (command_action resolved) of
                     None \<Rightarrow> (Json 200 (CommandFailed None), [], cl)
                   | Some (out, Inl e, cl') \<Rightarrow>
                       (Json 200 (if ran_silently e then CommandOutput [] else CommandFailed (Some e)), out, cl')
                   | Some (out, Inr resp, cl') \<Rightarrow> (Json 200 (CommandOutput (hget ''Output'' resp)), out, cl')))))))"

section \<open>Listed commands are the ones that run\<close>

lemma list_items_iff:
  "it \<in> set (list_items sha perm i cmds) \<longleftrightarrow>
     (\<exists>k < length cmds. PermissionAtLeast perm (ncRole (cmds ! k)) \<and>
        it = \<lparr>clIndex = i + int k, clName = ncName (cmds ! k), clCheck = computeCheck sha (i + int k) (ncCmd (cmds ! k)),
              clArgs = ncArgs (cmds ! k), clGroup = ncGroup (cmds ! k)\<rparr>)"
proof (induction cmds arbitrary: i)
  case (Cons c cmds)
  show ?case
    by (simp add: Cons.IH Ex_less_Suc2 add_ac)
qed simp

lemma command_gate_Inr:
  "command_gate sha cmds perm b = Inr cmd \<longleftrightarrow>
     0 \<le> rcIndex b \<and> rcIndex b < int (length cmds) \<and> cmd = cmds ! nat (rcIndex b)
     \<and> computeCheck sha (rcIndex b) (ncCmd cmd) = rcCheck b \<and> PermissionAtLeast perm (ncRole cmd)"
  by (auto simp: command_gate_def Let_def)

lemma listed_iff_gate:
  "(\<exists>it \<in> set (list_items sha perm 0 cmds). clIndex it = rcIndex b \<and> clCheck it = rcCheck b)
   = (\<exists>cmd. command_gate sha cmds perm b = Inr cmd)"
proof
  assume "\<exists>it \<in> set (list_items sha perm 0 cmds). clIndex it = rcIndex b \<and> clCheck it = rcCheck b"
  then obtain k where "k < length cmds" "PermissionAtLeast perm (ncRole (cmds ! k))"
    "rcIndex b = int k" "computeCheck sha (int k) (ncCmd (cmds ! k)) = rcCheck b"
    by (auto simp: list_items_iff)
  then have "command_gate sha cmds perm b = Inr (cmds ! k)"
    by (auto simp: command_gate_Inr)
  then show "\<exists>cmd. command_gate sha cmds perm b = Inr cmd" by blast
next
  assume "\<exists>cmd. command_gate sha cmds perm b = Inr cmd"
  then obtain k where k: "rcIndex b = int k" "k < length cmds" "PermissionAtLeast perm (ncRole (cmds ! k))"
    "computeCheck sha (int k) (ncCmd (cmds ! k)) = rcCheck b"
    by (auto simp: command_gate_Inr elim!: nonneg_int_cases)
  let ?it = "\<lparr>clIndex = int k, clName = ncName (cmds ! k), clCheck = computeCheck sha (int k) (ncCmd (cmds ! k)),
    clArgs = ncArgs (cmds ! k), clGroup = ncGroup (cmds ! k)\<rparr>"
  have "?it \<in> set (list_items sha perm 0 cmds)" using k by (auto simp: list_items_iff)
  then show "\<exists>it \<in> set (list_items sha perm 0 cmds). clIndex it = rcIndex b \<and> clCheck it = rcCheck b"
    using k by (intro bexI [of _ ?it]) simp_all
qed

lemma ask_node_writes:
  "(case ask_node net m cl nodeID h of None \<Rightarrow> [] | Some (out, answer, cl') \<Rightarrow> out)
   = (case map_of (mgClients m) nodeID of
        Some i \<Rightarrow> if clConn (cl i) \<and> anWritten net
          then writeAction (kv_upsert ''ActionID'' (''ya-'' @ FormatInt (anNano net)) h) else []
      | None \<Rightarrow> [])"
  by (simp add: ask_node_def MgrSendActionWait_def SendActionWait_def Let_def split: option.split prod.split)

text \<open>What the handler writes is what the call it makes writes.\<close>

lemma run_command_writes:
  assumes "ParseInt (URLParam ''id'' r) = Some nodeID" and "GetNodeByID nodeID s = Inr n"
    and "command_gate sha (cfCommands cfg) (userPerm sess) b = Inr cmd"
  shows "fst (snd (handleAPIRunCommand sha net m cfg sess r (Some b) s cl)) =
    (case resolve_command (ncCmd cmd) (nNodeNumber n) (rcArgs b) of
       None \<Rightarrow> []
     | Some line \<Rightarrow> (case ask_node net m cl nodeID (command_action line) of
         None \<Rightarrow> [] | Some (out, answer, cl') \<Rightarrow> out))"
  using assms by (simp add: handleAPIRunCommand_def split: option.split sum.split prod.split)

text \<open>C19: a command is sent to a node exactly when the node exists and has a connected client, the request
  names an entry of the caller's own command list with the digest shown there, and no placeholder is left;
  one action with the resolved line is then written to the node, unless the connection fails under the
  write, and otherwise nothing is.\<close>

theorem run_command_sends:
  "fst (snd (handleAPIRunCommand sha net m cfg sess r body s cl)) =
     (case (ParseInt (URLParam ''id'' r), body) of
        (Some nodeID, Some b) \<Rightarrow>
          (case (GetNodeByID nodeID s, map_of (mgClients m) nodeID,
                 find (\<lambda>it. clIndex it = rcIndex b \<and> clCheck it = rcCheck b)
                   (list_items sha (userPerm sess) 0 (cfCommands cfg))) of
             (Inr n, Some i, Some it) \<Rightarrow>
               (case resolve_command (ncCmd (cfCommands cfg ! nat (clIndex it))) (nNodeNumber n) (rcArgs b) of
                  Some line \<Rightarrow>
                    if clConn (cl i) \<and> anWritten net
                    then writeAction [(''Action'', ''Command''), (''Command'', line),
                      (''ActionID'', ''ya-'' @ FormatInt (anNano net))]
                    else []
                | None \<Rightarrow> [])
           | _ \<Rightarrow> [])
      | _ \<Rightarrow> [])"
proof (cases "\<exists>nodeID n b. ParseInt (URLParam ''id'' r) = Some nodeID \<and> GetNodeByID nodeID s = Inr n \<and> body = Some b")
  case True
  then obtain nodeID n b where req: "ParseInt (URLParam ''id'' r) = Some nodeID" "GetNodeByID nodeID s = Inr n" "body = Some b"
    by blast
  let ?items = "list_items sha (userPerm sess) 0 (cfCommands cfg)"
  let ?is = "\<lambda>it. clIndex it = rcIndex b \<and> clCheck it = rcCheck b"
  show ?thesis
  proof (cases "command_gate sha (cfCommands cfg) (userPerm sess) b")
    case (Inl e)
    then have "find ?is ?items = None"
      using listed_iff_gate [of sha "userPerm sess" "cfCommands cfg" b] by (auto simp: find_None_iff)
    then show ?thesis
      using req Inl by (simp add: handleAPIRunCommand_def split: option.split prod.split)
  next
    case (Inr cmd)
    then obtain it where it: "find ?is ?items = Some it"
      using listed_iff_gate [of sha "userPerm sess" "cfCommands cfg" b] by (fastforce simp: find_None_iff)
    then have "cfCommands cfg ! nat (clIndex it) = cmd"
      using Inr by (auto simp: command_gate_Inr dest: find_SomeD)
    then show ?thesis
      using run_command_writes [OF req(1,2) Inr] req it
      by (simp add: ask_node_writes command_action_def split: option.split)
  qed
qed (auto simp: handleAPIRunCommand_def split: option.split sum.split prod.split)

section \<open>The substitution, all at once\<close>






lemma ReplaceAll_Nil [simp]: "ReplaceAll [] pat v = []"
  by (simp add: ReplaceAll.simps)













text \<open>
  With a value that has a brace the order matters, and a value can end the line and so start a
  second header of the action.
\<close>

lemma order_matters:
  "resolve_command ''{a}'' ''2000'' [(''a'', ''{b}''), (''b'', ''x'')] = Some ''x''"
  "resolve_command ''{a}'' ''2000'' [(''b'', ''x''), (''a'', ''{b}'')] = None"
  by code_simp+

lemma argument_adds_header:
  "map_option (writeAction \<circ> command_action) (resolve_command ''rpt cmd {node} {x}'' ''2000'' [(''x'', ''1'' @ CRLF @ ''Action: Logoff'')])
   = Some (''Action: Command'' @ CRLF @ ''Command: rpt cmd 2000 1'' @ CRLF @ ''Action: Logoff'' @ CRLF @ CRLF)"
  by code_simp

end
