(* ===== verification/Ast_Db.thy ===== *)
theory Ast_Db
  imports Db_Tables
begin

text \<open>
  \<open>internal/astdb/db.go\<close>: the AllStar node database, read from a file and refreshed from the network.
  What the request delivers and how the file operations end are inputs; the file system is the
  map from paths to contents.
\<close>

section \<open>The table\<close>

record ast_node =
  anCallsign :: string
  anDescription :: string
  anLocation :: string

type_synonym ast_table = "(string \<times> ast_node) list"

record ast_db =
  adNodes :: ast_table
  adLastModified :: string
  adFilePath :: string
  adUpdate :: bool

definition newAstDB :: "string \<Rightarrow> bool \<Rightarrow> ast_db" where
  "newAstDB filePath update = \<lparr>adNodes = [], adLastModified = [], adFilePath = filePath, adUpdate = update\<rparr>"

definition Lookup :: "string \<Rightarrow> ast_db \<Rightarrow> ast_node option" where
  "Lookup nodeNumber db = map_of (adNodes db) nodeNumber"

definition Len :: "ast_db \<Rightarrow> nat" where
  "Len db = length (adNodes db)"

section \<open>Parsing\<close>

definition ast_field :: "nat \<Rightarrow> string list \<Rightarrow> string" where
  "ast_field i parts = (if i < length parts then TrimSpace (parts ! i) else [])"

definition ast_line :: "string \<Rightarrow> ast_table \<Rightarrow> ast_table" where
  "ast_line l tbl =
     (let line = TrimSpace l; parts = SplitN line (CHR ''|'') 4; num = ast_field 0 parts in
      if line = [] then tbl
      else if length parts < 2 then tbl
      else if num = [] then tbl
      else kv_upsert num \<lparr>anCallsign = ast_field 1 parts, anDescription = ast_field 2 parts,
             anLocation = ast_field 3 parts\<rparr> tbl)"

text \<open>The flag is the scanner's error, a line that is too long.\<close>

definition parse :: "string \<Rightarrow> ast_table \<times> bool" where
  "parse data = (case ScanLines data of (ls, tooLong) \<Rightarrow> (fold ast_line ls [], tooLong))"

text \<open>A table is taken when it was read to the end and is not too small.\<close>

definition accepted :: "string \<Rightarrow> ast_table option" where
  "accepted data = (case parse data of (tbl, tooLong) \<Rightarrow> if tooLong \<or> length tbl < 25 then None else Some tbl)"

section \<open>The file\<close>

type_synonym files = "string \<Rightarrow> string option"

text \<open>\<open>mtime\<close> is the time of the file, formatted; a file that cannot be opened is absent.\<close>

definition loadFile :: "files \<Rightarrow> string \<Rightarrow> ast_db \<Rightarrow> ast_db" where
  "loadFile fs mtime db =
     (if adFilePath db = [] then db
      else case fs (adFilePath db) of
          None \<Rightarrow> db
        | Some data \<Rightarrow> (case accepted data of
            None \<Rightarrow> db
          | Some tbl \<Rightarrow> db\<lparr>adNodes := tbl, adLastModified := mtime\<rparr>))"

text \<open>
  How the writing of the temporary file ends: a failing write leaves some of the content there. The file is
  then removed; whether that succeeds is the last argument, and an error of it is ignored.
\<close>

datatype save_outcome = NoTempFile | WriteFails string bool | CloseFails bool | RenameFails bool | Saves

text \<open>\<open>os.Remove\<close> on the last state of the file system.\<close>

definition remove_temp :: "bool \<Rightarrow> string \<Rightarrow> files list \<Rightarrow> files list" where
  "remove_temp removes tmpName states = (if removes then states @ [(last states)(tmpName := None)] else states)"

text \<open>The states of the file system \<open>saveFile\<close> goes through, the last the one it leaves.\<close>

definition saveFile :: "save_outcome \<Rightarrow> string \<Rightarrow> string \<Rightarrow> string \<Rightarrow> files \<Rightarrow> files list" where
  "saveFile out tmpName filePath body fs =
     (if filePath = [] then [fs]
      else case out of
          NoTempFile \<Rightarrow> [fs]
        | WriteFails part removes \<Rightarrow> remove_temp removes tmpName [fs(tmpName := Some []), fs(tmpName := Some part)]
        | CloseFails removes \<Rightarrow> remove_temp removes tmpName [fs(tmpName := Some []), fs(tmpName := Some body)]
        | RenameFails removes \<Rightarrow> remove_temp removes tmpName [fs(tmpName := Some []), fs(tmpName := Some body)]
        | Saves \<Rightarrow> [fs(tmpName := Some []), fs(tmpName := Some body), fs(tmpName := None, filePath := Some body)])"

definition removal_fails :: "save_outcome \<Rightarrow> bool" where
  "removal_fails out \<longleftrightarrow> (\<exists>part. out = WriteFails part False) \<or> out = CloseFails False \<or> out = RenameFails False"

section \<open>Refreshing\<close>

text \<open>What a conditional request gives: no answer, a status, a body that cannot be read, or a body with
  its modification time.\<close>

datatype ast_response = NoAnswer | StatusOnly nat | BrokenBody | Downloaded string string

text \<open>The header sent.\<close>

definition if_modified_since :: "ast_db \<Rightarrow> (string \<times> string) list" where
  "if_modified_since db = (if adLastModified db \<noteq> [] then [(''If-Modified-Since'', adLastModified db)] else [])"

definition refresh :: "ast_response \<Rightarrow> save_outcome \<Rightarrow> string \<Rightarrow> ast_db \<times> files \<Rightarrow> ast_db \<times> files list" where
  "refresh resp out tmpName st =
     (case st of (db, fs) \<Rightarrow>
        (case resp of
           Downloaded body newMod \<Rightarrow>
             (case accepted body of
                None \<Rightarrow> (db, [fs])
              | Some tbl \<Rightarrow>
                  (db\<lparr>adNodes := tbl, adLastModified := (if newMod \<noteq> [] then newMod else adLastModified db)\<rparr>,
                   saveFile out tmpName (adFilePath db) body fs))
         | _ \<Rightarrow> (db, [fs])))"

text \<open>\<open>Start\<close> up to its first refresh; the ticker then repeats \<open>refresh\<close>.\<close>

definition Start :: "string \<Rightarrow> ast_response \<Rightarrow> save_outcome \<Rightarrow> string \<Rightarrow> ast_db \<times> files \<Rightarrow> ast_db \<times> files list" where
  "Start mtime resp out tmpName st =
     (let db = loadFile (snd st) mtime (fst st) in
      if \<not> adUpdate db then (db, [snd st]) else refresh resp out tmpName (db, snd st))"

section \<open>What readers see\<close>

lemma ast_line_keys: "distinct (map fst t) \<Longrightarrow> distinct (map fst (ast_line l t))"
  by (simp add: ast_line_def Let_def distinct_kv_upsert)

lemma parse_keys: "distinct (map fst (fst (parse data)))"
proof -
  have "distinct (map fst t) \<Longrightarrow> distinct (map fst (fold ast_line ls t))" for ls t
    by (induction ls arbitrary: t) (simp_all add: ast_line_keys)
  then show ?thesis by (simp add: parse_def case_prod_beta)
qed

lemma accepted_size: "accepted data = Some t \<Longrightarrow> 25 \<le> length t \<and> distinct (map fst t)"
  using parse_keys [of data] by (auto simp: accepted_def split: prod.splits if_splits)

lemma saveFile_nonempty [simp]: "saveFile out tmp p body fs \<noteq> []"
  by (cases out) (simp_all add: saveFile_def remove_temp_def)

lemma saveFile_states:
  assumes "tmp \<noteq> p"
  shows "\<forall>g \<in> set (saveFile out tmp p body fs). (g p = fs p \<or> g p = Some body) \<and> (\<forall>f. f \<noteq> tmp \<and> f \<noteq> p \<longrightarrow> g f = fs f)"
    and "fs tmp = None \<Longrightarrow> \<not> removal_fails out \<Longrightarrow> last (saveFile out tmp p body fs) tmp = None"
  using assms by (cases out; simp add: saveFile_def remove_temp_def removal_fails_def)+

text \<open>C24: whatever the download and the file operations do, a reader of the file sees at every moment
  the old content or a complete download that parses to at least 25 nodes; no file but that one and the
  temporary one is touched, and the temporary one is gone at the end unless its own removal fails; and the
  table in memory is the old one or the parsed download.\<close>

theorem refresh_atomic:
  assumes "tmpName \<noteq> adFilePath db" and "fs tmpName = None"
    and "refresh resp out tmpName (db, fs) = (db', states)"
  shows "(\<forall>g \<in> set states. g (adFilePath db) = fs (adFilePath db)
      \<or> (\<exists>body m t. resp = Downloaded body m \<and> g (adFilePath db) = Some body \<and> accepted body = Some t))
    \<and> (\<forall>g \<in> set states. \<forall>f. f \<noteq> tmpName \<and> f \<noteq> adFilePath db \<longrightarrow> g f = fs f)
    \<and> (\<not> removal_fails out \<longrightarrow> last states tmpName = None)
    \<and> (adNodes db' = adNodes db \<or> (\<exists>body m. resp = Downloaded body m \<and> accepted body = Some (adNodes db')))"
proof (cases "\<exists>body m t. resp = Downloaded body m \<and> accepted body = Some t")
  case True
  then obtain body m t where r: "resp = Downloaded body m" "accepted body = Some t" by blast
  then have "states = saveFile out tmpName (adFilePath db) body fs" and "adNodes db' = t"
    using assms(3) by (auto simp: refresh_def)
  then show ?thesis
    using saveFile_states(1) [OF assms(1)] saveFile_states(2) [where fs = fs, OF assms(1,2)] r by auto
next
  case False
  then have "db' = db" "states = [fs]"
    using assms(3) by (auto simp: refresh_def split: ast_response.splits option.splits)
  then show ?thesis using assms(2) by simp
qed

text \<open>The states a database is in: a table, once there, is never lost or replaced by a small one.\<close>

inductive ast_run :: "ast_db \<Rightarrow> bool" where
  new: "ast_run (newAstDB path update)"
| load: "ast_run db \<Longrightarrow> ast_run (loadFile fs mtime db)"
| fetch: "ast_run db \<Longrightarrow> ast_run (fst (refresh resp out tmp (db, fs)))"

lemma ast_run_inv: "ast_run db \<Longrightarrow> distinct (map fst (adNodes db)) \<and> (Len db = 0 \<or> 25 \<le> Len db)"
proof (induction rule: ast_run.induct)
  case (load db fs mtime)
  then show ?case by (auto simp: loadFile_def Len_def dest: accepted_size split: option.splits)
next
  case (fetch db resp out tmp fs)
  then show ?case
    by (auto simp: refresh_def Len_def dest: accepted_size split: ast_response.splits option.splits)
qed (simp add: newAstDB_def Len_def)

text \<open>A restart finds what was downloaded.\<close>

lemma saved_table_reloads:
  assumes "refresh (Downloaded body newMod) Saves tmpName (db, fs) = (db', states)"
    and "accepted body \<noteq> None" and "adFilePath db \<noteq> []"
  shows "Lookup num (loadFile (last states) mtime (newAstDB (adFilePath db) update)) = Lookup num db'"
  using assms by (auto simp: refresh_def saveFile_def loadFile_def newAstDB_def Lookup_def)

section \<open>Lines written and read\<close>

text \<open>A field as the file has it: no line break, no white space around it, no separator.\<close>

definition tidy :: "string \<Rightarrow> bool" where
  "tidy s \<longleftrightarrow> LF \<notin> set s \<and> (s = [] \<or> (plain (hd s) \<and> plain (last s)))"

definition ast_print :: "string \<times> ast_node \<Rightarrow> string" where
  "ast_print row = fst row @ ''|'' @ anCallsign (snd row) @ ''|'' @ anDescription (snd row) @ ''|'' @ anLocation (snd row)"

text \<open>A location may contain the separator.\<close>

definition printable :: "string \<times> ast_node \<Rightarrow> bool" where
  "printable row \<longleftrightarrow> fst row \<noteq> [] \<and>
     list_all tidy [fst row, anCallsign (snd row), anDescription (snd row), anLocation (snd row)] \<and>
     list_all (\<lambda>s. CHR ''|'' \<notin> set s) [fst row, anCallsign (snd row), anDescription (snd row)] \<and>
     length (ast_print row) < MaxScanTokenSize"

lemma tidy_TrimSpace: "tidy s \<Longrightarrow> TrimSpace s = s"
  by (cases "s = []") (simp_all add: tidy_def TrimSpace_plain)

lemma plain_bar: "plain (CHR ''|'')" by code_simp

lemma Index_bar: "CHR ''|'' \<notin> set s \<Longrightarrow> Index (s @ CHR ''|'' # t) ''|'' = Some (length s)"
  by (induction s) auto

lemma SplitN_bars:
  assumes "CHR ''|'' \<notin> set a" "CHR ''|'' \<notin> set b" "CHR ''|'' \<notin> set c"
  shows "SplitN (a @ ''|'' @ b @ ''|'' @ c @ ''|'' @ d) (CHR ''|'') 4 = [a, b, c, d]"
  using assms by (simp add: eval_nat_numeral Index_bar)

lemma ast_print_last: "printable row \<Longrightarrow> plain (last (ast_print row))"
  by (cases "anLocation (snd row) = []") (simp_all add: ast_print_def printable_def tidy_def plain_bar)

lemma printable_plain:
  assumes "printable row"
  shows "LF \<notin> set (ast_print row)" "dropCR (ast_print row) = ast_print row" "TrimSpace (ast_print row) = ast_print row"
proof -
  have "\<not> plain CR" by code_simp
  then show "dropCR (ast_print row) = ast_print row"
    using ast_print_last [OF assms] by (intro dropCR_id) auto
  show "LF \<notin> set (ast_print row)"
    using assms by (auto simp: ast_print_def printable_def tidy_def)
  have "ast_print row \<noteq> []" "plain (hd (ast_print row))"
    using assms by (auto simp: ast_print_def printable_def tidy_def)
  then show "TrimSpace (ast_print row) = ast_print row"
    using ast_print_last [OF assms] by (rule TrimSpace_plain)
qed

lemma ast_line_print:
  assumes "printable row"
  shows "ast_line (ast_print row) t = kv_upsert (fst row) (snd row) t"
proof -
  have split: "SplitN (ast_print row) (CHR ''|'') 4
      = [fst row, anCallsign (snd row), anDescription (snd row), anLocation (snd row)]"
    unfolding ast_print_def by (rule SplitN_bars) (use assms in \<open>simp_all add: printable_def\<close>)
  have "fst row \<noteq> []" "ast_print row \<noteq> []" using assms by (simp_all add: printable_def ast_print_def)
  moreover have "TrimSpace (fst row) = fst row" "TrimSpace (anCallsign (snd row)) = anCallsign (snd row)"
    "TrimSpace (anDescription (snd row)) = anDescription (snd row)" "TrimSpace (anLocation (snd row)) = anLocation (snd row)"
    using assms by (simp_all add: printable_def tidy_TrimSpace)
  ultimately show ?thesis
    unfolding ast_line_def Let_def printable_plain(3) [OF assms] split by (cases "snd row") (simp add: ast_field_def)
qed

lemma parse_print:
  assumes "list_all printable rows"
  shows "parse (concat (map (\<lambda>row. ast_print row @ [LF]) rows)) = (fold (\<lambda>row. kv_upsert (fst row) (snd row)) rows [], False)"
proof -
  have "ScanLines (concat (map (\<lambda>row. ast_print row @ [LF]) rows)) = (map ast_print rows, False)"
    using assms
  proof (induction rows)
    case (Cons row rows)
    then have "printable row" "length (ast_print row) < 65536" by (simp_all add: printable_def MaxScanTokenSize_def)
    then show ?case using Cons by (simp add: ScanLines_line printable_plain)
  qed simp
  moreover have "fold ast_line (map ast_print rows) t = fold (\<lambda>row. kv_upsert (fst row) (snd row)) rows t" for t
    using assms by (induction rows arbitrary: t) (simp_all add: ast_line_print)
  ultimately show ?thesis by (simp add: parse_def)
qed

lemma map_of_upserts: "map_of (fold (\<lambda>row. kv_upsert (fst row) (snd row)) rows t) num = (case map_of (rev rows) num of None \<Rightarrow> map_of t num | Some v \<Rightarrow> Some v)"
  by (induction rows arbitrary: t) (auto split: option.split)

text \<open>of a file written in the format of the database the lookup of a number gives the record of the
  last line for it, with a location that may itself contain the separator.\<close>

lemma astdb_reads_file:
  assumes "list_all printable rows" and "25 \<le> card (set (map fst rows))"
    and "fs path = Some (concat (map (\<lambda>row. ast_print row @ [LF]) rows))" and "path \<noteq> []"
  shows "Lookup num (loadFile fs mtime (newAstDB path update)) = map_of (rev rows) num"
proof -
  let ?t = "fst (parse (concat (map (\<lambda>row. ast_print row @ [LF]) rows)))"
  have "fst ` set (fold (\<lambda>row. kv_upsert (fst row) (snd row)) rows t) = fst ` set t \<union> set (map fst rows)" for t
    by (induction rows arbitrary: t) auto
  then have "card (set (map fst ?t)) = card (set (map fst rows))"
    by (simp add: parse_print [OF assms(1)])
  then have "25 \<le> length ?t" using assms(2) card_length [of "map fst ?t"] by simp
  then have "accepted (concat (map (\<lambda>row. ast_print row @ [LF]) rows)) = Some ?t"
    by (simp add: accepted_def parse_print [OF assms(1)])
  then show ?thesis
    using assms(3,4) by (simp add: loadFile_def newAstDB_def Lookup_def parse_print [OF assms(1)] map_of_upserts split: option.split)
qed

definition demoRows :: "(string \<times> ast_node) list" where
  "demoRows = map (\<lambda>c. ([CHR ''2'', c], \<lparr>anCallsign = ''W1AW'', anDescription = ''146.52'', anLocation = ''Newington|CT''\<rparr>)) ''0123456789ABCDEFGHIJKLMNO''"

lemma demoRows_printable: "list_all printable demoRows"
proof -
  have "printable ([CHR ''2'', c], \<lparr>anCallsign = ''W1AW'', anDescription = ''146.52'', anLocation = ''Newington|CT''\<rparr>)"
    if "plain c \<and> c \<noteq> LF \<and> c \<noteq> CHR ''|''" for c
  proof -
    have "plain (CHR ''2'')" "plain (CHR ''W'')" "plain (CHR ''1'')" "plain (CHR ''N'')" "plain (CHR ''T'')" by code_simp+
    with that show ?thesis by (auto simp: printable_def tidy_def ast_print_def MaxScanTokenSize_def)
  qed
  moreover have "list_all (\<lambda>c. plain c \<and> c \<noteq> LF \<and> c \<noteq> CHR ''|'') ''0123456789ABCDEFGHIJKLMNO''" by code_simp
  ultimately show ?thesis unfolding demoRows_def list_all_iff by auto
qed

lemma astdb_reads_file_witness:
  "Lookup ''2O'' (loadFile [''astdb.txt'' \<mapsto> concat (map (\<lambda>row. ast_print row @ [LF]) demoRows)] [] (newAstDB ''astdb.txt'' True))
   = Some \<lparr>anCallsign = ''W1AW'', anDescription = ''146.52'', anLocation = ''Newington|CT''\<rparr>"
proof -
  have "list_all printable demoRows" by (rule demoRows_printable)
  moreover have "distinct (map fst demoRows)" "length demoRows = 25" by code_simp+
  then have "25 \<le> card (set (map fst demoRows))" by (simp only: distinct_card length_map)
  ultimately have "Lookup ''2O'' (loadFile [''astdb.txt'' \<mapsto> concat (map (\<lambda>row. ast_print row @ [LF]) demoRows)] [] (newAstDB ''astdb.txt'' True))
    = map_of (rev demoRows) ''2O''"
    by (rule astdb_reads_file) simp_all
  also have "\<dots> = Some \<lparr>anCallsign = ''W1AW'', anDescription = ''146.52'', anLocation = ''Newington|CT''\<rparr>" by code_simp
  finally show ?thesis .
qed

theorem refresh_atomic_witness:
  "last (snd (refresh (Downloaded (concat (map (\<lambda>row. ast_print row @ [LF]) demoRows)) ''now'') Saves ''tmp''
      (newAstDB ''astdb.txt'' True, Map.empty))) ''tmp'' = None"
proof -
  obtain db' states where run: "refresh (Downloaded (concat (map (\<lambda>row. ast_print row @ [LF]) demoRows)) ''now'') Saves ''tmp''
      (newAstDB ''astdb.txt'' True, Map.empty) = (db', states)" by fastforce
  have "last states ''tmp'' = None" using refresh_atomic [OF _ _ run] by (simp add: newAstDB_def removal_fails_def)
  then show ?thesis by (simp only: run snd_conv)
qed

end
