(* ===== verification/Server_Favorites.thy ===== *)
theory Server_Favorites
  imports Server_Login Favorites_Ini Asl_Fetcher Ast_Db
begin

text \<open>
  \<open>internal/server/favorites.go\<close> and the favorites part of \<open>internal/server/backup.go\<close>: the favorites of
  a node, their order, copying, and the export and import of a file. A decoded JSON body is an
  argument, \<open>None\<close> when it does not decode.
\<close>

section \<open>Data\<close>

record favoriteJSON =
  fjID :: int
  fjNodeNumber :: string
  fjCallsign :: string
  fjDescription :: string
  fjLocation :: string
  fjGroupName :: string
  fjSortOrder :: int
  fjPosition :: int

record favoriteInput =
  fiNodeNumber :: string
  fiCallsign :: string
  fiDescription :: string
  fiLocation :: string
  fiGroupName :: string
  fiSortOrder :: int

datatype fav_answer =
    FavoriteList "favoriteJSON list"
  | OneFavorite favoriteJSON
  | CopiedFavorites nat
  | ImportPreview nat nat nat
  | ImportDone nat nat

definition favToJSON :: "favorite \<Rightarrow> favoriteJSON" where
  "favToJSON f = \<lparr>fjID = fID f, fjNodeNumber = fNodeNumber f, fjCallsign = fCallsign f, fjDescription = fDescription f,
     fjLocation = fLocation f, fjGroupName = fGroupName f, fjSortOrder = fSortOrder f, fjPosition = fPosition f\<rparr>"

text \<open>Empty fields filled from the statistics of the node.\<close>

definition enrichFromCache :: "stats_map \<Rightarrow> string \<Rightarrow> favoriteInput \<Rightarrow> favoriteInput" where
  "enrichFromCache stats num inp =
     (if fiCallsign inp \<noteq> [] \<and> fiDescription inp \<noteq> [] \<and> fiLocation inp \<noteq> [] then inp
      else case map_of stats num of
          None \<Rightarrow> inp
        | Some st \<Rightarrow> inp\<lparr>fiCallsign := (if fiCallsign inp = [] then asCallsign st else fiCallsign inp),
            fiDescription := (if fiDescription inp = [] then asDescription st else fiDescription inp),
            fiLocation := (if fiLocation inp = [] then asLocation st else fiLocation inp)\<rparr>)"

section \<open>Reading\<close>

definition handleFavoritesPage :: "server_env \<Rightarrow> Session option \<Rightarrow> request \<Rightarrow> store \<Rightarrow> page reply" where
  "handleFavoritesPage env ctx r s =
     (let ns = ListNodes s; idStr = URLParam ''nodeID'' r;
          active0 = (if idStr \<noteq> [] then node_by_string idStr ns else None);
          active = (if active0 = None \<and> ns \<noteq> [] then Some (hd ns) else active0)
      in Page 200 ''favorites'' (NodesPage (fillSession ctx (newPageData env)) ns active))"

text \<open>\<open>ast\<close> is the node database.\<close>

definition fav_entry :: "ast_db \<Rightarrow> favorite \<Rightarrow> favoriteJSON" where
  "fav_entry ast f =
     (let j = favToJSON f in
      case Lookup (fNodeNumber f) ast of
        None \<Rightarrow> j
      | Some n \<Rightarrow> j\<lparr>fjCallsign := (if fjCallsign j = [] then anCallsign n else fjCallsign j),
          fjDescription := (if fjDescription j = [] then anDescription n else fjDescription j),
          fjLocation := (if fjLocation j = [] then anLocation n else fjLocation j)\<rparr>)"

definition handleAPIListFavorites :: "ast_db \<Rightarrow> request \<Rightarrow> store \<Rightarrow> fav_answer reply" where
  "handleAPIListFavorites ast r s =
     (case ParseInt (URLParam ''id'' r) of
        None \<Rightarrow> HttpError 400 ''invalid node id''
      | Some nodeID \<Rightarrow> Json 200 (FavoriteList (map (fav_entry ast) (ListFavoritesByNode nodeID s))))"

section \<open>Changing\<close>

text \<open>The favorite an input stands for on a node.\<close>

definition favorite_of_input :: "stats_map \<Rightarrow> int \<Rightarrow> int \<Rightarrow> favoriteInput \<Rightarrow> favorite" where
  "favorite_of_input stats favID nodeID inp0 =
     (let inp1 = (if fiGroupName inp0 = [] then inp0\<lparr>fiGroupName := ''default''\<rparr> else inp0);
          inp = enrichFromCache stats (fiNodeNumber inp1) inp1
      in \<lparr>fID = favID, fNodeID = nodeID, fNodeNumber = fiNodeNumber inp, fCallsign = fiCallsign inp,
          fDescription = fiDescription inp, fLocation = fiLocation inp, fCmd = [], fSortOrder = fiSortOrder inp,
          fGroupName = fiGroupName inp, fPosition = 0\<rparr>)"

definition handleAPICreateFavorite :: "server_env \<Rightarrow> stats_map \<Rightarrow> request \<Rightarrow> favoriteInput option \<Rightarrow> store
    \<Rightarrow> fav_answer reply \<times> store" where
  "handleAPICreateFavorite env stats r body s =
     (case ParseInt (URLParam ''id'' r) of
        None \<Rightarrow> (HttpError 400 ''invalid node id'', s)
      | Some nodeID \<Rightarrow> (case body of
          None \<Rightarrow> (HttpError 400 ''invalid JSON'', s)
        | Some inp \<Rightarrow>
            if fiNodeNumber inp = [] then (HttpError 400 ''node_number is required'', s)
            else (case CreateFavorite (favorite_of_input stats 0 nodeID inp) s of
                (Inl e, s') \<Rightarrow> (HttpError 500 (''create favorite: '' @ svErrorText env e), s')
              | (Inr f, s') \<Rightarrow> (Json 201 (OneFavorite (favToJSON f)), s'))))"

definition handleAPIUpdateFavorite :: "stats_map \<Rightarrow> request \<Rightarrow> favoriteInput option \<Rightarrow> store \<Rightarrow> fav_answer reply \<times> store" where
  "handleAPIUpdateFavorite stats r body s =
     (case ParseInt (URLParam ''id'' r) of
        None \<Rightarrow> (HttpError 400 ''invalid node id'', s)
      | Some nodeID \<Rightarrow> (case ParseInt (URLParam ''fid'' r) of
          None \<Rightarrow> (HttpError 400 ''invalid favorite id'', s)
        | Some favID \<Rightarrow> (case body of
            None \<Rightarrow> (HttpError 400 ''invalid JSON'', s)
          | Some inp \<Rightarrow>
              if fiNodeNumber inp = [] then (HttpError 400 ''node_number is required'', s)
              else let updated = favorite_of_input stats favID nodeID inp
                   in (Json 200 (OneFavorite (favToJSON updated)), UpdateFavorite updated s))))"

definition handleAPIReorderFavorites :: "request \<Rightarrow> int list option \<Rightarrow> store \<Rightarrow> fav_answer reply \<times> store" where
  "handleAPIReorderFavorites r body s =
     (case ParseInt (URLParam ''id'' r) of
        None \<Rightarrow> (HttpError 400 ''invalid node id'', s)
      | Some nodeID \<Rightarrow> (case body of
          None \<Rightarrow> (HttpError 400 ''body must be {\"order\":[id,...]}'', s)
        | Some order \<Rightarrow>
            if order = [] then (HttpError 400 ''body must be {\"order\":[id,...]}'', s)
            else (Status 204, ReorderFavorites nodeID order s)))"

text \<open>The body has the source node and the favorites' ids.\<close>

definition handleAPICopyFavorites :: "server_env \<Rightarrow> request \<Rightarrow> (int \<times> int list) option \<Rightarrow> store \<Rightarrow> fav_answer reply \<times> store" where
  "handleAPICopyFavorites env r body s =
     (case ParseInt (URLParam ''id'' r) of
        None \<Rightarrow> (HttpError 400 ''invalid node id'', s)
      | Some nodeID \<Rightarrow> (case body of
          None \<Rightarrow> (HttpError 400 ''invalid JSON'', s)
        | Some (source, ids) \<Rightarrow>
            if source = 0 \<or> ids = [] then (HttpError 400 ''source_node_id and ids are required'', s)
            else (case CopyFavorites source nodeID ids s of
                (Inl e, s') \<Rightarrow> (HttpError 500 (''copy: '' @ svErrorText env e), s')
              | (Inr n, s') \<Rightarrow> (Json 200 (CopiedFavorites n), s'))))"

definition handleAPIDeleteFavorite :: "request \<Rightarrow> store \<Rightarrow> fav_answer reply \<times> store" where
  "handleAPIDeleteFavorite r s =
     (case ParseInt (URLParam ''fid'' r) of
        None \<Rightarrow> (HttpError 400 ''invalid favorite id'', s)
      | Some favID \<Rightarrow> (Status 204, DeleteFavorite favID s))"

section \<open>Export and import\<close>

text \<open>\<open>stamp\<close> is the time of the export as the file shows it.\<close>

definition handleAPIFavoritesExport :: "string \<Rightarrow> request \<Rightarrow> store \<Rightarrow> fav_answer reply" where
  "handleAPIFavoritesExport stamp r s =
     (case ParseInt (URLParam ''id'' r) of
        None \<Rightarrow> HttpError 400 ''invalid node id''
      | Some nodeID \<Rightarrow> (case GetNodeByID nodeID s of
          Inl e \<Rightarrow> HttpError 404 ''node not found''
        | Inr n \<Rightarrow> Body ''text/plain; charset=utf-8'' (ExportINI stamp (ListFavoritesByNode nodeID s) (nNodeNumber n))))"

definition favoritesMaxBytes :: nat where "favoritesMaxBytes = 2 ^ 20"

text \<open>The node numbers a node has already.\<close>

definition existSet :: "int \<Rightarrow> store \<Rightarrow> string set" where
  "existSet nodeID s = fNodeNumber ` set (ListFavoritesByNode nodeID s)"

text \<open>What both import handlers do first: the node id, and the entries of the file.\<close>

definition read_import :: "request \<Rightarrow> string \<Rightarrow> (nat \<times> string) + int \<times> ImportedFav list" where
  "read_import r data =
     (case ParseInt (URLParam ''id'' r) of
        None \<Rightarrow> Inl (400, ''invalid node id'')
      | Some nodeID \<Rightarrow>
          if favoritesMaxBytes < length data then Inl (400, ''read error'')
          else (case ParseINI data of (imported, tooLong) \<Rightarrow>
              if tooLong then Inl (400, ''parse error: bufio.Scanner: token too long'')
              else Inr (nodeID, imported)))"

definition handleAPIFavoritesImportPreview :: "request \<Rightarrow> string \<Rightarrow> store \<Rightarrow> fav_answer reply" where
  "handleAPIFavoritesImportPreview r data s =
     (case read_import r data of
        Inl (code, msg) \<Rightarrow> HttpError code msg
      | Inr (nodeID, imported) \<Rightarrow>
          (let willSkip = length (filter (\<lambda>f. ifNodeNumber f \<in> existSet nodeID s) imported);
               willAdd = length (filter (\<lambda>f. ifNodeNumber f \<notin> existSet nodeID s) imported)
           in Json 200 (ImportPreview (length imported) willAdd willSkip)))"

definition imported_favorite :: "int \<Rightarrow> ImportedFav \<Rightarrow> favorite" where
  "imported_favorite nodeID f =
     \<lparr>fID = 0, fNodeID = nodeID, fNodeNumber = ifNodeNumber f, fCallsign = ifCallsign f, fDescription = ifDescription f,
      fLocation = [], fCmd = [], fSortOrder = 0, fGroupName = [], fPosition = 0\<rparr>"

definition import_fav :: "int \<Rightarrow> string set \<Rightarrow> ImportedFav \<Rightarrow> nat \<times> store \<Rightarrow> nat \<times> store" where
  "import_fav nodeID existing f ns =
     (if ifNodeNumber f \<in> existing then ns
      else case CreateFavorite (imported_favorite nodeID f) (snd ns) of
          (Inl e, s') \<Rightarrow> (fst ns, s')
        | (Inr g, s') \<Rightarrow> (fst ns + 1, s'))"

definition handleAPIFavoritesImport :: "request \<Rightarrow> string \<Rightarrow> store \<Rightarrow> fav_answer reply \<times> store" where
  "handleAPIFavoritesImport r data s =
     (case read_import r data of
        Inl (code, msg) \<Rightarrow> (HttpError code msg, s)
      | Inr (nodeID, imported) \<Rightarrow>
          (case fold (import_fav nodeID (existSet nodeID s)) imported (0, s) of
             (added, s') \<Rightarrow> (Json 200 (ImportDone added (length imported - added)), s')))"

section \<open>An import adds what the preview says\<close>

lemma existSet_favsOf: "existSet i s = fNodeNumber ` set (favsOf i s)"
  by (simp add: existSet_def favsOf_def)

lemma import_loop:
  assumes "i \<in> nID ` set (t_rows (nodes s))" and "fold (import_fav i E) fs (k, s) = (k', s')"
  shows "k' = k + length (filter (\<lambda>f. ifNodeNumber f \<notin> E) fs)"
    and "map fNodeNumber (favsOf i s') = map fNodeNumber (favsOf i s) @ filter (\<lambda>m. m \<notin> E) (map ifNodeNumber fs)"
    and "\<And>j. j \<noteq> i \<Longrightarrow> favsOf j s' = favsOf j s"
    and "nodes s' = nodes s"
proof -
  have "k' = k + length (filter (\<lambda>f. ifNodeNumber f \<notin> E) fs)
    \<and> map fNodeNumber (favsOf i s') = map fNodeNumber (favsOf i s) @ filter (\<lambda>m. m \<notin> E) (map ifNodeNumber fs)
    \<and> (\<forall>j. j \<noteq> i \<longrightarrow> favsOf j s' = favsOf j s) \<and> nodes s' = nodes s"
    using assms
  proof (induction fs arbitrary: k s)
    case (Cons f fs)
    show ?case
    proof (cases "ifNodeNumber f \<in> E")
      case True
      then show ?thesis using Cons by (simp add: import_fav_def)
    next
      case False
      obtain g s1 where c: "CreateFavorite (imported_favorite i f) s = (Inr g, s1)" and n: "nodes s1 = nodes s"
        using Cons.prems(1) by (auto simp: CreateFavorite_eq imported_favorite_def)
      have "favsOf i s1 = favsOf i s @ [imported_favorite i f\<lparr>fPosition := next_position i s, fID := t_seq (favorites s) + 1\<rparr>]"
        and "\<And>j. j \<noteq> i \<Longrightarrow> favsOf j s1 = favsOf j s"
        using favsOf_CreateFavorite [OF c] by (auto simp: imported_favorite_def)
      moreover have "fold (import_fav i E) fs (k + 1, s1) = (k', s')"
        using Cons.prems(2) False c by (simp add: import_fav_def [of i E f])
      ultimately show ?thesis
        using Cons.IH [of s1 "k + 1"] Cons.prems(1) n False by (simp add: imported_favorite_def)
    qed
  qed simp
  then show "k' = k + length (filter (\<lambda>f. ifNodeNumber f \<notin> E) fs)"
    "map fNodeNumber (favsOf i s') = map fNodeNumber (favsOf i s) @ filter (\<lambda>m. m \<notin> E) (map ifNodeNumber fs)"
    "\<And>j. j \<noteq> i \<Longrightarrow> favsOf j s' = favsOf j s" "nodes s' = nodes s"
    by blast+
qed

lemma import_again:
  "\<forall>f \<in> set fs. ifNodeNumber f \<in> E \<Longrightarrow> fold (import_fav i E) fs ks = ks"
  by (induction fs) (simp_all add: import_fav_def)

lemma read_import_distinct: "read_import r data = Inr (i, fs) \<Longrightarrow> distinct (map ifNodeNumber fs)"
  using ParseINI_distinct [of data] by (auto simp: read_import_def split: option.splits if_splits prod.splits)

text \<open>C22: an import into an existing node adds, in the order of the file, one favorite for each number the
  node does not have, touches no other node, keeps the numbers of a node distinct, reports what the
  preview announced, and adds nothing when it is repeated.\<close>

theorem import_adds_missing:
  assumes "read_import r data = Inr (i, fs)" and "i \<in> nID ` set (t_rows (nodes s))"
    and "handleAPIFavoritesImport r data s = (answer, s')"
  shows "map fNodeNumber (favsOf i s') = map fNodeNumber (favsOf i s)
      @ filter (\<lambda>m. m \<notin> fNodeNumber ` set (favsOf i s)) (map ifNodeNumber fs)
    \<and> (\<forall>j. j \<noteq> i \<longrightarrow> favsOf j s' = favsOf j s)
    \<and> (distinct (map fNodeNumber (favsOf i s)) \<longrightarrow> distinct (map fNodeNumber (favsOf i s')))
    \<and> (\<exists>added skipped. answer = Json 200 (ImportDone added skipped)
         \<and> handleAPIFavoritesImportPreview r data s = Json 200 (ImportPreview (length fs) added skipped))
    \<and> handleAPIFavoritesImport r data s' = (Json 200 (ImportDone 0 (length fs)), s')"
proof -
  let ?E = "existSet i s"
  obtain k where run: "fold (import_fav i ?E) fs (0, s) = (k, s')" and answer: "answer = Json 200 (ImportDone k (length fs - k))"
    using assms(1,3) by (auto simp: handleAPIFavoritesImport_def split: prod.splits)
  note l = import_loop [OF assms(2) run]
  have nums: "map fNodeNumber (favsOf i s') = map fNodeNumber (favsOf i s)
      @ filter (\<lambda>m. m \<notin> fNodeNumber ` set (favsOf i s)) (map ifNodeNumber fs)"
    using l(2) by (simp add: existSet_favsOf)
  have "existSet i s' = set (map fNodeNumber (favsOf i s'))" by (simp add: existSet_favsOf)
  then have again: "\<forall>f \<in> set fs. ifNodeNumber f \<in> existSet i s'"
    unfolding nums by auto
  have "length fs - k = length (filter (\<lambda>f. ifNodeNumber f \<in> ?E) fs)"
    using l(1) sum_length_filter_compl [of "\<lambda>f. ifNodeNumber f \<in> ?E" fs] by simp
  then have "handleAPIFavoritesImportPreview r data s = Json 200 (ImportPreview (length fs) k (length fs - k))"
    using l(1) assms(1) by (simp add: handleAPIFavoritesImportPreview_def)
  moreover have "handleAPIFavoritesImport r data s' = (Json 200 (ImportDone 0 (length fs)), s')"
    using assms(1) import_again [OF again] by (simp add: handleAPIFavoritesImport_def)
  moreover have "distinct (map fNodeNumber (favsOf i s'))" if "distinct (map fNodeNumber (favsOf i s))"
    using that read_import_distinct [OF assms(1)] unfolding nums by auto
  ultimately show ?thesis using nums l(3) answer by blast
qed

definition favRequest :: request where
  "favRequest = \<lparr>rqMethod = ''POST'', rqPath = ''/'', rqURI = ''/'', rqHost = [], rqRemoteAddr = [], rqTLS = False,
     rqHeader = [], rqCookies = [], rqForm = [], rqParam = [(''id'', ''1'')]\<rparr>"

definition hubStore :: store where
  "hubStore = snd (CreateNode \<lparr>nID = 0, nName = ''hub'', nNodeNumber = ''2000'', nAMIHost = [], nAMIPort = 5038,
     nAMIUser = [], nAMIPass = [], nEnabled = True, nDescription = [], nLocation = []\<rparr> store_empty)"

definition hubFav :: "int \<Rightarrow> string \<Rightarrow> favorite" where
  "hubFav node num = \<lparr>fID = 0, fNodeID = node, fNodeNumber = num, fCallsign = [], fDescription = [], fLocation = [],
     fCmd = [], fSortOrder = 0, fGroupName = [], fPosition = 0\<rparr>"

lemma read_import_example:
  "read_import favRequest ''[2501]'' = Inr (1, [\<lparr>ifNodeNumber = ''2501'', ifCallsign = [], ifDescription = []\<rparr>])"
proof -
  have "cut_line ''[2501]'' = (''[2501]'', None)" by (rule cut_line_end) simp
  then have scan: "ScanLines ''[2501]'' = ([''[2501]''], False)"
    by (subst ScanLines.simps) (simp add: MaxScanTokenSize_def dropCR_id)
  have "iniFavs (fold ini_line [''[2501]''] ini_start) = [\<lparr>ifNodeNumber = ''2501'', ifCallsign = [], ifDescription = []\<rparr>]"
    by code_simp
  moreover have "ParseInt (URLParam ''id'' favRequest) = Some 1" by code_simp
  ultimately show ?thesis by (simp add: read_import_def ParseINI_def scan favoritesMaxBytes_def)
qed

theorem import_adds_missing_witness:
  "map fNodeNumber (favsOf 1 (snd (handleAPIFavoritesImport favRequest ''[2501]'' hubStore))) = [''2501'']"
proof -
  obtain answer s' where run: "handleAPIFavoritesImport favRequest ''[2501]'' hubStore = (answer, s')" by fastforce
  have "1 \<in> nID ` set (t_rows (nodes hubStore))" "favsOf 1 hubStore = []" by code_simp+
  then show ?thesis using import_adds_missing [OF read_import_example _ run] by (simp add: run)
qed

section \<open>Reordering\<close>

fun repos :: "int \<Rightarrow> int \<Rightarrow> int list \<Rightarrow> favorite \<Rightarrow> favorite" where
  "repos i k [] f = f"
| "repos i k (a # ids) f = repos i (k + 1) ids (if fID f = a \<and> fNodeID f = i then f\<lparr>fPosition := k\<rparr> else f)"

lemma repos_key [simp]: "fID (repos i k ids f) = fID f" "fNodeID (repos i k ids f) = fNodeID f"
  by (induction i k ids f rule: repos.induct) simp_all

lemma reorder_rows: "t_rows (favorites (reorder_from i k ids s)) = map (repos i k ids) (t_rows (favorites s))"
  by (induction i k ids s rule: reorder_from.induct) (simp_all add: update_where_def comp_def)

lemma repos_other: "fID f \<notin> set ids \<Longrightarrow> repos i k ids f = f"
  by (induction i k ids f rule: repos.induct) simp_all

lemma repos_position:
  "distinct ids \<Longrightarrow> m < length ids \<Longrightarrow> fID f = ids ! m \<Longrightarrow> fNodeID f = i \<Longrightarrow> fPosition (repos i k ids f) = k + int m"
proof (induction ids arbitrary: k m f)
  case (Cons a ids)
  show ?case
  proof (cases m)
    case 0
    then show ?thesis using Cons.prems by (simp add: repos_other)
  next
    case (Suc m')
    then have "fID f \<noteq> a" using Cons.prems by auto
    then show ?thesis using Suc Cons.prems Cons.IH [of m' f "k + 1"] by simp
  qed
qed simp

text \<open>Rows numbered by their place in a list, sorted by that number.\<close>

lemma sort_numbered:
  assumes "distinct ids" and "set (map g xs) = set ids" and "distinct (map g xs)"
    and "\<And>x m. x \<in> set xs \<Longrightarrow> m < length ids \<Longrightarrow> g x = ids ! m \<Longrightarrow> p x = int m"
  shows "map g (sort_key (\<lambda>x. (p x :: int, g x :: int)) xs) = ids"
proof -
  let ?ys = "sort_key (\<lambda>x. (p x, g x)) xs"
  have at: "\<exists>m < length ids. g x = ids ! m \<and> p x = int m" if "x \<in> set xs" for x
  proof -
    have "g x \<in> set ids" using that assms(2) by force
    then show ?thesis using assms(4) [OF that] by (auto simp: in_set_conv_nth)
  qed
  have dist: "distinct (map g ?ys)" using assms(3) by (simp add: distinct_map)
  have len: "length ?ys = length ids"
    using distinct_card [OF dist] distinct_card [OF assms(1)] assms(2) by simp
  have place: "p x = int (inv_into {..<length ids} (\<lambda>m. ids ! m) (g x))" if "x \<in> set xs" for x
    using at [OF that] assms(1) by (auto simp: inj_on_def nth_eq_iff_index_eq intro!: inv_into_f_eq [symmetric])
  have "sorted (map p ?ys)"
    using sorted_sort_key [of "\<lambda>x. (p x, g x)" xs] unfolding sorted_map
    by (rule sorted_wrt_mono_rel [rotated]) (auto simp: less_eq_prod_def)
  moreover have "distinct (map p ?ys)"
  proof -
    have "inj_on p (set xs)"
      using at assms(3) by (auto simp: inj_on_def distinct_map) (metis of_nat_eq_iff)
    then show ?thesis using assms(3) by (simp add: distinct_map)
  qed
  moreover have "set (map p ?ys) = set (map int [0..<length ids])"
  proof -
    have "set (map p ?ys) \<subseteq> set (map int [0..<length ids])" using at by fastforce
    moreover have "card (set (map p ?ys)) = card (set (map int [0..<length ids]))"
      using distinct_card [OF \<open>distinct (map p ?ys)\<close>] len by (simp add: card_image)
    ultimately show ?thesis by (meson card_subset_eq finite_set)
  qed
  ultimately have nums: "map p ?ys = map int [0..<length ids]"
    by (intro sorted_distinct_set_unique) (auto simp: distinct_map sorted_iff_nth_mono)
  show ?thesis
  proof (rule nth_equalityI)
    show "length (map g ?ys) = length ids" using len by simp
    fix m assume "m < length (map g ?ys)"
    then have m: "m < length ids" "m < length ?ys" using len by simp_all
    have "map p ?ys ! m = int m" unfolding nums using m by simp
    then have "p (?ys ! m) = int m" using m by simp
    moreover have "?ys ! m \<in> set xs" using m nth_mem [of m ?ys] by simp
    ultimately show "map g ?ys ! m = ids ! m" using at [of "?ys ! m"] m by auto
  qed
qed

lemma ListFavorites_reordered:
  assumes "store_ok s" and "distinct ids" and "set ids = fID ` set (favsOf i s)"
  shows "map fID (ListFavoritesByNode i (ReorderFavorites i ids s)) = ids"
proof -
  have rows: "filter (\<lambda>f. fNodeID f = i) (t_rows (favorites (ReorderFavorites i ids s))) = map (repos i 0 ids) (favsOf i s)"
    by (simp add: ReorderFavorites_def reorder_rows favsOf_def filter_map comp_def)
  have dist: "distinct (map fID (favsOf i s))"
    using store_favs_ok(1) [OF assms(1)] by (simp add: favsOf_def tbl_inv_def distinct_map_filter)
  show ?thesis
    unfolding ListFavoritesByNode_def rows
  proof (rule sort_numbered [OF assms(2)])
    show "set (map fID (map (repos i 0 ids) (favsOf i s))) = set ids" using assms(3) by (simp add: image_image)
    show "distinct (map fID (map (repos i 0 ids) (favsOf i s)))" using dist by (simp add: comp_def)
    show "fPosition x = int m" if "x \<in> set (map (repos i 0 ids) (favsOf i s))" "m < length ids" "fID x = ids ! m" for x m
      using that repos_position [OF assms(2), of m _ i 0] by (auto simp: favsOf_def)
  qed
qed

text \<open>After a reordering that names each favorite of a node once, the list of the node shows them in the
  order of the request.\<close>

lemma reorder_shows_order:
  assumes "store_ok s" and "ParseInt (URLParam ''id'' r) = Some i"
    and "distinct ids" and "set ids = fID ` set (favsOf i s)"
  shows "case handleAPIListFavorites ast r (snd (handleAPIReorderFavorites r (Some ids) s)) of
      Json code (FavoriteList js) \<Rightarrow> map fjID js = ids
    | _ \<Rightarrow> False"
proof -
  have "fjID (fav_entry ast f) = fID f" for f
    by (simp add: fav_entry_def favToJSON_def Let_def split: option.split)
  moreover have "snd (handleAPIReorderFavorites r (Some ids) s) = ReorderFavorites i ids s"
    using assms(2) by (simp add: handleAPIReorderFavorites_def ReorderFavorites_def)
  ultimately show ?thesis
    using ListFavorites_reordered [OF assms(1,3,4)] assms(2)
    by (simp add: handleAPIListFavorites_def comp_def)
qed

lemma reorder_shows_order_witness:
  "(case handleAPIListFavorites (newAstDB [] False) favRequest (snd (handleAPIReorderFavorites favRequest (Some [2, 1])
      (snd (CreateFavorite (hubFav 1 ''2502'') (snd (CreateFavorite (hubFav 1 ''2501'') hubStore)))))) of
      Json code (FavoriteList js) \<Rightarrow> map fjID js = [2, 1] | _ \<Rightarrow> False)"
proof (rule reorder_shows_order)
  show "store_ok (snd (CreateFavorite (hubFav 1 ''2502'') (snd (CreateFavorite (hubFav 1 ''2501'') hubStore))))"
    unfolding hubStore_def by (intro CreateFavorite_ok CreateNode_ok store_empty_ok)
  show "ParseInt (URLParam ''id'' favRequest) = Some 1" "distinct [2, 1 :: int]"
    "set [2, 1] = fID ` set (favsOf 1 (snd (CreateFavorite (hubFav 1 ''2502'') (snd (CreateFavorite (hubFav 1 ''2501'') hubStore)))))"
    by code_simp+
qed

text \<open>
  An update goes by the favorite's id alone, whatever node the request names, and clears its command;
  an import leaves the group of its favorites empty where a created one gets \<open>default\<close>.
\<close>

lemma update_ignores_node:
  "map fNodeNumber (favsOf 1 (snd (handleAPIUpdateFavorite [] (favRequest\<lparr>rqParam := [(''id'', ''7''), (''fid'', ''1'')]\<rparr>)
      (Some \<lparr>fiNodeNumber = ''9999'', fiCallsign = [], fiDescription = [], fiLocation = [], fiGroupName = [], fiSortOrder = 0\<rparr>)
      (snd (CreateFavorite ((hubFav 1 ''2501'')\<lparr>fCmd := ''rpt fun 2000 *3''\<rparr>) hubStore))))) = [''9999'']"
  "map fCmd (favsOf 1 (snd (handleAPIUpdateFavorite [] (favRequest\<lparr>rqParam := [(''id'', ''7''), (''fid'', ''1'')]\<rparr>)
      (Some \<lparr>fiNodeNumber = ''9999'', fiCallsign = [], fiDescription = [], fiLocation = [], fiGroupName = [], fiSortOrder = 0\<rparr>)
      (snd (CreateFavorite ((hubFav 1 ''2501'')\<lparr>fCmd := ''rpt fun 2000 *3''\<rparr>) hubStore))))) = [[]]"
  by code_simp+

lemma import_group_empty: "fGroupName (imported_favorite i f) = []"
  by (simp add: imported_favorite_def)

end
