(* ===== verification/Server_Profile.thy ===== *)
theory Server_Profile
  imports Server_Users Base64
begin

text \<open>
  \<open>internal/server/profile.go\<close> and \<open>favicon.go\<close>: the caller's own profile, uploaded avatars and the
  custom favicon, which are kept Base64-encoded in the configuration table. Bytes are characters.
\<close>

section \<open>Image formats\<close>

definition byte_at :: "nat \<Rightarrow> nat \<Rightarrow> string \<Rightarrow> bool" where
  "byte_at i n b = (of_char (b ! i) = n)"

definition isPNG :: "string \<Rightarrow> bool" where
  "isPNG b \<longleftrightarrow> 4 \<le> length b \<and> byte_at 0 0x89 b \<and> byte_at 1 0x50 b \<and> byte_at 2 0x4E b \<and> byte_at 3 0x47 b"

definition isICO :: "string \<Rightarrow> bool" where
  "isICO b \<longleftrightarrow> 4 \<le> length b \<and> byte_at 0 0x00 b \<and> byte_at 1 0x00 b \<and> byte_at 2 0x01 b \<and> byte_at 3 0x00 b"

definition isJPEG :: "string \<Rightarrow> bool" where
  "isJPEG b \<longleftrightarrow> 3 \<le> length b \<and> byte_at 0 0xFF b \<and> byte_at 1 0xD8 b \<and> byte_at 2 0xFF b"

definition isGIF :: "string \<Rightarrow> bool" where
  "isGIF b \<longleftrightarrow> 6 \<le> length b \<and> byte_at 0 0x47 b \<and> byte_at 1 0x49 b \<and> byte_at 2 0x46 b"

definition isWEBP :: "string \<Rightarrow> bool" where
  "isWEBP b \<longleftrightarrow> 12 \<le> length b \<and> byte_at 0 0x52 b \<and> byte_at 1 0x49 b \<and> byte_at 2 0x46 b \<and> byte_at 3 0x46 b
     \<and> byte_at 8 0x57 b \<and> byte_at 9 0x45 b \<and> byte_at 10 0x42 b \<and> byte_at 11 0x50 b"

section \<open>Reading the profile\<close>

definition avatarMaxBytes :: nat where "avatarMaxBytes = 2 * 2 ^ 20"

definition avatarConfigKey :: "int \<Rightarrow> string" where
  "avatarConfigKey userID = ''user_avatar_'' @ FormatInt userID"

definition avatar_path :: "int \<Rightarrow> string" where
  "avatar_path userID = ''/api/users/'' @ FormatInt userID @ ''/avatar''"

definition effectiveAvatarURL :: "server_env \<Rightarrow> int \<Rightarrow> string \<Rightarrow> store \<Rightarrow> string" where
  "effectiveAvatarURL env userID externalURL s =
     (if GetConfig (avatarConfigKey userID) s \<noteq> [] then url env (avatar_path userID) else externalURL)"

record profileJSON =
  pjUsername :: string
  pjFullName :: string
  pjAvatarURL :: string
  pjTailscaleUsernames :: string
  pjTailscaleLogin :: string
  pjLookupSource :: string
  pjQRZUsername :: string
  pjQRZConfigured :: bool

datatype profile_answer = Profile profileJSON | ProfileSaved string | AvatarSaved string | ProfileOk

definition handleAPIGetProfile :: "server_env \<Rightarrow> Session option \<Rightarrow> request \<Rightarrow> store \<Rightarrow> profile_answer reply" where
  "handleAPIGetProfile env ctx r s =
     (case ctx of
        None \<Rightarrow> HttpError 401 ''not authenticated''
      | Some sess \<Rightarrow> (case GetUserByID (sUserID sess) s of
          Inl e \<Rightarrow> HttpError 404 ''user not found''
        | Inr u \<Rightarrow> Json 200 (Profile
            \<lparr>pjUsername = uUsername u, pjFullName = uFullName u,
             pjAvatarURL = effectiveAvatarURL env (uID u) (uAvatarURL u) s,
             pjTailscaleUsernames = Join (GetTailscaleLogins (uID u) s) '','',
             pjTailscaleLogin = TrimSpace (HeaderGet (tsUserHeader (cfTailscaleAuth (svConfig env))) r),
             pjLookupSource = (if uLookupSource u = [] then ''auto'' else uLookupSource u),
             pjQRZUsername = uQRZUsername u,
             pjQRZConfigured = (uQRZUsername u \<noteq> [] \<and> uQRZPasswordEnc u \<noteq> [])\<rparr>)))"

section \<open>Updating the profile\<close>

record profileInput =
  piFullName :: string
  piAvatarURL :: string
  piClearAvatar :: bool
  piCurrentPassword :: string
  piNewPassword :: string
  piTailscaleUsernames :: "string option"
  piLookupSource :: string

text \<open>The parts of the update in the order of the handler, each with the error it ends on.\<close>

definition profile_password :: "server_env \<Rightarrow> int \<Rightarrow> user \<Rightarrow> profileInput \<Rightarrow> store \<Rightarrow> (nat \<times> string) option \<times> store" where
  "profile_password env i u inp s =
     (if piNewPassword inp = [] then (None, s)
      else if uPassword u = ''*'' then (Some (403, ''password change not available for proxy-authenticated accounts''), s)
      else if piCurrentPassword inp = [] then (Some (400, ''current password is required to set a new password''), s)
      else if \<not> CheckPassword (svBcryptCmp env) (uPassword u) (piCurrentPassword inp)
      then (Some (401, ''current password is incorrect''), s)
      else (case HashPassword (svBcryptGen env) (piNewPassword inp) of
          Inl e \<Rightarrow> (Some (400, password_message e), s)
        | Inr hash \<Rightarrow> (None, UpdateUserPassword i hash s)))"

definition profile_source :: "int \<Rightarrow> profileInput \<Rightarrow> store \<Rightarrow> (nat \<times> string) option \<times> store" where
  "profile_source i inp s =
     (if piLookupSource inp = [] then (None, s)
      else if piLookupSource inp \<in> set [''auto'', ''qrz'', ''callook'']
      then (None, UpdateUserLookupSource i (piLookupSource inp) s)
      else (Some (400, ''lookup_source must be auto, qrz, or callook''), s))"

text \<open>The avatar URL to store, after the uploaded avatar has been dropped when there is a new one.\<close>

definition profile_avatar :: "int \<Rightarrow> user \<Rightarrow> profileInput \<Rightarrow> store \<Rightarrow> string \<times> store" where
  "profile_avatar i u inp s =
     (if piAvatarURL inp \<noteq> [] then (piAvatarURL inp, SetConfig (avatarConfigKey i) [] s)
      else if piClearAvatar inp then ([], SetConfig (avatarConfigKey i) [] s)
      else (uAvatarURL u, s))"

text \<open>The new cookie of a session that is no proxy's, and the answer.\<close>

definition with_session :: "server_env \<Rightarrow> Session \<Rightarrow> user \<Rightarrow> string \<Rightarrow> profile_answer \<Rightarrow> profile_answer answer" where
  "with_session env sess u avatarURL ok =
     (if sAuthMethod sess \<noteq> [] then (Json 200 ok, [])
      else case session_cookie env u avatarURL of
          None \<Rightarrow> (HttpError 500 ''session error'', [])
        | Some ck \<Rightarrow> (Json 200 ok, [ck]))"

definition save_profile :: "server_env \<Rightarrow> Session \<Rightarrow> user \<Rightarrow> profileInput \<Rightarrow> store \<Rightarrow> profile_answer answer \<times> store" where
  "save_profile env sess u inp s =
     (let i = sUserID sess;
          (newAvatarURL, s1) = profile_avatar i u inp s;
          s2 = UpdateUserProfile i (piFullName inp) newAvatarURL s1
      in case GetUserByID i s2 of
           Inl e \<Rightarrow> ((HttpError 500 ''user not found'', []), s2)
         | Inr u' \<Rightarrow> (with_session env sess u' (effectiveAvatarURL env (uID u') (uAvatarURL u') s2) (ProfileSaved (uFullName u')), s2))"

definition handleAPIUpdateProfile :: "server_env \<Rightarrow> Session option \<Rightarrow> profileInput option \<Rightarrow> store \<Rightarrow> profile_answer answer \<times> store" where
  "handleAPIUpdateProfile env ctx body s =
     (case ctx of
        None \<Rightarrow> ((HttpError 401 ''not authenticated'', []), s)
      | Some sess \<Rightarrow> (case body of
          None \<Rightarrow> ((HttpError 400 ''invalid JSON'', []), s)
        | Some inp \<Rightarrow> (case GetUserByID (sUserID sess) s of
            Inl e \<Rightarrow> ((HttpError 404 ''user not found'', []), s)
          | Inr u \<Rightarrow> (case profile_password env (sUserID sess) u inp s of
              (Some (code, msg), s1) \<Rightarrow> ((HttpError code msg, []), s1)
            | (None, s1) \<Rightarrow> (case update_logins env (sUserID sess) (piTailscaleUsernames inp) s1 of
                (Some (code, msg), s2) \<Rightarrow> ((HttpError code msg, []), s2)
              | (None, s2) \<Rightarrow> (case profile_source (sUserID sess) inp s2 of
                  (Some (code, msg), s3) \<Rightarrow> ((HttpError code msg, []), s3)
                | (None, s3) \<Rightarrow> save_profile env sess u inp s3))))))"

section \<open>Avatars\<close>

text \<open>\<open>read_error\<close> is the text of the error for a body beyond the limit.\<close>

definition read_error :: string where
  "read_error = ''read error: http: request body too large''"

definition handleAPIUploadAvatar :: "server_env \<Rightarrow> Session option \<Rightarrow> string \<Rightarrow> store \<Rightarrow> profile_answer answer \<times> store" where
  "handleAPIUploadAvatar env ctx data s =
     (case ctx of
        None \<Rightarrow> ((HttpError 401 ''not authenticated'', []), s)
      | Some sess \<Rightarrow>
          if avatarMaxBytes < length data then ((HttpError 400 read_error, []), s)
          else if length data < 4 then ((HttpError 400 ''file too small'', []), s)
          else if \<not> isPNG data \<and> \<not> isICO data \<and> \<not> isJPEG data \<and> \<not> isGIF data \<and> \<not> isWEBP data
          then ((HttpError 400 ''unsupported image format (PNG, JPEG, GIF, or WebP required)'', []), s)
          else let i = sUserID sess; s1 = SetConfig (avatarConfigKey i) (StdEncode data) s; apiPath = avatar_path i in
            (case GetUserByID i s1 of
               Inl e \<Rightarrow> ((HttpError 500 ''user not found'', []), s1)
             | Inr u \<Rightarrow> (with_session env sess u apiPath (AvatarSaved apiPath), UpdateUserProfile i (uFullName u) apiPath s1)))"

definition handleAPIDeleteAvatar :: "server_env \<Rightarrow> Session option \<Rightarrow> store \<Rightarrow> profile_answer answer \<times> store" where
  "handleAPIDeleteAvatar env ctx s =
     (case ctx of
        None \<Rightarrow> ((HttpError 401 ''not authenticated'', []), s)
      | Some sess \<Rightarrow>
          let i = sUserID sess; s1 = SetConfig (avatarConfigKey i) [] s in
            (case GetUserByID i s1 of
               Inl e \<Rightarrow> ((HttpError 500 ''user not found'', []), s1)
             | Inr u \<Rightarrow> (with_session env sess u [] ProfileOk, UpdateUserProfile i (uFullName u) [] s1)))"

definition not_found :: "'a reply" where
  "not_found = HttpError 404 ''404 page not found''"

definition image_type :: "string \<Rightarrow> string" where
  "image_type data = (if isJPEG data then ''image/jpeg'' else if isGIF data then ''image/gif''
     else if isWEBP data then ''image/webp'' else ''image/png'')"

definition handleAPIGetAvatar :: "request \<Rightarrow> store \<Rightarrow> profile_answer reply" where
  "handleAPIGetAvatar r s =
     (case ParseInt (URLParam ''id'' r) of
        None \<Rightarrow> HttpError 400 ''invalid id''
      | Some i \<Rightarrow>
          let raw = GetConfig (avatarConfigKey i) s in
          if raw = [] then not_found
          else (case StdDecode raw of None \<Rightarrow> not_found | Some data \<Rightarrow> Body (image_type data) data))"

section \<open>Favicon\<close>

definition configKeyFavicon :: string where "configKeyFavicon = ''custom_favicon''"
definition faviconMaxBytes :: nat where "faviconMaxBytes = 256 * 1024"

text \<open>\<open>static\<close> is the embedded asset of the fallback.\<close>

definition serveFavicon :: "string option \<Rightarrow> string \<Rightarrow> store \<Rightarrow> profile_answer reply" where
  "serveFavicon static contentType s =
     (let raw = GetConfig configKeyFavicon s;
          fallback = (case static of None \<Rightarrow> HttpError 404 ''favicon not found'' | Some f \<Rightarrow> Body contentType f)
      in if raw = [] then fallback
         else (case StdDecode raw of Some data \<Rightarrow> Body ''image/png'' data | None \<Rightarrow> fallback))"

definition handleAPIUploadFavicon :: "string \<Rightarrow> store \<Rightarrow> profile_answer reply \<times> store" where
  "handleAPIUploadFavicon data s =
     (if faviconMaxBytes < length data then (HttpError 400 read_error, s)
      else if length data < 4 then (HttpError 400 ''file too small'', s)
      else if \<not> isPNG data \<and> \<not> isICO data \<and> \<not> isJPEG data
      then (HttpError 400 ''unsupported image format (PNG, ICO, or JPEG required)'', s)
      else (Json 200 ProfileOk, SetConfig configKeyFavicon (StdEncode data) s))"

definition handleAPIDeleteFavicon :: "store \<Rightarrow> profile_answer reply \<times> store" where
  "handleAPIDeleteFavicon s = (Json 200 ProfileOk, SetConfig configKeyFavicon [] s)"

section \<open>An avatar is served as it was uploaded\<close>

lemma update_user_configs [simp]: "configs (update_user i f s) = configs s"
  by (simp add: update_user_def)

lemma GetConfig_update [simp]: "GetConfig k (UpdateUserProfile i n a s) = GetConfig k s"
  by (simp add: GetConfig_def UpdateUserProfile_def)

lemma GetUserByID_SetConfig [simp]: "GetUserByID i (SetConfig k v s) = GetUserByID i s"
  by (simp add: GetUserByID_def SetConfig_def)

lemma avatarConfigKey_inj: "avatarConfigKey i = avatarConfigKey j \<longleftrightarrow> i = j"
  by (simp add: avatarConfigKey_def FormatInt_inj)

lemma upload_avatar_stores:
  assumes "fst (fst (handleAPIUploadAvatar env (Some sess) data s)) = Json 200 a"
  shows "4 \<le> length data \<and> (isPNG data \<or> isICO data \<or> isJPEG data \<or> isGIF data \<or> isWEBP data)"
    and "GetConfig k (snd (handleAPIUploadAvatar env (Some sess) data s)) =
      (if k = avatarConfigKey (sUserID sess) then StdEncode data else GetConfig k s)"
  using assms by (auto simp: handleAPIUploadAvatar_def Let_def GetConfig_SetConfig split: if_splits sum.splits)

lemma delete_avatar_clears:
  "GetConfig k (snd (handleAPIDeleteAvatar env (Some sess) s)) = (if k = avatarConfigKey (sUserID sess) then [] else GetConfig k s)"
  by (auto simp: handleAPIDeleteAvatar_def Let_def GetConfig_SetConfig split: sum.split)

text \<open>an avatar that was accepted is served byte for byte under its owner's id, with the type of its
  format, until it is deleted; uploading and deleting leave every other avatar and the favicon alone.\<close>

lemma avatar_served:
  assumes "fst (fst (handleAPIUploadAvatar env (Some sess) data s)) = Json 200 a"
    and "ParseInt (URLParam ''id'' r) = Some i"
  shows "(let s' = snd (handleAPIUploadAvatar env (Some sess) data s);
              s'' = snd (handleAPIDeleteAvatar env (Some sess) s')
    in (if i = sUserID sess
        then handleAPIGetAvatar r s' = Body (image_type data) data \<and> handleAPIGetAvatar r s'' = not_found
        else handleAPIGetAvatar r s' = handleAPIGetAvatar r s \<and> handleAPIGetAvatar r s'' = handleAPIGetAvatar r s)
       \<and> serveFavicon static ct s'' = serveFavicon static ct s)"
proof -
  have "configKeyFavicon \<noteq> avatarConfigKey (sUserID sess)" by (simp add: configKeyFavicon_def avatarConfigKey_def)
  moreover have "StdEncode data \<noteq> []" using upload_avatar_stores(1) [OF assms(1)] by (intro StdEncode_nonempty) auto
  ultimately show ?thesis
    using assms(2) by (simp add: Let_def handleAPIGetAvatar_def serveFavicon_def delete_avatar_clears
        upload_avatar_stores(2) [OF assms(1)] avatarConfigKey_inj Std_roundtrip)
qed

section \<open>What a profile update can change\<close>

text \<open>How the rows of an account may differ after an update: only the caller's, not its name, permission
  or credentials, and the password only against the current one.\<close>

definition own_change :: "server_env \<Rightarrow> int \<Rightarrow> profileInput \<Rightarrow> user \<Rightarrow> user \<Rightarrow> bool" where
  "own_change env i inp u u' \<longleftrightarrow>
     (if uID u \<noteq> i then u' = u
      else uID u' = uID u \<and> uUsername u' = uUsername u \<and> uPermission u' = uPermission u
        \<and> uQRZUsername u' = uQRZUsername u \<and> uQRZPasswordEnc u' = uQRZPasswordEnc u \<and> uWebAuthnID u' = uWebAuthnID u
        \<and> (uPassword u' = uPassword u
           \<or> (uPassword u \<noteq> ''*'' \<and> svBcryptCmp env (uPassword u) (piCurrentPassword inp)
              \<and> 8 \<le> length (piNewPassword inp) \<and> svBcryptGen env (piNewPassword inp) = Some (uPassword u'))))"

abbreviation urows :: "store \<Rightarrow> user list" where "urows s \<equiv> t_rows (users s)"

lemma own_change_refl: "list_all2 (own_change env i inp) us us"
  by (intro list.rel_refl) (simp add: own_change_def)

text \<open>A later part of the update that leaves names, permissions, passwords and credentials alone.\<close>

lemma own_change_update:
  assumes "list_all2 (own_change env i inp) us (urows s)"
    and "\<And>u. uID (f u) = uID u \<and> uUsername (f u) = uUsername u \<and> uPermission (f u) = uPermission u
      \<and> uQRZUsername (f u) = uQRZUsername u \<and> uQRZPasswordEnc (f u) = uQRZPasswordEnc u \<and> uWebAuthnID (f u) = uWebAuthnID u
      \<and> uPassword (f u) = uPassword u"
  shows "list_all2 (own_change env i inp) us (urows (update_user i f s))"
proof -
  have "own_change env i inp u (if uID u' = i then f u' else u')" if "own_change env i inp u u'" for u u'
    using that assms(2) [of u'] by (auto simp: own_change_def split: if_splits)
  then have "list_all2 (\<lambda>u u'. own_change env i inp u (if uID u' = i then f u' else u')) us (urows s)"
    by (rule list.rel_mono_strong [OF assms(1)])
  then show ?thesis by (simp add: update_user_def update_where_def list_all2_map2)
qed

lemma own_change_password:
  assumes "users_ok s" and "GetUserByID i s = Inr u"
  shows "list_all2 (own_change env i inp) (urows s) (urows (snd (profile_password env i u inp s)))"
proof (cases "snd (profile_password env i u inp s) = s")
  case True
  then show ?thesis by (simp add: own_change_refl)
next
  case False
  then obtain hash where h: "uPassword u \<noteq> ''*''" "svBcryptCmp env (uPassword u) (piCurrentPassword inp)"
    "HashPassword (svBcryptGen env) (piNewPassword inp) = Inr hash"
    "snd (profile_password env i u inp s) = UpdateUserPassword i hash s"
    by (auto simp: profile_password_def CheckPassword_def split: if_splits sum.splits)
  have "v = u" if "v \<in> set (urows s)" "uID v = i" for v
    using that assms by (simp add: GetUserByID_iff user_rows.ids_eqD [OF users_ok_tbl [OF assms(1)]])
  then show ?thesis
    using h(1,2) HashPassword_InrD [OF h(3)]
    by (auto simp: h(4) UpdateUserPassword_def update_user_def update_where_def list_all2_map2 own_change_def intro!: list.rel_refl_strong)
qed

lemma update_logins_users: "users (snd (update_logins env i names s)) = users s"
  by (auto simp: update_logins_def SetTailscaleLogins_def split: option.split sum.split prod.split)

lemma profile_avatar_users: "users (snd (profile_avatar i u inp s)) = users s"
  by (simp add: profile_avatar_def SetConfig_def)

lemma own_change_source:
  assumes "list_all2 (own_change env i inp) us (urows s)"
  shows "list_all2 (own_change env i inp) us (urows (snd (profile_source i inp s)))"
  using assms own_change_update [OF assms, of "\<lambda>u. u\<lparr>uLookupSource := piLookupSource inp\<rparr>"]
  by (simp add: profile_source_def UpdateUserLookupSource_def)

lemma own_change_save:
  assumes "list_all2 (own_change env (sUserID sess) inp) us (urows s)"
  shows "list_all2 (own_change env (sUserID sess) inp) us (urows (snd (save_profile env sess u inp s)))"
proof -
  obtain a s1 where p: "profile_avatar (sUserID sess) u inp s = (a, s1)" by fastforce
  have "urows s1 = urows s" using profile_avatar_users [of "sUserID sess" u inp s] by (simp add: p)
  then have "list_all2 (own_change env (sUserID sess) inp) us (urows (UpdateUserProfile (sUserID sess) (piFullName inp) a s1))"
    unfolding UpdateUserProfile_def using assms by (intro own_change_update) simp_all
  then show ?thesis by (simp add: save_profile_def p Let_def split: sum.split)
qed

text \<open>What an update leaves alone beside the accounts and their logins: every other table, and in the
  configuration everything but the account's uploaded avatar.\<close>

definition rest_kept :: "int \<Rightarrow> store \<Rightarrow> store \<Rightarrow> bool" where
  "rest_kept i s s' \<longleftrightarrow> nodes s' = nodes s \<and> favorites s' = favorites s \<and> stats_cache s' = stats_cache s
     \<and> qrz_cache s' = qrz_cache s \<and> credentials s' = credentials s \<and> wa_sessions s' = wa_sessions s
     \<and> (\<forall>k. k \<noteq> avatarConfigKey i \<longrightarrow> map_of (configs s') k = map_of (configs s) k)"

lemma rest_kept_refl [simp]: "rest_kept i s s"
  by (simp add: rest_kept_def)

lemma rest_kept_trans: "rest_kept i s s1 \<Longrightarrow> rest_kept i s1 s2 \<Longrightarrow> rest_kept i s s2"
  by (simp add: rest_kept_def)

lemma rest_kept_update_user [simp]: "rest_kept i s (update_user j f s)"
  by (simp add: rest_kept_def db_simps)

lemma rest_kept_avatar: "rest_kept i s (SetConfig (avatarConfigKey i) v s)"
  by (simp add: rest_kept_def SetConfig_def map_of_kv_upsert)

lemma rest_kept_parts:
  "rest_kept i s (snd (profile_password env i u inp s))"
  "rest_kept i s (snd (update_logins env i names s))"
  "rest_kept i s (snd (profile_source i inp s))"
  "rest_kept i s (snd (profile_avatar i u inp s))"
  by (auto simp: profile_password_def UpdateUserPassword_def profile_source_def UpdateUserLookupSource_def
      profile_avatar_def rest_kept_avatar split: sum.split)
    (auto simp: update_logins_def SetTailscaleLogins_def rest_kept_def split: option.split sum.split prod.split)

lemma save_profile_keeps:
  "rest_kept (sUserID sess) s (snd (save_profile env sess u inp s))"
  "tailscale_logins (snd (save_profile env sess u inp s)) = tailscale_logins s"
proof -
  obtain a s1 where p: "profile_avatar (sUserID sess) u inp s = (a, s1)" by fastforce
  have "rest_kept (sUserID sess) s s1" using rest_kept_parts(4) [of "sUserID sess" s u inp] by (simp add: p)
  then show "rest_kept (sUserID sess) s (snd (save_profile env sess u inp s))"
    using rest_kept_trans [OF _ rest_kept_update_user]
    by (auto simp: save_profile_def p Let_def UpdateUserProfile_def split: sum.split)
  have "tailscale_logins s1 = tailscale_logins s"
    using p by (auto simp: profile_avatar_def SetConfig_def split: if_splits)
  then show "tailscale_logins (snd (save_profile env sess u inp s)) = tailscale_logins s"
    by (auto simp: save_profile_def p Let_def UpdateUserProfile_def db_simps split: sum.split)
qed

text \<open>The logins after an update: as before, or the caller's replaced by those of the input.\<close>

definition logins_after :: "int \<Rightarrow> string option \<Rightarrow> store \<Rightarrow> store \<Rightarrow> bool" where
  "logins_after i names s s' \<longleftrightarrow> tailscale_logins s' = tailscale_logins s
     \<or> (\<exists>ns. names = Some ns \<and> tailscale_logins s' =
          filter (\<lambda>l. snd l \<noteq> i) (tailscale_logins s) @ map (\<lambda>l. (l, i)) (splitLogins ns))"

lemma insert_logins_appends: "insert_logins ids i logins ls = Some ls' \<Longrightarrow> ls' = ls @ map (\<lambda>l. (l, i)) logins"
  by (induction ids i logins ls rule: insert_logins.induct) (auto split: if_splits)

lemma update_logins_after: "logins_after i names s (snd (update_logins env i names s))"
  by (auto simp: logins_after_def update_logins_def SetTailscaleLogins_def split: option.split sum.split prod.split
      dest: insert_logins_appends)

lemma parts_logins:
  "tailscale_logins (snd (profile_password env i u inp s)) = tailscale_logins s"
  "tailscale_logins (snd (profile_source i inp s)) = tailscale_logins s"
  by (auto simp: profile_password_def UpdateUserPassword_def profile_source_def UpdateUserLookupSource_def db_simps
      split: sum.split)

lemma update_profile_stops:
  assumes "handleAPIUpdateProfile env (Some sess) (Some inp) s = (answer, s')" and "GetUserByID (sUserID sess) s = Inr u"
  defines "s1 \<equiv> snd (profile_password env (sUserID sess) u inp s)"
  defines "s2 \<equiv> snd (update_logins env (sUserID sess) (piTailscaleUsernames inp) s1)"
  defines "s3 \<equiv> snd (profile_source (sUserID sess) inp s2)"
  shows "s' \<in> {s1, s2, s3, snd (save_profile env sess u inp s3)}"
  using assms(1,2) unfolding s3_def s2_def s1_def
  by (auto simp: handleAPIUpdateProfile_def split: option.splits prod.splits)

lemma update_profile_rest:
  assumes "handleAPIUpdateProfile env (Some sess) (Some inp) s = (answer, s')"
  shows "rest_kept (sUserID sess) s s' \<and> logins_after (sUserID sess) (piTailscaleUsernames inp) s s'"
proof (cases "GetUserByID (sUserID sess) s")
  case (Inl e)
  then show ?thesis using assms by (simp add: handleAPIUpdateProfile_def logins_after_def)
next
  case (Inr u)
  let ?i = "sUserID sess" and ?names = "piTailscaleUsernames inp"
  define s1 where "s1 = snd (profile_password env ?i u inp s)"
  define s2 where "s2 = snd (update_logins env ?i ?names s1)"
  define s3 where "s3 = snd (profile_source ?i inp s2)"
  note kept = rest_kept_parts [of ?i] and logins = parts_logins [where i = ?i]
  have r: "rest_kept ?i s s1" "rest_kept ?i s s2" "rest_kept ?i s s3"
    using kept(1) [of s env u inp] kept(2) [of s1 env ?names] kept(3) [of s2 inp]
    by (auto simp: s1_def [symmetric] s2_def [symmetric] s3_def [symmetric] intro: rest_kept_trans)
  have l: "tailscale_logins s1 = tailscale_logins s" "logins_after ?i ?names s1 s2" "tailscale_logins s3 = tailscale_logins s2"
    using logins update_logins_after [of ?i ?names s1 env] by (simp_all add: s1_def s2_def s3_def)
  have "s' \<in> {s1, s2, s3, snd (save_profile env sess u inp s3)}"
    using update_profile_stops [OF assms Inr] by (simp add: s1_def s2_def s3_def)
  then show ?thesis
    using r l save_profile_keeps [where sess = sess and s = s3 and env = env and u = u and inp = inp] rest_kept_trans [OF r(3)] by (auto simp: logins_after_def)
qed

text \<open>C21: a user who updates the profile changes no other account and none of its Tailscale logins, and of the
  own account neither the name, the permission nor the stored credentials; the password changes only for an account with a local
  password, when the current one was given, to the hash of a new one of at least eight characters. The own logins
  stay or become those of the request; of the configuration only the own uploaded avatar may change, and
  of the other tables nothing.\<close>

theorem profile_update_confined:
  assumes "store_ok s" and "handleAPIUpdateProfile env (Some sess) (Some inp) s = (answer, s')"
  shows "list_all2 (\<lambda>u u'.
      if uID u \<noteq> sUserID sess then u' = u
      else uUsername u' = uUsername u \<and> uPermission u' = uPermission u
        \<and> uQRZUsername u' = uQRZUsername u \<and> uQRZPasswordEnc u' = uQRZPasswordEnc u \<and> uWebAuthnID u' = uWebAuthnID u
        \<and> (uPassword u' = uPassword u
           \<or> (uPassword u \<noteq> ''*'' \<and> svBcryptCmp env (uPassword u) (piCurrentPassword inp)
              \<and> 8 \<le> length (piNewPassword inp) \<and> svBcryptGen env (piNewPassword inp) = Some (uPassword u'))))
    (t_rows (users s)) (t_rows (users s'))
    \<and> (tailscale_logins s' = tailscale_logins s
      \<or> (\<exists>ns. piTailscaleUsernames inp = Some ns \<and> tailscale_logins s' =
           filter (\<lambda>l. snd l \<noteq> sUserID sess) (tailscale_logins s) @ map (\<lambda>l. (l, sUserID sess)) (splitLogins ns)))
    \<and> nodes s' = nodes s \<and> favorites s' = favorites s \<and> stats_cache s' = stats_cache s
    \<and> qrz_cache s' = qrz_cache s \<and> credentials s' = credentials s \<and> wa_sessions s' = wa_sessions s
    \<and> (\<forall>k. k \<noteq> avatarConfigKey (sUserID sess) \<longrightarrow> map_of (configs s') k = map_of (configs s) k)"
proof -
  let ?C = "own_change env (sUserID sess) inp"
  have "list_all2 ?C (urows s) (urows s')"
  proof (cases "GetUserByID (sUserID sess) s")
    case (Inl e)
    then have "s' = s" using assms(2) by (simp add: handleAPIUpdateProfile_def)
    then show ?thesis by (simp add: own_change_refl)
  next
    case (Inr u)
    have c1: "list_all2 ?C (urows s) (urows (snd (profile_password env (sUserID sess) u inp s)))"
      using own_change_password [of s "sUserID sess" u env inp] assms(1) Inr by (simp add: store_ok_def)
    have c2: "list_all2 ?C (urows s) (urows (snd (update_logins env (sUserID sess) (piTailscaleUsernames inp)
        (snd (profile_password env (sUserID sess) u inp s)))))"
      using c1 by (simp add: update_logins_users)
    note c3 = own_change_source [OF c2]
    show ?thesis using update_profile_stops [OF assms(2) Inr] c1 c2 c3 own_change_save [OF c3] by auto
  qed
  note rows = this and rest = update_profile_rest [OF assms(2), unfolded rest_kept_def logins_after_def]
  show ?thesis
    by (rule conjI [OF list_all2_mono [OF rows] conjI [OF conjunct2 [OF rest] conjunct1 [OF rest]]])
      (simp add: own_change_def split: if_splits)
qed

definition annSession :: Session where
  "annSession = \<lparr>sUserID = 1, sUsername = ''ann'', sPermission = ''admin'', sFullName = [], sAvatarURL = [],
     sExpires = 1000, sAuthMethod = [], sExternalUsername = []\<rparr>"

definition annStore :: store where
  "annStore = snd (CreateUser ''ann'' ''secret-1'' ''admin'' store_empty)"

definition newPassword :: profileInput where
  "newPassword = \<lparr>piFullName = ''Ann'', piAvatarURL = [], piClearAvatar = False, piCurrentPassword = ''secret-1'',
     piNewPassword = ''secret-22'', piTailscaleUsernames = None, piLookupSource = ''qrz''\<rparr>"

theorem profile_update_confined_witness:
  "list_all2 (\<lambda>u u'. uPassword u = ''secret-1'' \<and> uPassword u' = ''secret-22'' \<and> uPermission u' = uPermission u)
     (t_rows (users annStore)) (t_rows (users (snd (handleAPIUpdateProfile demoLogin (Some annSession) (Some newPassword) annStore))))"
proof -
  obtain a s' where run: "handleAPIUpdateProfile demoLogin (Some annSession) (Some newPassword) annStore = (a, s')" by fastforce
  have "store_ok annStore" unfolding annStore_def by (intro CreateUser_ok store_empty_ok)
  note conf = profile_update_confined [OF this run, THEN conjunct1]
  have "list_all (\<lambda>u. uID u = 1 \<and> uPassword u = ''secret-1'') (t_rows (users annStore))" by code_simp
  moreover have "list_all (\<lambda>u. uPassword u = ''secret-22'')
      (t_rows (users (snd (handleAPIUpdateProfile demoLogin (Some annSession) (Some newPassword) annStore))))" by code_simp
  ultimately show ?thesis
    using conf unfolding run snd_conv list_all_iff
    by (elim list.rel_mono_strong) (auto simp: annSession_def)
qed

lemma avatar_served_witness:
  "handleAPIGetAvatar \<lparr>rqMethod = ''GET'', rqPath = [], rqURI = [], rqHost = [], rqRemoteAddr = [], rqTLS = False, rqHeader = [],
     rqCookies = [], rqForm = [], rqParam = [(''id'', ''1'')]\<rparr>
     (snd (handleAPIUploadAvatar demoLogin (Some annSession) [CHR 0xFF, CHR 0xD8, CHR 0xFF, CHR 0xE0] annStore))
   = Body ''image/jpeg'' [CHR 0xFF, CHR 0xD8, CHR 0xFF, CHR 0xE0]"
proof -
  let ?data = "[CHR 0xFF, CHR 0xD8, CHR 0xFF, CHR 0xE0]"
  let ?r = "\<lparr>rqMethod = ''GET'', rqPath = [], rqURI = [], rqHost = [], rqRemoteAddr = [], rqTLS = False, rqHeader = [],
     rqCookies = [], rqForm = [], rqParam = [(''id'', ''1'')]\<rparr>"
  have jpeg: "isJPEG ?data" by code_simp
  have "GetUserByID 1 annStore = Inr (hd (urows annStore))" "sUserID annSession = 1" by code_simp+
  moreover have "session_cookie demoLogin (hd (urows annStore)) (avatar_path 1) \<noteq> None" by code_simp
  ultimately have "fst (fst (handleAPIUploadAvatar demoLogin (Some annSession) ?data annStore)) = Json 200 (AvatarSaved (avatar_path 1))"
    using jpeg by (auto simp: handleAPIUploadAvatar_def avatarMaxBytes_def with_session_def annSession_def Let_def split: option.split)
  moreover have "ParseInt (URLParam ''id'' ?r) = Some 1" by code_simp
  ultimately show ?thesis
    using avatar_served [of demoLogin annSession ?data annStore _ ?r 1 None "[]"] jpeg
    by (simp add: Let_def annSession_def image_type_def)
qed

end
