(* ===== verification/Server_Events.thy ===== *)
theory Server_Events
  imports Server_Login Server_Stats Ast_Db
begin

text \<open>
  \<open>internal/server/events.go\<close> and \<open>connections.go\<close>: how the server reacts to the events of the AMI
  clients, the connections of a node from the statistics cache, and the graph page.
\<close>

section \<open>AMI events\<close>

text \<open>\<open>Event.Type\<close>.\<close>

definition event_type :: "headers \<Rightarrow> string" where
  "event_type evt = hget ''Event'' evt"

text \<open>\<open>dtmf\<close> is the JSON coding of a digit message: node, digit, channel.\<close>

definition publish_digit :: "(int \<Rightarrow> string \<Rightarrow> string \<Rightarrow> string) \<Rightarrow> int \<Rightarrow> headers \<Rightarrow> link_server \<Rightarrow> link_server" where
  "publish_digit dtmf nodeID evt sv =
     (let digit = hget ''Digit'' evt in
      if digit = [] then sv
      else sv\<lparr>lvBroker := Publish nodeID (dtmf nodeID digit (hget ''Channel'' evt)) (lvBroker sv)\<rparr>)"

definition handleAMIEvent :: "('s message \<Rightarrow> string) \<Rightarrow> (int \<Rightarrow> string \<Rightarrow> string \<Rightarrow> string) \<Rightarrow> int \<Rightarrow> (int \<Rightarrow> bool)
    \<Rightarrow> (int \<Rightarrow> ami_error + headers) \<Rightarrow> store \<Rightarrow> int \<Rightarrow> headers \<Rightarrow> link_server \<Rightarrow> link_server" where
  "handleAMIEvent json dtmf now connected resp s nodeID evt sv =
     (if event_type evt \<in> set [''NodeConn'', ''NodeDisconn''] then pollNodeLinks json now connected resp s nodeID sv
      else if event_type evt = ''FullyBooted'' then pollNodeLinks json now connected resp s nodeID sv
      else if event_type evt = ''Hangup'' then pollNodeLinks json now connected resp s nodeID sv
      else if event_type evt \<in> set [''DTMF'', ''DTMFBegin'']
      then publish_digit dtmf nodeID evt sv
      else sv)"

text \<open>The listener takes the events off its channel one after the other, with the database and the
  connections as they are at each.\<close>

definition event_loop :: "('s message \<Rightarrow> string) \<Rightarrow> (int \<Rightarrow> string \<Rightarrow> string \<Rightarrow> string) \<Rightarrow>
    (int \<times> (int \<Rightarrow> bool) \<times> (int \<Rightarrow> ami_error + headers) \<times> store \<times> node_event) list \<Rightarrow> link_server \<Rightarrow> link_server" where
  "event_loop json dtmf evs sv =
     fold (\<lambda>(now, connected, resp, s, ne) sv. handleAMIEvent json dtmf now connected resp s (fst ne) (snd ne) sv) evs sv"

section \<open>Connections\<close>

record connEntry =
  ceNodeNumber :: string
  ceCallsign :: string
  ceDescription :: string
  ceLocation :: string
  ceKeyed :: bool

record connResponse =
  crNodeNumber :: string
  crCallsign :: string
  crLCnt :: nat
  crConnections :: "connEntry list"
  crBubbleChartURL :: string
  crCacheAgeSeconds :: int

definition conn_entry :: "ast_db \<Rightarrow> stats_map \<Rightarrow> string \<Rightarrow> connEntry" where
  "conn_entry ast stats ln =
     (let e = (case Lookup ln ast of
          None \<Rightarrow> \<lparr>ceNodeNumber = ln, ceCallsign = [], ceDescription = [], ceLocation = [], ceKeyed = False\<rparr>
        | Some n \<Rightarrow> \<lparr>ceNodeNumber = ln, ceCallsign = anCallsign n, ceDescription = anDescription n,
            ceLocation = anLocation n, ceKeyed = False\<rparr>)
      in case map_of stats ln of None \<Rightarrow> e | Some ls \<Rightarrow> e\<lparr>ceKeyed := asKeyed ls\<rparr>)"

definition handleAPIConnections :: "int \<Rightarrow> ast_db \<Rightarrow> stats_map \<Rightarrow> request \<Rightarrow> connResponse reply" where
  "handleAPIConnections now ast stats r =
     (if ParseInt (URLParam ''id'' r) = None then HttpError 400 ''invalid node id''
      else let nodeNumber = URLParam ''nodeNumber'' r in
        if nodeNumber = [] then HttpError 400 ''node number required''
        else let resp = \<lparr>crNodeNumber = nodeNumber, crCallsign = [], crLCnt = 0, crConnections = [],
                   crBubbleChartURL = ''https://stats.allstarlink.org/getstatus.cgi?'' @ nodeNumber,
                   crCacheAgeSeconds = - 1\<rparr>
             in (case map_of stats nodeNumber of
                   None \<Rightarrow> Json 200 resp
                 | Some st \<Rightarrow>
                     if asError st \<noteq> [] then Json 200 resp
                     else Json 200 (resp\<lparr>crCallsign := asCallsign st, crLCnt := asConnectedLinks st,
                            crCacheAgeSeconds := now - asFetchedAt st,
                            crConnections := map (conn_entry ast stats) (asLinkedNodes st)\<rparr>)))"

text \<open>The home node of the graph is the first enabled node, or the first.\<close>

definition handleGraphPage :: "server_env \<Rightarrow> Session option \<Rightarrow> request \<Rightarrow> store \<Rightarrow> page reply" where
  "handleGraphPage env ctx r s =
     (let nodeNumber = URLParam ''nodeNumber'' r; ns = ListNodes s in
      if nodeNumber = [] then HttpError 400 ''node number required''
      else if ns = [] then HttpError 404 ''no nodes configured''
      else let found = (case find nEnabled ns of None \<Rightarrow> 0 | Some n \<Rightarrow> nID n);
               homeNodeID = (if found = 0 then nID (hd ns) else found)
           in Page 200 ''graph'' (GraphPage (fillSession ctx (newPageData env)) nodeNumber homeNodeID))"

section \<open>An event concerns its node\<close>

lemma links_get_set: "j \<noteq> i \<Longrightarrow> links_get j (snd (links_set now i m c)) = links_get j c"
  by (simp add: links_set_def links_get_def Let_def split: prod.split option.split)

lemma poll_confined: "j \<noteq> i \<Longrightarrow> links_get j (lvLinks (pollNodeLinks json now connected resp s i sv)) = links_get j (lvLinks sv)"
  using links_get_set [of j i now _ "lvLinks sv"]
  by (simp add: pollNodeLinks_def pollNodeLinksInner_whole Let_def split: sum.split prod.split) (metis snd_conv)

lemma event_confined:
  "j \<noteq> nodeID \<Longrightarrow> links_get j (lvLinks (handleAMIEvent json dtmf now connected resp s nodeID evt sv)) = links_get j (lvLinks sv)"
  by (simp add: handleAMIEvent_def publish_digit_def Let_def poll_confined)

lemma event_other_type:
  "event_type evt \<notin> set [''NodeConn'', ''NodeDisconn'', ''FullyBooted'', ''Hangup'', ''DTMF'', ''DTMFBegin''] \<Longrightarrow>
     handleAMIEvent json dtmf now connected resp s nodeID evt sv = sv"
  by (simp add: handleAMIEvent_def)

text \<open>A node that is disabled, disconnected or gone is not polled: its events, digits apart, change nothing.\<close>

lemma event_of_absent_node:
  assumes "case GetNodeByID nodeID s of Inl e \<Rightarrow> True | Inr n \<Rightarrow> \<not> nEnabled n \<or> \<not> connected nodeID"
  shows "lvLinks (handleAMIEvent json dtmf now connected resp s nodeID evt sv) = lvLinks sv"
  using assms by (auto simp: handleAMIEvent_def publish_digit_def pollNodeLinks_def Let_def split: sum.splits)

text \<open>Every linked node of a node with good statistics is one entry of its connections, in that order.\<close>

lemma connections_complete:
  assumes "map_of stats num = Some st" and "asError st = []" and "num \<noteq> []"
    and "ParseInt (URLParam ''id'' r) \<noteq> None" and "URLParam ''nodeNumber'' r = num"
  shows "\<exists>c. handleAPIConnections now ast stats r = Json 200 c \<and> map ceNodeNumber (crConnections c) = asLinkedNodes st"
proof -
  have "ceNodeNumber (conn_entry ast stats ln) = ln" for ln
    by (simp add: conn_entry_def Let_def split: option.split)
  then show ?thesis using assms by (simp add: handleAPIConnections_def Let_def comp_def)
qed

end
