(* ===== verification/Server_Backup.thy ===== *)
theory Server_Backup
  imports Server_Login Backup_File
begin

text \<open>
  The backup handlers of \<open>internal/server/backup.go\<close>: the page, the download, the inspection and the
  restore of an uploaded file. The exit of the process after a restore is the flag of its result.
\<close>

datatype backup_answer = BackupManifest Manifest | Restored string

definition handleBackupPage :: "server_env \<Rightarrow> Session option \<Rightarrow> store \<Rightarrow> page reply" where
  "handleBackupPage env ctx s = Page 200 ''backup'' (NodesPage (fillSession ctx (newPageData env)) (ListNodes s) None)"

text \<open>The passphrase of a body that does not decode is empty. \<open>stamp\<close> is the time of the manifest in the
  format of file names; the result has the header that names the download.\<close>

definition handleAPIBackup :: "codec \<Rightarrow> backup_env \<Rightarrow> string \<Rightarrow> string \<Rightarrow> string option \<Rightarrow> backup_answer reply \<times> string" where
  "handleAPIBackup cd benv version stamp body =
     (case Create cd benv version (case body of None \<Rightarrow> [] | Some passphrase \<Rightarrow> passphrase) of
        (data, manifest) \<Rightarrow>
          (Body ''application/octet-stream'' data, ''attachment; filename=yaamon-'' @ stamp @ ''.owbackup''))"

definition backupMaxBytes :: nat where "backupMaxBytes = 512 * 2 ^ 20"

definition too_large :: string where
  "too_large = ''read error: http: request body too large''"

text \<open>\<open>text\<close> is the message of an error.\<close>

definition handleAPIBackupInspect :: "codec \<Rightarrow> (backup_error \<Rightarrow> string) \<Rightarrow> string \<Rightarrow> backup_answer reply" where
  "handleAPIBackupInspect cd err data =
     (if backupMaxBytes < length data then HttpError 400 too_large
      else (case Inspect cd data of
          Inl e \<Rightarrow> HttpError 400 (''invalid backup file: '' @ err e)
        | Inr manifest \<Rightarrow> Json 200 (BackupManifest manifest)))"

definition handleAPIBackupRestore :: "codec \<Rightarrow> backup_env \<Rightarrow> io_result \<Rightarrow> (backup_error \<Rightarrow> string) \<Rightarrow> string \<Rightarrow> string \<Rightarrow> string
    \<Rightarrow> request \<Rightarrow> string \<Rightarrow> (string \<rightharpoonup> string) \<Rightarrow> (backup_answer reply \<times> bool) \<times> (string \<rightharpoonup> string)" where
  "handleAPIBackupRestore cd benv io err dbPath preRestorePath version r data fs =
     (if backupMaxBytes < length data then ((HttpError 400 too_large, False), fs)
      else (case Restore cd benv io dbPath preRestorePath version data (HeaderGet ''X-Backup-Passphrase'' r) fs of
          ((path, Some e), fs') \<Rightarrow> ((HttpError 500 (''restore failed: '' @ err e), False), fs')
        | ((path, None), fs') \<Rightarrow> ((Json 200 (Restored path), True), fs')))"

text \<open>The process ends exactly after a restore that has replaced the database.\<close>

lemma restart_only_after_restore:
  assumes "handleAPIBackupRestore cd benv io err dbPath pre version r data fs = ((a, restart), fs')"
    and "dbPath \<notin> {pre, ioTempName io}" and "pre \<noteq> ioTempName io" and "fs (ioTempName io) = None"
  shows "if restart then a = Json 200 (Restored pre) \<and> fs' pre \<noteq> None else fs' dbPath = fs dbPath"
  using assms Restore_failed [where io = io and dbPath = dbPath and pre = pre and fs = fs, OF _ assms(2-4)]
    Restore_succeeded [where io = io and dbPath = dbPath and pre = pre and fs = fs, OF _ assms(2-4)]
  by (fastforce simp: handleAPIBackupRestore_def split: if_splits prod.splits option.splits)

end
