(* ===== verification/Qrz_Client.thy ===== *)
theory Qrz_Client
  imports Db_Nodes
begin

text \<open>
  \<open>internal/qrz/client.go\<close> and \<open>callook.go\<close>: callsign lookups at QRZ.com, with its login sessions, and at
  callook.info, with the cache of a client. An HTTP exchange is a parameter: its answer to the
  request number \<open>k\<close> of a lookup with its parameters, a text for an error. Times are nanoseconds.
\<close>

section \<open>Records and clients\<close>

record qrz_record =
  qrCallsign :: string
  qrFirstName :: string
  qrLastName :: string
  qrAddress :: string
  qrState :: string
  qrCountry :: string
  qrEmail :: string
  qrPhone :: string
  qrClass :: string
  qrSource :: string
  qrFetchedAt :: int

definition CacheTTL :: int where
  "CacheTTL = 30 * 24 * 3600 * 1000000000"

definition qrz_stale :: "int \<Rightarrow> qrz_record \<Rightarrow> bool" where
  "qrz_stale now r \<longleftrightarrow> CacheTTL < now - qrFetchedAt r"

record qrz_client =
  qcUsername :: string
  qcPassword :: string
  qcSessionKey :: string
  qcCache :: "(string \<times> qrz_record) list"

definition newQRZ :: "string \<Rightarrow> string \<Rightarrow> qrz_client" where
  "newQRZ username password = \<lparr>qcUsername = username, qcPassword = password, qcSessionKey = [], qcCache = []\<rparr>"

definition ClearCache :: "qrz_client \<Rightarrow> qrz_client" where
  "ClearCache c = c\<lparr>qcCache := []\<rparr>"

definition Seed :: "int \<Rightarrow> (string \<times> qrz_record) list \<Rightarrow> qrz_client \<Rightarrow> qrz_client" where
  "Seed now records c = c\<lparr>qcCache := fold (\<lambda>cr m. if qrz_stale now (snd cr) then m else kv_upsert (fst cr) (snd cr) m)
     records (qcCache c)\<rparr>"

definition Configured :: "qrz_client \<Rightarrow> bool" where
  "Configured c \<longleftrightarrow> qcUsername c \<noteq> [] \<and> qcPassword c \<noteq> []"

definition SetCredentials :: "string \<Rightarrow> string \<Rightarrow> qrz_client \<Rightarrow> qrz_client" where
  "SetCredentials username password c = c\<lparr>qcUsername := username, qcPassword := password, qcSessionKey := []\<rparr>"

section \<open>Requests\<close>

record qrz_response =
  rsKey :: string
  rsError :: string
  rsRecord :: qrz_record

type_synonym qrz_web = "nat \<Rightarrow> (string \<times> string) list \<Rightarrow> string + qrz_response"

datatype qrz_error =
    AuthFailure string
  | NoSessionKey
  | LookupFailure string string
  | CallookFailure string
  | CallookNotFound string

text \<open>\<open>k\<close> requests have been made; the result has their new number.\<close>

definition ensureSession :: "qrz_web \<Rightarrow> nat \<times> qrz_client \<Rightarrow> (qrz_error + string) \<times> nat \<times> qrz_client" where
  "ensureSession web st =
     (case st of (k, c) \<Rightarrow>
        if qcSessionKey c \<noteq> [] then (Inr (qcSessionKey c), k, c)
        else (case web k [(''username'', qcUsername c), (''password'', qcPassword c)] of
            Inl e \<Rightarrow> (Inl (AuthFailure e), k + 1, c)
          | Inr resp \<Rightarrow>
              if rsError resp \<noteq> [] then (Inl (AuthFailure (rsError resp)), k + 1, c)
              else if rsKey resp = [] then (Inl NoSessionKey, k + 1, c)
              else (Inr (rsKey resp), k + 1, c\<lparr>qcSessionKey := rsKey resp\<rparr>)))"

definition lookupCallsign :: "qrz_web \<Rightarrow> int \<Rightarrow> nat \<Rightarrow> string \<Rightarrow> string \<Rightarrow> qrz_error + qrz_record" where
  "lookupCallsign web now k sessionKey callsign =
     (case web k [(''s'', sessionKey), (''callsign'', callsign)] of
        Inl e \<Rightarrow> Inl (LookupFailure callsign e)
      | Inr resp \<Rightarrow>
          if rsError resp \<noteq> [] then Inl (LookupFailure callsign (rsError resp))
          else Inr ((rsRecord resp)\<lparr>qrFetchedAt := now, qrSource := ''qrz''\<rparr>))"

text \<open>A failing lookup is tried once more with a new session; the error of a failing login is then the
  first lookup's.\<close>

definition fetch :: "qrz_web \<Rightarrow> int \<Rightarrow> string \<Rightarrow> qrz_client \<Rightarrow> (qrz_error + qrz_record) \<times> nat \<times> qrz_client" where
  "fetch web now callsign c =
     (case ensureSession web (0, c) of
        (Inl e, k, c1) \<Rightarrow> (Inl e, k, c1)
      | (Inr key, k, c1) \<Rightarrow> (case lookupCallsign web now k key callsign of
          Inr rec \<Rightarrow> (Inr rec, k + 1, c1)
        | Inl e \<Rightarrow> (case ensureSession web (k + 1, c1\<lparr>qcSessionKey := []\<rparr>) of
            (Inl e2, k2, c2) \<Rightarrow> (Inl e, k2, c2)
          | (Inr key2, k2, c2) \<Rightarrow> (lookupCallsign web now k2 key2 callsign, k2 + 1, c2))))"

section \<open>Cached lookups\<close>

definition cached :: "int \<Rightarrow> string \<Rightarrow> qrz_client \<Rightarrow> qrz_record option" where
  "cached now callsign c =
     (case map_of (qcCache c) callsign of None \<Rightarrow> None | Some r \<Rightarrow> if qrz_stale now r then None else Some r)"

text \<open>What follows a fetch: the cache, and the database when there is a saver and the record encodes.
  \<open>fetched\<close> is the result of the fetch, \<open>k\<close> the requests it took.\<close>

definition keep_record :: "(qrz_record \<Rightarrow> string option) option \<Rightarrow> string \<Rightarrow> (qrz_error + qrz_record) \<times> nat \<times> qrz_client \<Rightarrow> store
    \<Rightarrow> (qrz_error + qrz_record) \<times> nat \<times> qrz_client \<times> store" where
  "keep_record saver callsign fetched s =
     (case fetched of
        (Inl e, k, c) \<Rightarrow> (Inl e, k, c, s)
      | (Inr rec, k, c) \<Rightarrow>
          (Inr rec, k, c\<lparr>qcCache := kv_upsert callsign rec (qcCache c)\<rparr>,
           case saver of
             None \<Rightarrow> s
           | Some marshal \<Rightarrow> (case marshal rec of None \<Rightarrow> s | Some raw \<Rightarrow> SaveQRZRecord callsign raw (qrFetchedAt rec) s)))"

definition QRZLookup :: "qrz_web \<Rightarrow> int \<Rightarrow> (qrz_record \<Rightarrow> string option) option \<Rightarrow> string \<Rightarrow> qrz_client \<times> store
    \<Rightarrow> (qrz_error + qrz_record) \<times> nat \<times> qrz_client \<times> store" where
  "QRZLookup web now saver callsign cs =
     (case cached now callsign (fst cs) of
        Some rec \<Rightarrow> (Inr rec, 0, fst cs, snd cs)
      | None \<Rightarrow> keep_record saver callsign (fetch web now callsign (fst cs)) (snd cs))"

section \<open>callook.info\<close>

record callookResponse =
  cbStatus :: string
  cbOperClass :: string
  cbName :: string
  cbLine2 :: string
  cbCountry :: string

text \<open>The texts are ASCII, as are the case mappings.\<close>

definition title_word :: "string \<Rightarrow> string" where
  "title_word w = ToUpper (take 1 w) @ drop 1 w"

definition titleCase :: "string \<Rightarrow> string" where
  "titleCase s = Join (map title_word (Fields (ToLower s))) '' ''"

definition splitName :: "string \<Rightarrow> string \<times> string" where
  "splitName name =
     (let parts = Fields name in
      if parts = [] then ([], [])
      else if length parts = 1 then ([], hd parts)
      else (Join (butlast parts) '' '', last parts))"

definition parseState :: "string \<Rightarrow> string" where
  "parseState line2 =
     (let parts = SplitN line2 (CHR '','') 2 in
      if length parts < 2 then []
      else let fields = Fields (parts ! 1) in
        if fields = [] then []
        else let st = ToUpper (hd fields) in if length st = 2 then st else [])"

definition callook_record :: "int \<Rightarrow> string \<Rightarrow> callookResponse \<Rightarrow> qrz_record" where
  "callook_record now callsign r =
     (case splitName (titleCase (cbName r)) of (first, lst) \<Rightarrow>
        \<lparr>qrCallsign = ToUpper callsign, qrFirstName = first, qrLastName = lst, qrAddress = titleCase (cbLine2 r),
         qrState = parseState (cbLine2 r), qrCountry = (if cbCountry r = [] then ''United States'' else cbCountry r),
         qrEmail = [], qrPhone = [], qrClass = cbOperClass r, qrSource = ''callook'', qrFetchedAt = now\<rparr>)"

text \<open>\<open>get\<close> is the exchange for a URL with the decoding of its body.\<close>

definition fetchCallook :: "(string \<Rightarrow> string + callookResponse) \<Rightarrow> int \<Rightarrow> string \<Rightarrow> qrz_error + qrz_record" where
  "fetchCallook get now callsign =
     (case get (''https://callook.info/'' @ ToUpper callsign @ ''/json'') of
        Inl e \<Rightarrow> Inl (CallookFailure e)
      | Inr r \<Rightarrow> if cbStatus r \<noteq> ''VALID'' then Inl (CallookNotFound callsign) else Inr (callook_record now callsign r))"

definition LookupCallook :: "(string \<Rightarrow> string + callookResponse) \<Rightarrow> int \<Rightarrow> (qrz_record \<Rightarrow> string option) option \<Rightarrow> string
    \<Rightarrow> qrz_client \<times> store \<Rightarrow> (qrz_error + qrz_record) \<times> nat \<times> qrz_client \<times> store" where
  "LookupCallook get now saver callsign cs =
     (case cached now callsign (fst cs) of
        Some rec \<Rightarrow> (Inr rec, 0, fst cs, snd cs)
      | None \<Rightarrow> keep_record saver callsign (fetchCallook get now callsign, 1, fst cs) (snd cs))"

section \<open>Requests and credentials\<close>

lemma ensureSession_facts:
  assumes "ensureSession web (k, c) = (r, k', c')"
  shows "k' \<le> k + 1" "k \<le> k'" "qcUsername c' = qcUsername c" "qcPassword c' = qcPassword c" "qcCache c' = qcCache c"
    "r = Inr key \<Longrightarrow> key \<noteq> [] \<and> qcSessionKey c' = key" "qcSessionKey c \<noteq> [] \<Longrightarrow> k' = k"
  using assms by (auto simp: ensureSession_def split: if_splits sum.splits)

lemma fetch_facts:
  assumes "fetch web now callsign c = (r, k, c')"
  shows "k \<le> 4 \<and> qcUsername c' = qcUsername c \<and> qcPassword c' = qcPassword c \<and> qcCache c' = qcCache c"
proof -
  obtain r1 k1 c1 where e1: "ensureSession web (0, c) = (r1, k1, c1)" by (metis prod_cases3)
  note f1 = ensureSession_facts [OF e1]
  show ?thesis
  proof (cases r1)
    case (Inl e)
    then show ?thesis using assms f1 by (auto simp: fetch_def e1)
  next
    case (Inr key)
    obtain r2 k2 c2 where e2: "ensureSession web (k1 + 1, c1\<lparr>qcSessionKey := []\<rparr>) = (r2, k2, c2)" by (metis prod_cases3)
    note f2 = ensureSession_facts [OF e2]
    show ?thesis
      using assms f1 f2 Inr by (auto simp: fetch_def e1 e2 [simplified] split: sum.splits)
  qed
qed

lemma keep_record_facts:
  "keep_record saver callsign (f, k0, c0) s = (r, k, c, s') \<Longrightarrow> r = f \<and> k = k0 \<and> qcUsername c = qcUsername c0
     \<and> qcPassword c = qcPassword c0 \<and> map_of (qcCache c) = (map_of (qcCache c0))(callsign := (case f of Inl e \<Rightarrow> map_of (qcCache c0) callsign | Inr rec \<Rightarrow> Some rec))
     \<and> users s' = users s"
  by (auto simp: keep_record_def SaveQRZRecord_def split: sum.splits option.splits)

text \<open>A lookup answers a fresh cached record without any request; otherwise it makes at most four
  requests, keeps the credentials, and changes the cache only by the record it returns.\<close>

lemma QRZLookup_spec:
  assumes "QRZLookup web now saver callsign (c, s) = (r, k, c', s')"
  shows "(case cached now callsign c of
      Some rec \<Rightarrow> r = Inr rec \<and> k = 0 \<and> c' = c \<and> s' = s
    | None \<Rightarrow> k \<le> 4 \<and> map_of (qcCache c') = (case r of Inl e \<Rightarrow> map_of (qcCache c) | Inr rec \<Rightarrow> (map_of (qcCache c))(callsign \<mapsto> rec)))
    \<and> qcUsername c' = qcUsername c \<and> qcPassword c' = qcPassword c"
proof (cases "cached now callsign c")
  case None
  obtain f k0 c0 where f: "fetch web now callsign c = (f, k0, c0)" by (metis prod_cases3)
  have "keep_record saver callsign (f, k0, c0) s = (r, k, c', s')"
    using assms None by (simp add: QRZLookup_def f)
  from keep_record_facts [OF this] fetch_facts [OF f] show ?thesis
    by (auto simp: None split: sum.split)
qed (use assms in \<open>simp add: QRZLookup_def\<close>)

lemma QRZLookup_spec_witness:
  "fst (snd (QRZLookup (\<lambda>k ps. Inl ''down'') 0 None ''W1AW'' (newQRZ ''ann'' ''pw'', store_empty))) \<le> 4"
proof -
  obtain r k c s where run: "QRZLookup (\<lambda>k ps. Inl ''down'') 0 None ''W1AW'' (newQRZ ''ann'' ''pw'', store_empty) = (r, k, c, s)"
    by (metis prod_cases4)
  have "cached 0 ''W1AW'' (newQRZ ''ann'' ''pw'') = None" by code_simp
  then show ?thesis using QRZLookup_spec [OF run] by (simp add: run)
qed

lemma keep_record_ok: "store_ok s \<Longrightarrow> keep_record saver callsign f s = (r, k, c, s') \<Longrightarrow> store_ok s'"
  by (auto simp: keep_record_def cache_ops_ok split: sum.splits option.splits prod.splits)

text \<open>What a lookup leaves alone.\<close>

lemma QRZLookup_keeps:
  assumes "QRZLookup web now saver callsign (c, s) = (r, k, c', s')"
  shows "qcUsername c' = qcUsername c" "qcPassword c' = qcPassword c" "users s' = users s" "store_ok s \<Longrightarrow> store_ok s'"
proof -
  obtain f k0 c0 where f: "fetch web now callsign c = (f, k0, c0)" by (metis prod_cases3)
  show "qcUsername c' = qcUsername c" "qcPassword c' = qcPassword c" "users s' = users s" "store_ok s \<Longrightarrow> store_ok s'"
    using assms fetch_facts [OF f] keep_record_facts [of saver callsign f k0 c0 s r k c' s'] keep_record_ok [of s saver callsign "(f, k0, c0)" r k c' s']
    by (auto simp: QRZLookup_def f split: option.splits)
qed

lemma LookupCallook_keeps:
  assumes "LookupCallook get now saver callsign (c, s) = (r, k, c', s')"
  shows "users s' = users s" "store_ok s \<Longrightarrow> store_ok s'"
  using assms keep_record_facts [of saver callsign "fetchCallook get now callsign" 1 c s r k c' s'] keep_record_ok [of s saver callsign "(fetchCallook get now callsign, 1, c)" r k c' s']
  by (auto simp: LookupCallook_def split: option.splits)

text \<open>A seeded cache gets only records that are still fresh.\<close>

lemma Seed_fresh:
  assumes "map_of (qcCache (Seed now records c)) call = Some r"
  shows "map_of (qcCache c) call = Some r \<or> \<not> qrz_stale now r"
proof -
  have "map_of (fold (\<lambda>cr m. if qrz_stale now (snd cr) then m else kv_upsert (fst cr) (snd cr) m) rs m) call = Some r
    \<Longrightarrow> map_of m call = Some r \<or> \<not> qrz_stale now r" for rs m
  proof (induction rs arbitrary: m)
    case (Cons a rs)
    then show ?case by (auto split: if_splits dest!: Cons.IH)
  qed simp
  with assms show ?thesis by (simp add: Seed_def)
qed

text \<open>A state is two letters or nothing.\<close>

lemma parseState_length: "length (parseState l) \<in> {0, 2}"
  by (simp add: parseState_def Let_def)

lemma callook_example:
  "(let r = callook_record 0 ''w1aw'' \<lparr>cbStatus = ''VALID'', cbOperClass = ''CLUB'', cbName = ''ARRL HQ OPERATORS CLUB'',
       cbLine2 = ''NEWINGTON, CT  06111'', cbCountry = []\<rparr>
    in (qrCallsign r, qrFirstName r, qrLastName r, qrAddress r, qrState r))
   = (''W1AW'', ''Arrl Hq Operators'', ''Club'', ''Newington, Ct 06111'', ''CT'')"
  by code_simp

end
