(* ===== verification/Server_Qrz.thy ===== *)
theory Server_Qrz
  imports Server_Login Qrz_Client Base64
begin

text \<open>
  \<open>internal/server/qrz.go\<close>: callsign lookups by the user's preference, the users' QRZ.com credentials,
  encrypted in the database, and the clients made of them. AES-256-GCM is a parameter, as is the
  JSON coding of a record.
\<close>

section \<open>Encrypted passwords\<close>

text \<open>\<open>csSeal key nonce plaintext\<close> and \<open>csOpen key nonce ciphertext\<close>.\<close>

record cipher_suite =
  csSeal :: "string \<Rightarrow> string \<Rightarrow> string \<Rightarrow> string"
  csOpen :: "string \<Rightarrow> string \<Rightarrow> string \<Rightarrow> string option"

definition NonceSize :: nat where "NonceSize = 12"

definition encryptQRZPassword :: "cipher_suite \<Rightarrow> string \<Rightarrow> string \<Rightarrow> string \<Rightarrow> string" where
  "encryptQRZPassword cs key nonce plaintext = StdEncode (nonce @ csSeal cs key nonce plaintext)"

definition decryptQRZPassword :: "cipher_suite \<Rightarrow> string \<Rightarrow> string \<Rightarrow> string option" where
  "decryptQRZPassword cs key encoded =
     (case StdDecode encoded of
        None \<Rightarrow> None
      | Some ct \<Rightarrow> if length ct < NonceSize then None else csOpen cs key (take NonceSize ct) (drop NonceSize ct))"

text \<open>\<open>sha\<close> is SHA-256.\<close>

definition deriveQRZKey :: "(string \<Rightarrow> string) \<Rightarrow> string \<Rightarrow> string" where
  "deriveQRZKey sha sessionSecret = sha (''qrz:'' @ sessionSecret)"

section \<open>The server's clients\<close>

text \<open>\<open>qsClients\<close> has the QRZ client of a user, \<open>qsCallook\<close> is the client every user shares.\<close>

record qrz_server =
  qsKey :: string
  qsClients :: "(int \<times> qrz_client) list"
  qsCallook :: qrz_client

definition seedQRZCache :: "(string \<Rightarrow> qrz_record option) \<Rightarrow> int \<Rightarrow> store \<Rightarrow> qrz_server \<Rightarrow> qrz_server" where
  "seedQRZCache unmarshal now s sv =
     sv\<lparr>qsCallook := Seed now (List.map_filter (\<lambda>(call, raw). map_option (\<lambda>r. (call, r)) (unmarshal raw)) (LoadQRZCache s)) (qsCallook sv)\<rparr>"

definition init_client :: "cipher_suite \<Rightarrow> string \<Rightarrow> user \<Rightarrow> (int \<times> qrz_client) list \<Rightarrow> (int \<times> qrz_client) list" where
  "init_client cs key u cl =
     (if uQRZUsername u = [] \<or> uQRZPasswordEnc u = [] then cl
      else case decryptQRZPassword cs key (uQRZPasswordEnc u) of
          None \<Rightarrow> cl
        | Some password \<Rightarrow> kv_upsert (uID u) (newQRZ (uQRZUsername u) password) cl)"

definition initQRZ :: "cipher_suite \<Rightarrow> (string \<Rightarrow> qrz_record option) \<Rightarrow> int \<Rightarrow> store \<Rightarrow> qrz_server \<Rightarrow> qrz_server" where
  "initQRZ cs unmarshal now s sv =
     seedQRZCache unmarshal now s (sv\<lparr>qsClients := fold (init_client cs (qsKey sv)) (ListUsers s) (qsClients sv)\<rparr>)"

text \<open>The client of a user, made anew when it is missing.\<close>

definition userQRZClient :: "cipher_suite \<Rightarrow> user \<Rightarrow> qrz_server \<Rightarrow> qrz_client option \<times> qrz_server" where
  "userQRZClient cs u sv =
     (if uQRZUsername u = [] \<or> uQRZPasswordEnc u = [] then (None, sv)
      else case map_of (qsClients sv) (uID u) of
          Some c \<Rightarrow> (Some c, sv)
        | None \<Rightarrow> (case decryptQRZPassword cs (qsKey sv) (uQRZPasswordEnc u) of
            None \<Rightarrow> (None, sv)
          | Some password \<Rightarrow>
              let c = newQRZ (uQRZUsername u) password
              in (Some c, sv\<lparr>qsClients := kv_upsert (uID u) c (qsClients sv)\<rparr>)))"

section \<open>Lookups\<close>

text \<open>\<open>(?i)^[a-z0-9]{3,10}$\<close>; two letters have a case variant beyond ASCII, the long s and the Kelvin sign.\<close>

fun callsign_runes :: "string \<Rightarrow> nat option" where
  "callsign_runes [] = Some 0"
| "callsign_runes (c # s) =
     (if is_digit c \<or> is_letter c then map_option Suc (callsign_runes s)
      else if c = CHR 0xC5 then (case s of d # t \<Rightarrow> if d = CHR 0xBF then map_option Suc (callsign_runes t) else None | [] \<Rightarrow> None)
      else if c = CHR 0xE2 then (case s of
            d # e # t \<Rightarrow> if d = CHR 0x84 \<and> e = CHR 0xAA then map_option Suc (callsign_runes t) else None
          | _ \<Rightarrow> None)
      else None)"

definition validCallsign :: "string \<Rightarrow> bool" where
  "validCallsign s = (case callsign_runes s of None \<Rightarrow> False | Some n \<Rightarrow> 3 \<le> n \<and> n \<le> 10)"

text \<open>What the packages do for a lookup: the two exchanges, the clock, the coding of a record, the text of
  an error.\<close>

record lookup_env =
  leCipher :: cipher_suite
  leWeb :: qrz_web
  leCallook :: "string \<Rightarrow> string + callookResponse"
  leNow :: int
  leMarshal :: "qrz_record \<Rightarrow> string option"
  leErrorText :: "qrz_error \<Rightarrow> string"

datatype qrz_answer = CallRecord qrz_record | QRZSettings string bool | QRZOk

definition lookup_answer :: "lookup_env \<Rightarrow> qrz_error + qrz_record \<Rightarrow> qrz_answer reply" where
  "lookup_answer env r = (case r of Inl e \<Rightarrow> HttpError 502 (''lookup failed: '' @ leErrorText env e) | Inr rec \<Rightarrow> Json 200 (CallRecord rec))"

text \<open>A lookup with the user's own client, which stays in the map, and one with the shared client. QRZ
  data is not saved in the database.\<close>

definition lookup_qrz :: "lookup_env \<Rightarrow> int \<Rightarrow> qrz_client \<Rightarrow> string \<Rightarrow> qrz_server \<times> store \<Rightarrow> qrz_answer reply \<times> qrz_server \<times> store" where
  "lookup_qrz env i c call st =
     (case QRZLookup (leWeb env) (leNow env) None call (c, snd st) of (r, k, c', s') \<Rightarrow>
        (lookup_answer env r, (fst st)\<lparr>qsClients := kv_upsert i c' (qsClients (fst st))\<rparr>, s'))"

definition lookup_callook :: "lookup_env \<Rightarrow> string \<Rightarrow> qrz_server \<times> store \<Rightarrow> qrz_answer reply \<times> qrz_server \<times> store" where
  "lookup_callook env call st =
     (case LookupCallook (leCallook env) (leNow env) (Some (leMarshal env)) call (qsCallook (fst st), snd st) of
        (r, k, c', s') \<Rightarrow> (lookup_answer env r, (fst st)\<lparr>qsCallook := c'\<rparr>, s'))"

definition handleAPIQRZLookup :: "lookup_env \<Rightarrow> Session \<Rightarrow> request \<Rightarrow> qrz_server \<times> store \<Rightarrow> qrz_answer reply \<times> qrz_server \<times> store" where
  "handleAPIQRZLookup env sess r st =
     (let call = URLParam ''callsign'' r in
      if \<not> validCallsign call then (HttpError 400 ''invalid callsign'', st)
      else (case GetUserByID (sUserID sess) (snd st) of
          Inl e \<Rightarrow> (HttpError 404 ''user not found'', st)
        | Inr u \<Rightarrow>
            let source = (if uLookupSource u = [] then ''auto'' else uLookupSource u) in
            if source = ''qrz'' then
              (case userQRZClient (leCipher env) u (fst st) of
                 (None, sv) \<Rightarrow> (HttpError 503 ''QRZ not configured'', sv, snd st)
               | (Some c, sv) \<Rightarrow> lookup_qrz env (uID u) c call (sv, snd st))
            else if source = ''callook'' then lookup_callook env call st
            else (case userQRZClient (leCipher env) u (fst st) of
                (Some c, sv) \<Rightarrow> lookup_qrz env (uID u) c call (sv, snd st)
              | (None, sv) \<Rightarrow> lookup_callook env call (sv, snd st))))"

section \<open>Caches and credentials\<close>

definition handleAPIClearQRZCache :: "qrz_server \<times> store \<Rightarrow> qrz_answer reply \<times> qrz_server \<times> store" where
  "handleAPIClearQRZCache st =
     (Json 200 QRZOk,
      (fst st)\<lparr>qsCallook := ClearCache (qsCallook (fst st)),
               qsClients := map (\<lambda>(i, c). (i, ClearCache c)) (qsClients (fst st))\<rparr>,
      ClearQRZCache (snd st))"

definition handleAPIGetUserQRZ :: "Session \<Rightarrow> store \<Rightarrow> qrz_answer reply" where
  "handleAPIGetUserQRZ sess s =
     (case GetUserByID (sUserID sess) s of
        Inl e \<Rightarrow> HttpError 404 ''user not found''
      | Inr u \<Rightarrow> Json 200 (QRZSettings (uQRZUsername u) (uQRZUsername u \<noteq> [] \<and> uQRZPasswordEnc u \<noteq> [])))"

text \<open>The body is username and password; \<open>nonce\<close> are the random bytes of the encryption.\<close>

definition handleAPISetUserQRZ :: "cipher_suite \<Rightarrow> string \<Rightarrow> Session \<Rightarrow> (string \<times> string) option \<Rightarrow> qrz_server \<times> store
    \<Rightarrow> qrz_answer reply \<times> qrz_server \<times> store" where
  "handleAPISetUserQRZ cs nonce sess body st =
     (case body of
        None \<Rightarrow> (HttpError 400 ''invalid JSON'', st)
      | Some (username, pass) \<Rightarrow>
          if username = [] then (HttpError 400 ''username is required'', st)
          else (case GetUserByID (sUserID sess) (snd st) of
              Inl e \<Rightarrow> (HttpError 404 ''user not found'', st)
            | Inr u \<Rightarrow>
                let encPass = (if pass \<noteq> [] then encryptQRZPassword cs (qsKey (fst st)) nonce pass else uQRZPasswordEnc u) in
                if encPass = [] then (HttpError 400 ''password is required'', st)
                else let s' = UpdateUserQRZ (uID u) username encPass (snd st) in
                  (case decryptQRZPassword cs (qsKey (fst st)) encPass of
                     None \<Rightarrow> (HttpError 500 ''credential error'', fst st, s')
                   | Some password \<Rightarrow>
                       (Json 200 QRZOk,
                        (fst st)\<lparr>qsClients := kv_upsert (uID u) (newQRZ username password) (qsClients (fst st))\<rparr>, s'))))"

definition handleAPIDeleteUserQRZ :: "Session \<Rightarrow> qrz_server \<times> store \<Rightarrow> qrz_answer reply \<times> qrz_server \<times> store" where
  "handleAPIDeleteUserQRZ sess st =
     (Json 200 QRZOk,
      (fst st)\<lparr>qsClients := kv_delete (sUserID sess) (qsClients (fst st))\<rparr>,
      UpdateUserQRZ (sUserID sess) [] [] (snd st))"

definition handleAPIClearUserQRZCache :: "Session \<Rightarrow> qrz_server \<Rightarrow> qrz_answer reply \<times> qrz_server" where
  "handleAPIClearUserQRZCache sess sv =
     (Json 200 QRZOk,
      case map_of (qsClients sv) (sUserID sess) of
        None \<Rightarrow> sv
      | Some c \<Rightarrow> sv\<lparr>qsClients := kv_upsert (sUserID sess) (ClearCache c) (qsClients sv)\<rparr>)"

section \<open>A stored password is read back\<close>

text \<open>What AES-GCM promises: a sealed text opens under the same key and nonce.\<close>

definition opens :: "cipher_suite \<Rightarrow> bool" where
  "opens cs \<longleftrightarrow> (\<forall>key nonce p. length nonce = NonceSize \<longrightarrow> csOpen cs key nonce (csSeal cs key nonce p) = Some p)"

lemma qrz_password_roundtrip:
  "opens cs \<Longrightarrow> length nonce = NonceSize \<Longrightarrow> decryptQRZPassword cs key (encryptQRZPassword cs key nonce p) = Some p"
  by (simp add: decryptQRZPassword_def encryptQRZPassword_def opens_def Std_roundtrip)

section \<open>The clients have the stored credentials\<close>

text \<open>A client in memory belongs to an id that was given out, and while the account exists it has its
  stored user name and the password its stored cipher text decrypts to.\<close>

definition qrz_inv :: "cipher_suite \<Rightarrow> qrz_server \<times> store \<Rightarrow> bool" where
  "qrz_inv cs st \<longleftrightarrow> store_ok (snd st) \<and>
     (\<forall>i c. map_of (qsClients (fst st)) i = Some c \<longrightarrow> i \<le> t_seq (users (snd st)) \<and>
        (\<forall>u. GetUserByID i (snd st) = Inr u \<longrightarrow> qcUsername c = uQRZUsername u \<and>
           decryptQRZPassword cs (qsKey (fst st)) (uQRZPasswordEnc u) = Some (qcPassword c)))"

lemma qrz_invD:
  assumes "qrz_inv cs (sv, s)"
  shows "store_ok s" "map_of (qsClients sv) i = Some c \<Longrightarrow> i \<le> t_seq (users s)"
    "map_of (qsClients sv) i = Some c \<Longrightarrow> GetUserByID i s = Inr u \<Longrightarrow> qcUsername c = uQRZUsername u"
    "map_of (qsClients sv) i = Some c \<Longrightarrow> GetUserByID i s = Inr u \<Longrightarrow>
       decryptQRZPassword cs (qsKey sv) (uQRZPasswordEnc u) = Some (qcPassword c)"
  using assms by (auto simp: qrz_inv_def)

lemma qrz_invI:
  assumes "store_ok s" and "\<And>i c. map_of (qsClients sv) i = Some c \<Longrightarrow> i \<le> t_seq (users s)"
    and "\<And>i c u. map_of (qsClients sv) i = Some c \<Longrightarrow> GetUserByID i s = Inr u \<Longrightarrow>
      qcUsername c = uQRZUsername u \<and> decryptQRZPassword cs (qsKey sv) (uQRZPasswordEnc u) = Some (qcPassword c)"
  shows "qrz_inv cs (sv, s)"
  using assms by (auto simp: qrz_inv_def)

lemma GetUserByID_update:
  assumes "\<And>u. uID (f u) = uID u"
  shows "GetUserByID i (update_user j f s) = (case GetUserByID i s of Inl e \<Rightarrow> Inl e | Inr u \<Rightarrow> Inr (if i = j then f u else u))"
proof -
  have "find (\<lambda>u. uID u = i) (t_rows (users (update_user j f s)))
      = map_option (\<lambda>u. if uID u = j then f u else u) (find (\<lambda>u. uID u = i) (t_rows (users s)))"
    by (simp add: update_user_def find_update_where assms)
  then show ?thesis
    by (auto simp: GetUserByID_def tbl_find_def split: option.split dest: find_SomeD)
qed

lemma GetUserByID_seq: "store_ok s \<Longrightarrow> GetUserByID i s = Inr u \<Longrightarrow> i \<le> t_seq (users s)"
  by (auto simp: store_ok_defs tbl_inv_def dest!: GetUserByID_InrD)

lemma update_user_seq [simp]: "t_seq (users (update_user i f s)) = t_seq (users s)"
  by (simp add: update_user_def)

text \<open>Putting a client with a user's credentials into the map keeps the invariant.\<close>

lemma qrz_inv_put:
  assumes "qrz_inv cs (sv, s)" and "GetUserByID i s = Inr u"
    and "qcUsername c = uQRZUsername u" and "decryptQRZPassword cs (qsKey sv) (uQRZPasswordEnc u) = Some (qcPassword c)"
  shows "qrz_inv cs (sv\<lparr>qsClients := kv_upsert i c (qsClients sv)\<rparr>, s)"
  using assms(2-4) qrz_invD [OF assms(1)] GetUserByID_seq [OF qrz_invD(1) [OF assms(1)] assms(2)]
  by (intro qrz_invI) (auto split: if_splits)

text \<open>What is kept when neither the clients' credentials nor the accounts' change.\<close>

lemma qrz_inv_users:
  assumes "qrz_inv cs (sv, s)" and "users s' = users s" and "store_ok s'"
  shows "qrz_inv cs (sv, s')"
  using assms(2,3) qrz_invD [OF assms(1)] by (intro qrz_invI) (auto simp: GetUserByID_def)

lemma qrz_inv_callook: "qrz_inv cs (sv\<lparr>qsCallook := c\<rparr>, s) = qrz_inv cs (sv, s)"
  by (simp add: qrz_inv_def)

section \<open>The operations keep it\<close>

lemma init_clients:
  "map_of (fold (init_client cs key) us cl) i = Some c \<Longrightarrow> map_of cl i = Some c \<or>
     (\<exists>u \<in> set us. uID u = i \<and> qcUsername c = uQRZUsername u \<and> decryptQRZPassword cs key (uQRZPasswordEnc u) = Some (qcPassword c))"
proof (induction us arbitrary: cl)
  case (Cons u us)
  then have "map_of (fold (init_client cs key) us (init_client cs key u cl)) i = Some c" by simp
  from Cons.IH [OF this] show ?case
    by (auto simp: init_client_def newQRZ_def split: if_splits option.splits)
qed simp

lemma start_inv:
  assumes "store_ok s"
  shows "qrz_inv cs (initQRZ cs unmarshal now s \<lparr>qsKey = key, qsClients = [], qsCallook = c0\<rparr>, s)"
proof (rule qrz_invI [OF assms])
  let ?sv = "initQRZ cs unmarshal now s \<lparr>qsKey = key, qsClients = [], qsCallook = c0\<rparr>"
  have users: "users_ok s" using assms by (simp add: store_ok_def)
  fix i c assume "map_of (qsClients ?sv) i = Some c"
  then obtain u where u: "u \<in> set (t_rows (users s))" "uID u = i" "qcUsername c = uQRZUsername u"
    "decryptQRZPassword cs key (uQRZPasswordEnc u) = Some (qcPassword c)"
    using init_clients [of cs key "ListUsers s" "[]" i c] by (auto simp: initQRZ_def seedQRZCache_def)
  then have get: "GetUserByID i s = Inr u" using GetUserByID_iff [OF users] by blast
  then show "i \<le> t_seq (users s)" by (rule GetUserByID_seq [OF assms])
  fix u' assume "GetUserByID i s = Inr u'"
  then show "qcUsername c = uQRZUsername u' \<and> decryptQRZPassword cs (qsKey ?sv) (uQRZPasswordEnc u') = Some (qcPassword c)"
    using get u by (simp add: initQRZ_def seedQRZCache_def)
qed

lemma userQRZClient_inv:
  assumes "qrz_inv cs (sv, s)" and "GetUserByID i s = Inr u" and "userQRZClient cs u sv = (oc, sv')"
  shows "qrz_inv cs (sv', s) \<and> qsKey sv' = qsKey sv \<and> (\<forall>c. oc = Some c \<longrightarrow> qcUsername c = uQRZUsername u
    \<and> decryptQRZPassword cs (qsKey sv) (uQRZPasswordEnc u) = Some (qcPassword c))"
proof -
  from assms(2) have i: "uID u = i" by (blast dest: GetUserByID_InrD)
  show ?thesis
    using assms qrz_invD(3,4) [OF assms(1) _ assms(2)] qrz_inv_put [OF assms(1,2), of "newQRZ (uQRZUsername u) _"]
    by (auto simp: userQRZClient_def i Let_def newQRZ_def split: if_splits option.splits)
qed

lemma lookup_qrz_inv:
  assumes "qrz_inv cs (sv, s)" and "GetUserByID i s = Inr u"
    and "qcUsername c = uQRZUsername u" and "decryptQRZPassword cs (qsKey sv) (uQRZPasswordEnc u) = Some (qcPassword c)"
  shows "qrz_inv cs (snd (lookup_qrz env i c call (sv, s)))"
proof -
  obtain r k c' s' where run: "QRZLookup (leWeb env) (leNow env) None call (c, s) = (r, k, c', s')" by (metis prod_cases4)
  note k = QRZLookup_keeps [OF run]
  have "qrz_inv cs (sv, s')" using qrz_inv_users [OF assms(1) k(3)] k(4) qrz_invD(1) [OF assms(1)] by simp
  moreover have "GetUserByID i s' = Inr u" using assms(2) k(3) by (simp add: GetUserByID_def)
  ultimately have "qrz_inv cs (sv\<lparr>qsClients := kv_upsert i c' (qsClients sv)\<rparr>, s')"
    by (rule qrz_inv_put) (use k(1,2) assms(3,4) in simp_all)
  then show ?thesis by (simp add: lookup_qrz_def run)
qed

lemma lookup_callook_inv:
  assumes "qrz_inv cs (sv, s)"
  shows "qrz_inv cs (snd (lookup_callook env call (sv, s)))"
proof -
  obtain r k c' s' where run: "LookupCallook (leCallook env) (leNow env) (Some (leMarshal env)) call (qsCallook sv, s) = (r, k, c', s')"
    by (metis prod_cases4)
  note k = LookupCallook_keeps [OF run]
  have "qrz_inv cs (sv, s')" using qrz_inv_users [OF assms k(1)] k(2) qrz_invD(1) [OF assms] by simp
  then show ?thesis by (simp add: lookup_callook_def run qrz_inv_callook)
qed

lemma lookup_inv:
  assumes "qrz_inv (leCipher env) st"
  shows "qrz_inv (leCipher env) (snd (handleAPIQRZLookup env sess r st))"
proof (cases "GetUserByID (sUserID sess) (snd st)")
  case (Inl e)
  then show ?thesis using assms by (simp add: handleAPIQRZLookup_def Let_def)
next
  case (Inr u)
  obtain sv s where st: "st = (sv, s)" by fastforce
  obtain oc sv' where c: "userQRZClient (leCipher env) u sv = (oc, sv')" by fastforce
  have "uID u = sUserID sess" using GetUserByID_InrD [OF Inr] by simp
  then have i: "GetUserByID (uID u) s = Inr u" using Inr st by simp
  note u = userQRZClient_inv [OF assms [unfolded st] i c]
  have "qrz_inv (leCipher env) (snd (lookup_qrz env (uID u) c' call (sv', s)))" if "oc = Some c'" for c' call
    using u that by (intro lookup_qrz_inv [OF _ i]) auto
  then show ?thesis
    using Inr u lookup_callook_inv assms by (simp add: handleAPIQRZLookup_def st c Let_def split: option.split)
qed

text \<open>An edit of one account that gives it the credentials of a new client, or takes its client away.\<close>

lemma qrz_set_inv:
  assumes "qrz_inv cs st" and "opens cs" and "length nonce = NonceSize"
  shows "qrz_inv cs (snd (handleAPISetUserQRZ cs nonce sess body st))"
proof (cases "snd (handleAPISetUserQRZ cs nonce sess body st) = st")
  case False
  obtain sv s where st: "st = (sv, s)" by fastforce
  note inv = assms(1) [unfolded st]
  from False obtain username pass u where b: "body = Some (username, pass)" and u: "GetUserByID (sUserID sess) s = Inr u"
    by (auto simp: handleAPISetUserQRZ_def st split: option.splits sum.splits if_splits)
  let ?i = "uID u"
  have i: "GetUserByID ?i s = Inr u" using u GetUserByID_InrD [OF u] by simp
  define enc where "enc = (if pass \<noteq> [] then encryptQRZPassword cs (qsKey sv) nonce pass else uQRZPasswordEnc u)"
  let ?s = "UpdateUserQRZ ?i username enc s"
  have ok: "store_ok ?s" using qrz_invD(1) [OF inv] by (rule update_user_family_ok)
  have get: "GetUserByID j ?s = (case GetUserByID j s of Inl e \<Rightarrow> Inl e
      | Inr v \<Rightarrow> Inr (if j = ?i then v\<lparr>uQRZUsername := username, uQRZPasswordEnc := enc\<rparr> else v))" for j
    unfolding UpdateUserQRZ_def by (rule GetUserByID_update) simp
  have seq: "t_seq (users ?s) = t_seq (users s)" by (simp add: UpdateUserQRZ_def)
  have le: "?i \<le> t_seq (users s)" by (rule GetUserByID_seq [OF qrz_invD(1) [OF inv] i])
  show ?thesis
  proof (cases "decryptQRZPassword cs (qsKey sv) enc")
    case (Some password)
    have "snd (handleAPISetUserQRZ cs nonce sess body st) = (sv\<lparr>qsClients := kv_upsert ?i (newQRZ username password) (qsClients sv)\<rparr>, ?s)"
      using False b u Some by (auto simp: handleAPISetUserQRZ_def st enc_def Let_def split: if_splits)
    moreover have "qrz_inv cs (sv\<lparr>qsClients := kv_upsert ?i (newQRZ username password) (qsClients sv)\<rparr>, ?s)"
      using qrz_invD [OF inv] ok Some le
      by (intro qrz_invI) (auto simp: get seq newQRZ_def split: if_splits sum.splits)
    ultimately show ?thesis by simp
  next
    case None
    then have "pass = []" using qrz_password_roundtrip [OF assms(2,3)] by (auto simp: enc_def split: if_splits)
    then have "map_of (qsClients sv) ?i = None"
      using None qrz_invD(4) [OF inv _ i] by (auto simp: enc_def) (metis not_None_eq option.distinct(1))
    moreover have "snd (handleAPISetUserQRZ cs nonce sess body st) = (sv, ?s)"
      using False b u None by (auto simp: handleAPISetUserQRZ_def st enc_def Let_def split: if_splits)
    moreover have "qrz_inv cs (sv, ?s)" if "map_of (qsClients sv) ?i = None"
      using qrz_invD [OF inv] ok that
      by (intro qrz_invI) (auto simp: get seq split: if_splits sum.splits)
    ultimately show ?thesis by simp
  qed
qed (use assms(1) in simp)

lemma qrz_delete_inv:
  assumes "qrz_inv cs (sv, s)"
  shows "qrz_inv cs (snd (handleAPIDeleteUserQRZ sess (sv, s)))"
proof -
  let ?i = "sUserID sess"
  have get: "GetUserByID j (UpdateUserQRZ ?i [] [] s) = (case GetUserByID j s of Inl e \<Rightarrow> Inl e
      | Inr v \<Rightarrow> Inr (if j = ?i then v\<lparr>uQRZUsername := [], uQRZPasswordEnc := []\<rparr> else v))" for j
    unfolding UpdateUserQRZ_def by (rule GetUserByID_update) simp
  have ok: "store_ok (UpdateUserQRZ ?i [] [] s)" using qrz_invD(1) [OF assms] by (rule update_user_family_ok)
  have "t_seq (users (UpdateUserQRZ ?i [] [] s)) = t_seq (users s)" by (simp add: UpdateUserQRZ_def)
  then show ?thesis
    unfolding handleAPIDeleteUserQRZ_def snd_conv fst_conv using qrz_invD [OF assms] ok
    by (intro qrz_invI) (auto simp: get map_of_kv_delete split: if_splits sum.splits)
qed

lemma map_of_map_clients: "map_of (map (\<lambda>(i, c). (i, f c)) m) i = map_option f (map_of m i)"
  by (induction m) auto

lemma qrz_clear_inv:
  assumes "qrz_inv cs (sv, s)"
  shows "qrz_inv cs (snd (handleAPIClearQRZCache (sv, s)))" "qrz_inv cs (snd (handleAPIClearUserQRZCache sess sv), s)"
proof -
  have ok: "store_ok (ClearQRZCache s)" using qrz_invD(1) [OF assms] by (rule cache_ops_ok)
  have "users (ClearQRZCache s) = users s" by (simp add: ClearQRZCache_def)
  then show "qrz_inv cs (snd (handleAPIClearQRZCache (sv, s)))"
    unfolding handleAPIClearQRZCache_def snd_conv fst_conv using qrz_invD [OF assms] ok
    by (intro qrz_invI) (auto simp: map_of_map_clients ClearCache_def GetUserByID_def)
  show "qrz_inv cs (snd (handleAPIClearUserQRZCache sess sv), s)"
    unfolding handleAPIClearUserQRZCache_def snd_conv using qrz_invD [OF assms]
    by (intro qrz_invI) (auto simp: ClearCache_def split: option.splits if_splits)
qed

text \<open>Other operations on accounts: edits that leave the credentials, creation, deletion.\<close>

lemma edit_inv:
  assumes "qrz_inv cs (sv, s)" and "\<And>u. uID (f u) = uID u \<and> uUsername (f u) = uUsername u
    \<and> uQRZUsername (f u) = uQRZUsername u \<and> uQRZPasswordEnc (f u) = uQRZPasswordEnc u"
  shows "qrz_inv cs (sv, update_user i f s)"
proof -
  have get: "GetUserByID j (update_user i f s) = (case GetUserByID j s of Inl e \<Rightarrow> Inl e | Inr u \<Rightarrow> Inr (if j = i then f u else u))" for j
    by (rule GetUserByID_update) (simp add: assms(2))
  have ok: "store_ok (update_user i f s)" using qrz_invD(1) [OF assms(1)] by (rule update_user_ok) (simp_all add: assms(2))
  show ?thesis
    using ok qrz_invD [OF assms(1)] by (intro qrz_invI) (auto simp: get assms(2) split: if_splits sum.splits)
qed

lemma account_inv:
  assumes "qrz_inv cs (sv, s)"
  shows "qrz_inv cs (sv, DeleteUser i s)" "qrz_inv cs (sv, snd (CreateUser n h p s))"
proof -
  note ok = qrz_invD(1) [OF assms]
  have users: "users_ok s" "users_ok (DeleteUser i s)" "users_ok (snd (CreateUser n h p s))"
    using ok DeleteUser_ok [OF ok, of i] CreateUser_ok [OF ok, of n h p] by (simp_all add: store_ok_def)
  have "GetUserByID j s = Inr u" if "GetUserByID j (DeleteUser i s) = Inr u" for j u
    using that by (simp add: GetUserByID_iff users) (simp add: DeleteUser_def)
  then show "qrz_inv cs (sv, DeleteUser i s)"
    using DeleteUser_ok [OF ok, of i] qrz_invD [OF assms] by (intro qrz_invI) (auto simp: DeleteUser_def)
  have new: "GetUserByID j s = Inr u" if "GetUserByID j (snd (CreateUser n h p s)) = Inr u" "j \<le> t_seq (users s)" for j u
    using that by (simp add: GetUserByID_iff users)
      (auto simp: CreateUser_def Let_def tbl_insert_def split: if_splits)
  have seq: "t_seq (users s) \<le> t_seq (users (snd (CreateUser n h p s)))"
    by (simp add: CreateUser_def Let_def tbl_insert_def)
  show "qrz_inv cs (sv, snd (CreateUser n h p s))"
    using CreateUser_ok [OF ok, of n h p] qrz_invD [OF assms] new seq
    by (intro qrz_invI) (auto intro: order_trans)
qed

text \<open>The life of a server: started on a database, then lookups, edits of credentials and caches, and any
  operation on accounts.\<close>

inductive qrz_run :: "cipher_suite \<Rightarrow> qrz_server \<times> store \<Rightarrow> bool" for cs where
  start: "store_ok s \<Longrightarrow> qrz_run cs (initQRZ cs unmarshal now s \<lparr>qsKey = key, qsClients = [], qsCallook = c0\<rparr>, s)"
| lookup: "qrz_run cs st \<Longrightarrow> leCipher env = cs \<Longrightarrow> qrz_run cs (snd (handleAPIQRZLookup env sess r st))"
| set_credentials: "qrz_run cs st \<Longrightarrow> length nonce = NonceSize \<Longrightarrow> qrz_run cs (snd (handleAPISetUserQRZ cs nonce sess body st))"
| delete_credentials: "qrz_run cs (sv, s) \<Longrightarrow> qrz_run cs (snd (handleAPIDeleteUserQRZ sess (sv, s)))"
| clear_all: "qrz_run cs (sv, s) \<Longrightarrow> qrz_run cs (snd (handleAPIClearQRZCache (sv, s)))"
| clear_own: "qrz_run cs (sv, s) \<Longrightarrow> qrz_run cs (snd (handleAPIClearUserQRZCache sess sv), s)"
| edit_account: "qrz_run cs (sv, s) \<Longrightarrow> (\<And>u. uID (f u) = uID u \<and> uUsername (f u) = uUsername u
    \<and> uQRZUsername (f u) = uQRZUsername u \<and> uQRZPasswordEnc (f u) = uQRZPasswordEnc u) \<Longrightarrow> qrz_run cs (sv, update_user i f s)"
| delete_account: "qrz_run cs (sv, s) \<Longrightarrow> qrz_run cs (sv, DeleteUser i s)"
| create_account: "qrz_run cs (sv, s) \<Longrightarrow> qrz_run cs (sv, snd (CreateUser n h p s))"

lemma qrz_run_inv:
  assumes "qrz_run cs st" and "opens cs"
  shows "qrz_inv cs st"
  using assms(1)
proof (induction rule: qrz_run.induct)
  case (lookup st env sess r)
  then show ?case using lookup_inv [of env st sess r] by simp
next
  case (edit_account sv s f i)
  then show ?case by (intro edit_inv) simp_all
qed (simp_all only: start_inv qrz_set_inv [OF _ assms(2)] qrz_delete_inv qrz_clear_inv account_inv)

text \<open>C18: whatever lookups, changes of credentials, cleared caches and operations on accounts the server goes
  through, a QRZ client it has for an existing account logs in with the user name stored for that account
  and with the password its stored cipher text decrypts to, if AES-GCM opens what it sealed.\<close>

theorem qrz_clients_match_accounts:
  assumes "qrz_run cs (sv, s)" and "\<forall>key nonce p. length nonce = 12 \<longrightarrow> csOpen cs key nonce (csSeal cs key nonce p) = Some p"
    and "map_of (qsClients sv) i = Some c" and "GetUserByID i s = Inr u"
  shows "qcUsername c = uQRZUsername u \<and> decryptQRZPassword cs (qsKey sv) (uQRZPasswordEnc u) = Some (qcPassword c)"
  using qrz_run_inv [OF assms(1)] assms(2) qrz_invD(3,4) [OF _ assms(3,4), of cs] by (simp add: opens_def NonceSize_def)

definition demoSuite :: cipher_suite where
  "demoSuite = \<lparr>csSeal = (\<lambda>key nonce p. rev p), csOpen = (\<lambda>key nonce ct. Some (rev ct))\<rparr>"

definition qrzSession :: Session where
  "qrzSession = \<lparr>sUserID = 1, sUsername = ''ann'', sPermission = ''readonly'', sFullName = [], sAvatarURL = [],
     sExpires = 0, sAuthMethod = [], sExternalUsername = []\<rparr>"

definition qrzStart :: "qrz_server \<times> store" where
  "qrzStart = (let s = snd (CreateUser ''ann'' ''h'' ''readonly'' store_empty)
     in (initQRZ demoSuite (\<lambda>raw. None) 0 s \<lparr>qsKey = ''k'', qsClients = [], qsCallook = newQRZ [] []\<rparr>, s))"

theorem qrz_clients_match_accounts_witness:
  "map_option qcPassword (map_of (qsClients (fst (snd (handleAPISetUserQRZ demoSuite ''0123456789ab'' qrzSession (Some (''W1AW'', ''sesame'')) qrzStart)))) 1)
   = decryptQRZPassword demoSuite ''k'' (StdEncode (''0123456789ab'' @ rev ''sesame''))"
proof -
  let ?st = "snd (handleAPISetUserQRZ demoSuite ''0123456789ab'' qrzSession (Some (''W1AW'', ''sesame'')) qrzStart)"
  have "qrz_run demoSuite ?st"
    unfolding qrzStart_def Let_def
    by (intro qrz_run.set_credentials qrz_run.start CreateUser_ok store_empty_ok) (simp add: NonceSize_def)
  then have run: "qrz_run demoSuite (fst ?st, snd ?st)" by simp
  have open_: "\<forall>key nonce p. length nonce = 12 \<longrightarrow> csOpen demoSuite key nonce (csSeal demoSuite key nonce p) = Some p"
    by (simp add: demoSuite_def)
  obtain c where c: "map_of (qsClients (fst ?st)) 1 = Some c" by (cases "map_of (qsClients (fst ?st)) 1") (code_simp, blast)
  obtain u where u: "GetUserByID 1 (snd ?st) = Inr u" by (cases "GetUserByID 1 (snd ?st)") (code_simp, blast)
  have "map_option uQRZPasswordEnc (case GetUserByID 1 (snd ?st) of Inr u \<Rightarrow> Some u | Inl e \<Rightarrow> None)
      = Some (StdEncode (''0123456789ab'' @ rev ''sesame''))" "qsKey (fst ?st) = ''k''" by code_simp+
  then show ?thesis using qrz_clients_match_accounts [OF run open_ c u] by (simp add: c u)
qed

end
