(* ===== verification/Server_Passkeys.thy ===== *)
theory Server_Passkeys
  imports Server_Login Db_Passkeys
begin

text \<open>
  \<open>internal/server/passkeys.go\<close>: logging in with and registering passkeys, and their list. The WebAuthn
  package is a parameter: an instance of it is the relying party's id and origins, its session data
  and the options it sends are opaque.
\<close>

section \<open>The WebAuthn package\<close>

text \<open>
  \<open>waNew\<close> says whether a configuration is valid. Finishing a login first reads the credential's id and
  the user handle out of the request (\<open>waHandle\<close>), asks the server for that user, and then verifies.
  A credential is its id and its JSON coding; errors are texts.
\<close>

type_synonym wa_config = "string \<times> string list"

record wa_user =
  wuID :: string
  wuName :: string
  wuDisplayName :: string
  wuCredentials :: "string list"

record 'sd wa_lib =
  waNew :: "wa_config \<Rightarrow> bool"
  waBeginLogin :: "wa_config \<Rightarrow> (string \<times> 'sd) option"
  waHandle :: "wa_config \<Rightarrow> 'sd \<Rightarrow> request \<Rightarrow> string + (string \<times> string)"
  waVerifyLogin :: "wa_config \<Rightarrow> 'sd \<Rightarrow> request \<Rightarrow> wa_user \<Rightarrow> string + (string \<times> string)"
  waBeginRegistration :: "wa_config \<Rightarrow> wa_user \<Rightarrow> (string \<times> 'sd) option"
  waFinishRegistration :: "wa_config \<Rightarrow> wa_user \<Rightarrow> 'sd \<Rightarrow> request \<Rightarrow> string + (string \<times> string)"
  waMarshal :: "'sd \<Rightarrow> string option"
  waUnmarshal :: "string \<Rightarrow> 'sd option"
  waValidCredential :: "string \<Rightarrow> bool"

text \<open>\<open>url.Parse\<close>: scheme, host, and host without port.\<close>

type_synonym url_parser = "string \<Rightarrow> (string \<times> string \<times> string) option"

section \<open>Users and relying parties\<close>

definition waCookieName :: string where "waCookieName = ''yaamon_wa_session''"
definition waCookieTTL :: int where "waCookieTTL = 5 * 60"

definition wa_user_of :: "'sd wa_lib \<Rightarrow> user \<Rightarrow> credential list \<Rightarrow> wa_user" where
  "wa_user_of lib u creds =
     \<lparr>wuID = uWebAuthnID u, wuName = uUsername u,
      wuDisplayName = (if uFullName u \<noteq> [] then uFullName u else uUsername u),
      wuCredentials = filter (waValidCredential lib) (map cCredentialJSON creds)\<rparr>"

definition buildWAUser :: "'sd wa_lib \<Rightarrow> string \<Rightarrow> int \<Rightarrow> store \<Rightarrow> (db_error + wa_user) \<times> store" where
  "buildWAUser lib fresh userID s =
     (case GetUserByID userID s of
        Inl e \<Rightarrow> (Inl e, s)
      | Inr u \<Rightarrow> (case GetOrSetWebAuthnID fresh userID s of
          (Inl e, s') \<Rightarrow> (Inl e, s')
        | (Inr handle, s') \<Rightarrow> (Inr (wa_user_of lib (u\<lparr>uWebAuthnID := handle\<rparr>) (ListCredentials userID s')), s')))"

text \<open>The instance of \<open>initWebAuthn\<close>, if its configuration is valid.\<close>

definition webAuthn :: "'sd wa_lib \<Rightarrow> Config \<Rightarrow> wa_config option" where
  "webAuthn lib cfg =
     (let wa = (webauthn_rpid cfg, webauthn_origins cfg) in if waNew lib wa then Some wa else None)"

definition requestOriginRPID :: "'sd wa_lib \<Rightarrow> url_parser \<Rightarrow> Config \<Rightarrow> request \<Rightarrow> string \<times> string" where
  "requestOriginRPID lib parse cfg r =
     (if webAuthn lib cfg \<noteq> None \<and> cfRPOrigins cfg \<noteq> [] then (hd (cfRPOrigins cfg), cfRPID cfg)
      else let raw = (if HeaderGet ''Origin'' r \<noteq> [] then HeaderGet ''Origin'' r
                      else (if rqTLS r then ''https'' else ''http'') @ ''://'' @ rqHost r)
           in (case parse raw of
                 None \<Rightarrow> (''http://localhost'', ''localhost'')
               | Some (scheme, host, hostname) \<Rightarrow>
                   if host = [] then (''http://localhost'', ''localhost'')
                   else (scheme @ ''://'' @ host, hostname)))"

definition webAuthnForRequest :: "'sd wa_lib \<Rightarrow> url_parser \<Rightarrow> Config \<Rightarrow> request \<Rightarrow> wa_config option" where
  "webAuthnForRequest lib parse cfg r =
     (if cfRPID cfg \<noteq> [] \<and> cfRPOrigins cfg \<noteq> [] then webAuthn lib cfg
      else (case requestOriginRPID lib parse cfg r of (origin, rpid) \<Rightarrow>
          if waNew lib (rpid, [origin]) then Some (rpid, [origin]) else None))"

definition webAuthnForSession :: "'sd wa_lib \<Rightarrow> wa_session \<Rightarrow> wa_config option" where
  "webAuthnForSession lib row =
     (if wsRPID row = [] \<or> wsOrigin row = [] then None
      else if waNew lib (wsRPID row, [wsOrigin row]) then Some (wsRPID row, [wsOrigin row]) else None)"

section \<open>Ceremonies\<close>

text \<open>\<open>sid\<close> is the random id. The cookie is set when the session could be stored.\<close>

definition storeWASession :: "server_env \<Rightarrow> 'sd wa_lib \<Rightarrow> url_parser \<Rightarrow> string \<Rightarrow> request \<Rightarrow> string \<Rightarrow> int option \<Rightarrow> 'sd \<Rightarrow> store
    \<Rightarrow> Cookie option \<times> store" where
  "storeWASession env lib parse sid r ceremony userID sd s =
     (case waMarshal lib sd of
        None \<Rightarrow> (None, s)
      | Some b \<Rightarrow> (case requestOriginRPID lib parse (svConfig env) r of (origin, rpid) \<Rightarrow>
          (case CreateWebAuthnSession \<lparr>wsSessionID = sid, wsCeremony = ceremony, wsUserID = userID, wsSessionJSON = b,
                  wsExpiresAt = svNow env + waCookieTTL, wsRPID = rpid, wsOrigin = origin\<rparr> s of
             (Inl e, s') \<Rightarrow> (None, s')
           | (Inr _, s') \<Rightarrow>
               (Some \<lparr>ckName = waCookieName, ckValue = sid, ckPath = ''/'', ckMaxAge = waCookieTTL, ckHttpOnly = True,
                  ckSecure = secure env, ckSameSiteStrict = True\<rparr>, s'))))"

text \<open>The session of the cookie is taken out of the table whatever becomes of the request.\<close>

definition fetchWASession :: "server_env \<Rightarrow> 'sd wa_lib \<Rightarrow> request \<Rightarrow> string \<Rightarrow> store \<Rightarrow> ('sd \<times> wa_session) option \<times> store" where
  "fetchWASession env lib r ceremony s =
     (case map_of (rqCookies r) waCookieName of
        None \<Rightarrow> (None, s)
      | Some v \<Rightarrow> (case GetAndDeleteWebAuthnSession v s of
          (Inl e, s') \<Rightarrow> (None, s')
        | (Inr row, s') \<Rightarrow>
            if wsCeremony row \<noteq> ceremony then (None, s')
            else if wsExpiresAt row < svNow env then (None, s')
            else (case waUnmarshal lib (wsSessionJSON row) of None \<Rightarrow> (None, s') | Some sd \<Rightarrow> (Some (sd, row), s'))))"

definition clearWACookie :: Cookie where
  "clearWACookie = \<lparr>ckName = waCookieName, ckValue = [], ckPath = ''/'', ckMaxAge = - 1, ckHttpOnly = False,
     ckSecure = False, ckSameSiteStrict = False\<rparr>"

datatype passkey_answer =
    Options string
  | LoggedIn string
  | Registered int string int
  | Passkeys "(int \<times> string \<times> int \<times> int option) list"

definition internal_error :: "passkey_answer reply" where
  "internal_error = HttpError 500 ''internal error''"

definition not_configured :: "passkey_answer reply" where
  "not_configured = HttpError 501 ''passkeys not configured''"

section \<open>Login\<close>

definition handleAPIPasskeysLoginBegin :: "server_env \<Rightarrow> 'sd wa_lib \<Rightarrow> url_parser \<Rightarrow> string \<Rightarrow> request \<Rightarrow> store
    \<Rightarrow> passkey_answer answer \<times> store" where
  "handleAPIPasskeysLoginBegin env lib parse sid r s =
     (if webAuthn lib (svConfig env) = None then ((not_configured, []), s)
      else (case webAuthnForRequest lib parse (svConfig env) r of
          None \<Rightarrow> ((internal_error, []), s)
        | Some wa \<Rightarrow> (case waBeginLogin lib wa of
            None \<Rightarrow> ((internal_error, []), s)
          | Some (options, sd) \<Rightarrow> (case storeWASession env lib parse sid r ''login'' None sd s of
              (None, s') \<Rightarrow> ((internal_error, []), s')
            | (Some ck, s') \<Rightarrow> ((Json 200 (Options options), [ck]), s')))))"

text \<open>The callback of the package: the user with a WebAuthn handle, as it stores it.\<close>

definition login_user :: "'sd wa_lib \<Rightarrow> string \<Rightarrow> store \<Rightarrow> db_error + user \<times> wa_user" where
  "login_user lib userHandle s =
     bindE (GetCredentialsByWebAuthnID userHandle s) (\<lambda>(creds, userID).
       bindE (GetUserByID userID s) (\<lambda>u. Inr (u, wa_user_of lib u creds)))"

text \<open>\<open>FinishDiscoverableLogin\<close>: the user found and the credential, or an error text.\<close>

definition finish_login :: "server_env \<Rightarrow> 'sd wa_lib \<Rightarrow> wa_config \<Rightarrow> 'sd \<Rightarrow> request \<Rightarrow> store \<Rightarrow> string + user \<times> string \<times> string" where
  "finish_login env lib wa sd r s =
     (case waHandle lib wa sd r of
        Inl e \<Rightarrow> Inl e
      | Inr (rawID, userHandle) \<Rightarrow> (case login_user lib userHandle s of
          Inl e \<Rightarrow> Inl (svErrorText env e)
        | Inr (u, wu) \<Rightarrow> (case waVerifyLogin lib wa sd r wu of
            Inl e \<Rightarrow> Inl e
          | Inr (credID, credJSON) \<Rightarrow> Inr (u, credID, credJSON))))"

definition handleAPIPasskeysLoginFinish :: "server_env \<Rightarrow> 'sd wa_lib \<Rightarrow> request \<Rightarrow> store \<Rightarrow> passkey_answer answer \<times> store" where
  "handleAPIPasskeysLoginFinish env lib r s =
     (if webAuthn lib (svConfig env) = None then ((not_configured, []), s)
      else (case fetchWASession env lib r ''login'' s of
          (None, s1) \<Rightarrow> ((HttpError 400 ''invalid or expired session'', [clearWACookie]), s1)
        | (Some (sd, row), s1) \<Rightarrow> (case webAuthnForSession lib row of
            None \<Rightarrow> ((internal_error, [clearWACookie]), s1)
          | Some wa \<Rightarrow> (case finish_login env lib wa sd r s1 of
              Inl e \<Rightarrow> ((HttpError 401 (''authentication failed: '' @ e), [clearWACookie]), s1)
            | Inr (u, credID, credJSON) \<Rightarrow>
                let s2 = UpdateCredentialUsed (svNow env) credID credJSON s1 in
                (case session_cookie env u (uAvatarURL u) of
                   None \<Rightarrow> ((HttpError 500 ''session error'', [clearWACookie]), s2)
                 | Some ck \<Rightarrow> ((Json 200 (LoggedIn (url env ''/'')), [clearWACookie, ck]), s2))))))"

section \<open>Registration\<close>

text \<open>\<open>fresh\<close> is the random handle of a user that has none.\<close>

definition handleAPIPasskeysRegisterBegin :: "server_env \<Rightarrow> 'sd wa_lib \<Rightarrow> url_parser \<Rightarrow> string \<Rightarrow> string \<Rightarrow> Session \<Rightarrow> request
    \<Rightarrow> store \<Rightarrow> passkey_answer answer \<times> store" where
  "handleAPIPasskeysRegisterBegin env lib parse fresh sid sess r s =
     (if webAuthn lib (svConfig env) = None then ((not_configured, []), s)
      else (case buildWAUser lib fresh (sUserID sess) s of
          (Inl e, s1) \<Rightarrow> ((HttpError 500 (''internal error: '' @ svErrorText env e), []), s1)
        | (Inr wu, s1) \<Rightarrow> (case webAuthnForRequest lib parse (svConfig env) r of
            None \<Rightarrow> ((HttpError 500 ''internal error: webauthn configuration'', []), s1)
          | Some wa \<Rightarrow> (case waBeginRegistration lib wa wu of
              None \<Rightarrow> ((internal_error, []), s1)
            | Some (options, sd) \<Rightarrow> (case storeWASession env lib parse sid r ''registration'' (Some (sUserID sess)) sd s1 of
                (None, s2) \<Rightarrow> ((internal_error, []), s2)
              | (Some ck, s2) \<Rightarrow> ((Json 200 (Options options), [ck]), s2))))))"

text \<open>\<open>name\<close> is the query parameter of the request.\<close>

definition handleAPIPasskeysRegisterFinish :: "server_env \<Rightarrow> 'sd wa_lib \<Rightarrow> string \<Rightarrow> Session \<Rightarrow> request \<Rightarrow> string \<Rightarrow> store
    \<Rightarrow> passkey_answer answer \<times> store" where
  "handleAPIPasskeysRegisterFinish env lib fresh sess r name s =
     (if webAuthn lib (svConfig env) = None then ((not_configured, []), s)
      else (case fetchWASession env lib r ''registration'' s of
          (None, s1) \<Rightarrow> ((HttpError 400 ''invalid or expired session'', [clearWACookie]), s1)
        | (Some (sd, row), s1) \<Rightarrow> (case webAuthnForSession lib row of
            None \<Rightarrow> ((internal_error, [clearWACookie]), s1)
          | Some wa \<Rightarrow> (case buildWAUser lib fresh (sUserID sess) s1 of
              (Inl e, s2) \<Rightarrow> ((internal_error, [clearWACookie]), s2)
            | (Inr wu, s2) \<Rightarrow> (case waFinishRegistration lib wa wu sd r of
                Inl e \<Rightarrow> ((HttpError 400 (''registration failed: '' @ e), [clearWACookie]), s2)
              | Inr (credID, credJSON) \<Rightarrow>
                  (case CreateCredential (svNow env) (sUserID sess) credID (if name = [] then ''Passkey'' else name) credJSON s2 of
                     (Inl e, s3) \<Rightarrow> ((internal_error, [clearWACookie]), s3)
                   | (Inr c, s3) \<Rightarrow> ((Json 200 (Registered (cID c) (cName c) (cCreatedAt c)), [clearWACookie]), s3)))))))"

section \<open>List, rename, delete\<close>

definition handleAPIListPasskeys :: "Session \<Rightarrow> store \<Rightarrow> passkey_answer reply" where
  "handleAPIListPasskeys sess s =
     Json 200 (Passkeys (map (\<lambda>c. (cID c, cName c, cCreatedAt c, cLastUsedAt c)) (ListCredentials (sUserID sess) s)))"

definition handleAPIRenamePasskey :: "Session \<Rightarrow> request \<Rightarrow> string option \<Rightarrow> store \<Rightarrow> passkey_answer reply \<times> store" where
  "handleAPIRenamePasskey sess r body s =
     (case ParseInt (URLParam ''id'' r) of
        None \<Rightarrow> (HttpError 400 ''bad id'', s)
      | Some i \<Rightarrow>
          if body = None \<or> body = Some [] then (HttpError 400 ''name required'', s)
          else (case RenameCredential i (sUserID sess) (the body) s of
              (Inl e, s') \<Rightarrow> (if e = ErrNotFound then HttpError 404 ''not found'' else internal_error, s')
            | (Inr _, s') \<Rightarrow> (Status 204, s')))"

definition passkey_guard :: "Session \<Rightarrow> store \<Rightarrow> passkey_answer reply option" where
  "passkey_guard sess s =
     (if 1 < CountCredentials (sUserID sess) s then None
      else (case GetUserByID (sUserID sess) s of
          Inl e \<Rightarrow> Some internal_error
        | Inr u \<Rightarrow> if uPassword u = [] \<or> uPassword u = ''*''
                   then Some (HttpError 409 ''cannot delete last passkey when no password is set'') else None))"

definition handleAPIDeletePasskey :: "Session \<Rightarrow> request \<Rightarrow> store \<Rightarrow> passkey_answer reply \<times> store" where
  "handleAPIDeletePasskey sess r s =
     (case ParseInt (URLParam ''id'' r) of
        None \<Rightarrow> (HttpError 400 ''bad id'', s)
      | Some i \<Rightarrow> (case passkey_guard sess s of
          Some answer \<Rightarrow> (answer, s)
        | None \<Rightarrow> (case DeleteCredential i (sUserID sess) s of
            (Inl e, s') \<Rightarrow> (if e = ErrNotFound then HttpError 404 ''not found'' else internal_error, s')
          | (Inr _, s') \<Rightarrow> (Status 204, s'))))"

section \<open>What a login has passed\<close>

lemma fetchWASession_SomeD:
  assumes "fetchWASession env lib r ceremony s = (Some (sd, row), s1)"
  shows "row \<in> set (wa_sessions s)" "map_of (rqCookies r) waCookieName = Some (wsSessionID row)" "wsCeremony row = ceremony"
    "svNow env \<le> wsExpiresAt row" "waUnmarshal lib (wsSessionJSON row) = Some sd"
    "wa_sessions s1 = filter (\<lambda>w. wsSessionID w \<noteq> wsSessionID row) (wa_sessions s)" "users s1 = users s" "credentials s1 = credentials s"
  using assms by (auto simp: fetchWASession_def GetAndDeleteWebAuthnSession_def split: option.splits if_splits dest: find_SomeD)

lemma webAuthnForSession_SomeD:
  "webAuthnForSession lib row = Some wa \<Longrightarrow> wa = (wsRPID row, [wsOrigin row]) \<and> waNew lib wa"
  by (auto simp: webAuthnForSession_def split: if_splits)

lemma login_user_InrD:
  assumes "users_ok s" and "login_user lib handle s = Inr (u, wu)"
  shows "u \<in> set (t_rows (users s))" "uWebAuthnID u = handle" "handle \<noteq> []" "wu = wa_user_of lib u (ListCredentials (uID u) s)"
proof -
  from assms(2) obtain creds i where c: "GetCredentialsByWebAuthnID handle s = Inr (creds, i)"
    and g: "GetUserByID i s = Inr u" and wu: "wu = wa_user_of lib u creds"
    by (auto simp: login_user_def dest!: bindE_InrD split: prod.splits)
  from c obtain v where v: "v \<in> set (t_rows (users s))" "uWebAuthnID v = handle" "handle \<noteq> []" "i = uID v" "creds = ListCredentials i s"
    by (auto simp: GetCredentialsByWebAuthnID_def tbl_find_def split: option.splits dest: find_SomeD)
  then have "GetUserByID i s = Inr v" using GetUserByID_iff [OF assms(1)] by blast
  then have "u = v" using g by simp
  then show "u \<in> set (t_rows (users s))" "uWebAuthnID u = handle" "handle \<noteq> []" "wu = wa_user_of lib u (ListCredentials (uID u) s)"
    using v wu by simp_all
qed

lemma finish_login_InrD:
  assumes "users_ok s" and "finish_login env lib wa sd r s = Inr (u, credID, credJSON)"
  shows "u \<in> set (t_rows (users s)) \<and> uWebAuthnID u \<noteq> [] \<and> (\<exists>rawID. waHandle lib wa sd r = Inr (rawID, uWebAuthnID u))
    \<and> waVerifyLogin lib wa sd r (wa_user_of lib u (ListCredentials (uID u) s)) = Inr (credID, credJSON)"
proof -
  from assms(2) obtain rawID handle wu where h: "waHandle lib wa sd r = Inr (rawID, handle)"
    and l: "login_user lib handle s = Inr (u, wu)" and v: "waVerifyLogin lib wa sd r wu = Inr (credID, credJSON)"
    by (auto simp: finish_login_def split: sum.splits prod.splits)
  show ?thesis using login_user_InrD [OF assms(1) l] h v by auto
qed

text \<open>C17: a passkey login sets a session cookie only for the account whose WebAuthn handle the response names,
  after the package has verified the response against that account's passkeys and the origin stored when
  the ceremony began, for a ceremony of the request's cookie that is a login and has not expired; the
  ceremony is used up, so the same cookie cannot finish another.\<close>

theorem passkey_login_verified:
  assumes "store_ok s" and "handleAPIPasskeysLoginFinish env lib r s = ((answer, cookies), s')"
    and "ck \<in> set cookies" and "ckName ck = cookieName"
  shows "\<exists>row sd u rawID cred.
      row \<in> set (wa_sessions s) \<and> map_of (rqCookies r) waCookieName = Some (wsSessionID row)
    \<and> wsCeremony row = ''login'' \<and> svNow env \<le> wsExpiresAt row \<and> waUnmarshal lib (wsSessionJSON row) = Some sd
    \<and> u \<in> set (t_rows (users s)) \<and> uWebAuthnID u \<noteq> []
    \<and> waHandle lib (wsRPID row, [wsOrigin row]) sd r = Inr (rawID, uWebAuthnID u)
    \<and> waVerifyLogin lib (wsRPID row, [wsOrigin row]) sd r (wa_user_of lib u (ListCredentials (uID u) s)) = Inr cred
    \<and> session_cookie env u (uAvatarURL u) = Some ck
    \<and> wsSessionID row \<notin> wsSessionID ` set (wa_sessions s')"
proof -
  have "ck \<noteq> clearWACookie" using assms(4) by (auto simp: clearWACookie_def cookieName_def waCookieName_def)
  have on: "webAuthn lib (svConfig env) \<noteq> None"
  proof
    assume "webAuthn lib (svConfig env) = None"
    with assms(2,3) show False by (simp add: handleAPIPasskeysLoginFinish_def)
  qed
  obtain o1 s1 where f0: "fetchWASession env lib r ''login'' s = (o1, s1)" by fastforce
  from f0 on assms(2,3) \<open>ck \<noteq> clearWACookie\<close> obtain sd row where o1: "o1 = Some (sd, row)"
    by (cases o1) (auto simp: handleAPIPasskeysLoginFinish_def)
  note f = f0 [unfolded o1]
  with on assms(2,3) \<open>ck \<noteq> clearWACookie\<close> obtain wa where w: "webAuthnForSession lib row = Some wa"
    by (cases "webAuthnForSession lib row") (auto simp: handleAPIPasskeysLoginFinish_def)
  with f on assms(2,3) \<open>ck \<noteq> clearWACookie\<close> obtain u credID credJSON where fin: "finish_login env lib wa sd r s1 = Inr (u, credID, credJSON)"
    by (cases "finish_login env lib wa sd r s1") (auto simp: handleAPIPasskeysLoginFinish_def)
  have ck: "session_cookie env u (uAvatarURL u) = Some ck" and s': "s' = UpdateCredentialUsed (svNow env) credID credJSON s1"
    using f w fin on assms(2,3) \<open>ck \<noteq> clearWACookie\<close>
    by (cases "session_cookie env u (uAvatarURL u)"; auto simp: handleAPIPasskeysLoginFinish_def Let_def)+
  note fd = fetchWASession_SomeD [OF f]
  have "users_ok s1" and creds: "ListCredentials (uID u) s1 = ListCredentials (uID u) s"
    using assms(1) fd(7,8) by (simp_all add: store_ok_def users_ok_def ListCredentials_def)
  from finish_login_InrD [OF this(1) fin] webAuthnForSession_SomeD [OF w] obtain rawID where
    "u \<in> set (t_rows (users s)) \<and> uWebAuthnID u \<noteq> []"
    "waHandle lib (wsRPID row, [wsOrigin row]) sd r = Inr (rawID, uWebAuthnID u)"
    "waVerifyLogin lib (wsRPID row, [wsOrigin row]) sd r (wa_user_of lib u (ListCredentials (uID u) s)) = Inr (credID, credJSON)"
    by (auto simp: creds fd(7))
  moreover have "wsSessionID row \<notin> wsSessionID ` set (wa_sessions s')"
    by (auto simp: s' UpdateCredentialUsed_def fd(6))
  ultimately show ?thesis
    using fd ck by (intro exI [of _ row] exI [of _ sd] exI [of _ u] exI [of _ rawID] exI [of _ "(credID, credJSON)"]) simp
qed

section \<open>The last passkey\<close>

lemma delete_other: "CountCredentials i (snd (DeleteCredential j k s)) = CountCredentials i s" if "k \<noteq> i"
  using that by (auto simp: DeleteCredential_def CountCredentials_def intro!: arg_cong [where f = length] filter_cong)

lemma delete_own:
  assumes "store_ok s"
  shows "CountCredentials i s \<le> CountCredentials i (snd (DeleteCredential j i s)) + 1"
proof -
  let ?rows = "filter (\<lambda>c. cUserID c = i) (t_rows (credentials s))"
  have "distinct (map cID ?rows)"
    using assms by (simp add: store_ok_def creds_ok_def tbl_inv_def distinct_map_filter_subset)
  from length_filter_key [OF this, of j] show ?thesis
    by (simp add: DeleteCredential_def CountCredentials_def) (simp add: conj_commute cong: conj_cong)
qed

text \<open>C20: an account without a local password that has a passkey still has one after any deletion,
  whoever asks for it and whichever passkey is named.\<close>

theorem last_passkey_kept:
  assumes "store_ok s" and "GetUserByID i s = Inr u" and "uPassword u = [] \<or> uPassword u = ''*''"
    and "1 \<le> CountCredentials i s"
  shows "1 \<le> CountCredentials i (snd (handleAPIDeletePasskey sess r s))"
proof (cases "snd (handleAPIDeletePasskey sess r s) = s")
  case False
  then obtain j where j: "ParseInt (URLParam ''id'' r) = Some j" and guard: "passkey_guard sess s = None"
    by (auto simp: handleAPIDeletePasskey_def split: option.splits)
  have s': "snd (handleAPIDeletePasskey sess r s) = snd (DeleteCredential j (sUserID sess) s)"
    by (simp add: handleAPIDeletePasskey_def j guard split: prod.split sum.split)
  show ?thesis
  proof (cases "sUserID sess = i")
    case True
    then have "1 < CountCredentials i s"
      using guard assms(2,3) by (auto simp: passkey_guard_def split: if_splits)
    then show ?thesis using delete_own [OF assms(1), of i j] True s' by simp
  next
    case False
    then show ?thesis using assms(4) s' by (simp add: delete_other)
  qed
qed (use assms(4) in simp)

definition keySession :: Session where
  "keySession = \<lparr>sUserID = 1, sUsername = ''ann'', sPermission = ''readonly'', sFullName = [], sAvatarURL = [],
     sExpires = 0, sAuthMethod = [], sExternalUsername = []\<rparr>"

text \<open>An account of a proxy with one passkey, its handle set, and a login in progress.\<close>

definition keyStore :: store where
  "keyStore = (snd (CreateCredential 10 1 ''cred'' ''Passkey'' ''{}''
     (snd (GetOrSetWebAuthnID ''handle'' 1 (snd (CreateUser ''ann'' ''*'' ''readonly'' store_empty))))))
     \<lparr>wa_sessions := [\<lparr>wsSessionID = ''sid'', wsCeremony = ''login'', wsUserID = None, wsSessionJSON = ''challenge'',
        wsExpiresAt = 200, wsRPID = ''hub'', wsOrigin = ''https://hub''\<rparr>]\<rparr>"

definition keyRequest :: request where
  "keyRequest = \<lparr>rqMethod = ''POST'', rqPath = [], rqURI = [], rqHost = ''hub'', rqRemoteAddr = [], rqTLS = True, rqHeader = [],
     rqCookies = [(''yaamon_wa_session'', ''sid'')], rqForm = [], rqParam = [(''id'', ''1'')]\<rparr>"

text \<open>A package that accepts the challenge for the relying party of the ceremony.\<close>

definition demoLib :: "string wa_lib" where
  "demoLib = \<lparr>waNew = (\<lambda>wa. True), waBeginLogin = (\<lambda>wa. Some (''options'', ''challenge'')),
     waHandle = (\<lambda>wa sd r. Inr (''cred'', ''handle'')),
     waVerifyLogin = (\<lambda>wa sd r wu. if sd = ''challenge'' \<and> fst wa = ''hub'' then Inr (''cred'', ''{}'') else Inl ''rejected''),
     waBeginRegistration = (\<lambda>wa wu. None), waFinishRegistration = (\<lambda>wa wu sd r. Inl ''no''),
     waMarshal = Some, waUnmarshal = Some, waValidCredential = (\<lambda>c. True)\<rparr>"

lemma keyStore_ok: "store_ok keyStore"
proof -
  let ?s = "snd (CreateCredential 10 1 ''cred'' ''Passkey'' ''{}''
     (snd (GetOrSetWebAuthnID ''handle'' 1 (snd (CreateUser ''ann'' ''*'' ''readonly'' store_empty)))))"
  have "store_ok (snd (GetOrSetWebAuthnID ''handle'' 1 s))" if "store_ok s" for s
    using that by (auto simp: GetOrSetWebAuthnID_def split: option.split intro!: update_user_ok)
  then have "store_ok ?s" by (intro CreateCredential_ok) (simp add: CreateUser_ok store_empty_ok)
  then show ?thesis by (simp add: keyStore_def store_ok_defs)
qed

theorem last_passkey_kept_witness:
  "1 \<le> CountCredentials 1 (snd (handleAPIDeletePasskey keySession keyRequest keyStore))"
proof -
  have "map_option uPassword (case GetUserByID 1 keyStore of Inr u \<Rightarrow> Some u | Inl e \<Rightarrow> None) = Some ''*''" by code_simp
  then obtain u where u: "GetUserByID 1 keyStore = Inr u" "uPassword u = ''*''" by (auto split: sum.splits)
  have "1 \<le> CountCredentials 1 keyStore" by code_simp
  then show ?thesis using last_passkey_kept [OF keyStore_ok u(1)] u(2) by simp
qed

definition keyEnv :: server_env where
  "keyEnv = demoLogin\<lparr>svConfig := default_config\<lparr>cfRPID := ''hub'', cfRPOrigins := [''https://hub'']\<rparr>\<rparr>"

theorem passkey_login_verified_witness:
  "''sid'' \<notin> wsSessionID ` set (wa_sessions (snd (handleAPIPasskeysLoginFinish keyEnv demoLib keyRequest keyStore)))
   \<and> \<not> list_all (\<lambda>ck. ckName ck \<noteq> cookieName) (snd (fst (handleAPIPasskeysLoginFinish keyEnv demoLib keyRequest keyStore)))"
proof -
  obtain answer cookies s' where run: "handleAPIPasskeysLoginFinish keyEnv demoLib keyRequest keyStore = ((answer, cookies), s')"
    by (cases "handleAPIPasskeysLoginFinish keyEnv demoLib keyRequest keyStore", case_tac a) simp
  have some: "\<not> list_all (\<lambda>ck. ckName ck \<noteq> cookieName) (snd (fst (handleAPIPasskeysLoginFinish keyEnv demoLib keyRequest keyStore)))"
    by code_simp
  then obtain ck where ck: "ck \<in> set cookies" "ckName ck = cookieName" by (auto simp: run list_all_iff)
  from passkey_login_verified [OF keyStore_ok run ck] obtain row :: wa_session where
    "map_of (rqCookies keyRequest) waCookieName = Some (wsSessionID row)" "wsSessionID row \<notin> wsSessionID ` set (wa_sessions s')"
    by blast
  moreover have "map_of (rqCookies keyRequest) waCookieName = Some ''sid''" by code_simp
  ultimately show ?thesis using some by (simp add: run)
qed

text \<open>The creation time in the answer of a registration is the zero time, not the row's; and with origins
  configured but no id for the relying party, no ceremony can finish.\<close>

lemma registered_at_zero:
  "fst (fst (handleAPIPasskeysRegisterFinish env lib fresh sess r name s)) = Json 200 (Registered i n t) \<Longrightarrow> t = zero_time"
  by (auto simp: handleAPIPasskeysRegisterFinish_def CreateCredential_def Let_def internal_error_def not_configured_def
      split: if_splits prod.splits option.splits sum.splits)

lemma origins_without_rpid:
  assumes "cfRPOrigins (svConfig env) \<noteq> []" and "cfRPID (svConfig env) = []" and "webAuthn lib (svConfig env) \<noteq> None"
    and "storeWASession env lib parse sid r c i sd s = (Some ck, s')" and "sid \<notin> wsSessionID ` set (wa_sessions s)"
  shows "case fst (GetAndDeleteWebAuthnSession sid s') of Inl e \<Rightarrow> False | Inr row \<Rightarrow> webAuthnForSession lib row = None"
proof -
  have "find (\<lambda>w. wsSessionID w = sid) (wa_sessions s) = None" using assms(5) by (auto simp: find_None_iff)
  moreover have "filter (\<lambda>w. wsSessionID w \<noteq> sid) (wa_sessions s) = wa_sessions s"
    using assms(5) by (auto intro!: filter_True)
  ultimately show ?thesis
    using assms(1-4) by (auto simp: storeWASession_def CreateWebAuthnSession_def requestOriginRPID_def
        GetAndDeleteWebAuthnSession_def webAuthnForSession_def find_append split: option.splits if_splits)
qed

end
