(* ===== verification/Server_New.thy ===== *)
theory Server_New
  imports Server_Nodes Server_Stats Server_Qrz Server_Passkeys Ast_Db
begin

text \<open>
  \<open>New\<close> of \<open>internal/server/server.go\<close> with the session manager of \<open>internal/auth/session.go\<close>: how a
  server is put together of its components from a configuration and a database, and what it stores on
  the way. Random bytes, digests, decoders and the parsing of the templates are parameters.
\<close>

section \<open>The session manager\<close>

record session_manager =
  smSecret :: string
  smSecure :: bool
  smLoginURL :: string

definition NewSessionManager :: "string \<Rightarrow> bool \<Rightarrow> session_manager" where
  "NewSessionManager secret isSecure = \<lparr>smSecret = secret, smSecure = isSecure, smLoginURL = ''/login''\<rparr>"

definition SetLoginURL :: "string \<Rightarrow> session_manager \<Rightarrow> session_manager" where
  "SetLoginURL u m = m\<lparr>smLoginURL := u\<rparr>"

text \<open>\<open>bytes\<close> are the 32 random bytes.\<close>

definition GenerateSecret :: "string \<Rightarrow> string" where
  "GenerateSecret bytes = StdEncode bytes"

section \<open>The server\<close>

record server =
  seConfig :: Config
  seSessions :: session_manager
  seAmi :: manager
  seLimiterRL :: rate_limiter
  seNodeDB :: ast_db
  seStats :: stats_map
  seLinks :: link_server
  seLogin :: login_limiter
  seQrz :: qrz_server
  seWebAuthn :: "wa_config option"
  seInBulkMode :: bool
  seLastBulkAt :: int

datatype new_error = InvalidSecret | TemplateError string

record 'sd new_env =
  neRandom :: string
  neSha :: "string \<Rightarrow> string"
  neCipher :: cipher_suite
  neStatsUnmarshal :: "string \<Rightarrow> NodeStats option"
  neQrzUnmarshal :: "string \<Rightarrow> qrz_record option"
  neTemplates :: "string option"
  neWebAuthn :: "'sd wa_lib"
  neClock :: int

text \<open>The manager and the key for the QRZ passwords, both made of the stored secret.\<close>

definition session_setup :: "'sd new_env \<Rightarrow> Config \<Rightarrow> store \<Rightarrow> (session_manager \<times> string) option \<times> store" where
  "session_setup env cfg s =
     (case initSessions (GenerateSecret (neRandom env)) s of
        (None, s') \<Rightarrow> (None, s')
      | (Some raw, s') \<Rightarrow>
          (let m = NewSessionManager raw (tlMode (cfTLS cfg) \<noteq> ''disabled''); bp = scBasePath (cfServer cfg) in
           (Some (if bp \<noteq> [] then SetLoginURL (bp @ ''/login'') m else m, deriveQRZKey (neSha env) raw), s')))"

text \<open>The components in the order they are made; the cache is loaded before its table is pruned.\<close>

definition New :: "'sd new_env \<Rightarrow> Config \<Rightarrow> store \<Rightarrow> (new_error + server) \<times> store" where
  "New env cfg s0 =
     (case session_setup env cfg s0 of
        (None, s1) \<Rightarrow> (Inl InvalidSecret, s1)
      | (Some (sessions, key), s1) \<Rightarrow> (case neTemplates env of
          Some e \<Rightarrow> (Inl (TemplateError e), s1)
        | None \<Rightarrow>
            let ami = initAMI s1;
                stats = loadFromDB (neStatsUnmarshal env) s1 [];
                s2 = snd (PruneStatsCache s1);
                qrz = initQRZ (neCipher env) (neQrzUnmarshal env) (neClock env) s2
                        \<lparr>qsKey = key, qsClients = [], qsCallook = newQRZ [] []\<rparr>
            in (Inr \<lparr>seConfig = cfg, seSessions = sessions, seAmi = ami, seLimiterRL = fetcher_limiter,
                  seNodeDB = newAstDB (cfAstPath cfg) (cfAstUpdate cfg), seStats = stats,
                  seLinks = \<lparr>lvHomeNums = [], lvLinks = [], lvBroker = NewBroker\<rparr>, seLogin = newLoginLimiter,
                  seQrz = qrz, seWebAuthn = webAuthn (neWebAuthn env) cfg, seInBulkMode = False, seLastBulkAt = zero_time\<rparr>, s2)))"

section \<open>The secret\<close>

lemma SetConfig_caches [simp]: "stats_cache (SetConfig k v s) = stats_cache s" "qrz_cache (SetConfig k v s) = qrz_cache s"
  by (simp_all add: SetConfig_def)

lemma initSessions_facts:
  assumes "initSessions random s = (r, s')"
  shows "users s' = users s" "nodes s' = nodes s" "favorites s' = favorites s" "stats_cache s' = stats_cache s"
    "qrz_cache s' = qrz_cache s" "store_ok s \<Longrightarrow> store_ok s'"
    "r = StdDecode (GetConfig ''session_secret'' s')"
    "GetConfig ''session_secret'' s \<noteq> [] \<Longrightarrow> s' = s"
  using assms by (auto simp: initSessions_def Let_def GetConfig_SetConfig SetConfig_sel SetConfig_ok split: if_splits)

lemma session_setup_facts:
  assumes "session_setup env cfg s = (Some (m, key), s')"
  shows "StdDecode (GetConfig ''session_secret'' s') = Some (smSecret m)" "key = deriveQRZKey (neSha env) (smSecret m)"
    "\<exists>r. initSessions (GenerateSecret (neRandom env)) s = (Some r, s')"
    "smSecure m = (tlMode (cfTLS cfg) \<noteq> ''disabled'')" "smLoginURL m = scBasePath (cfServer cfg) @ ''/login''"
  using assms initSessions_facts(7) [of "GenerateSecret (neRandom env)" s]
  by (auto simp: session_setup_def NewSessionManager_def SetLoginURL_def Let_def split: option.splits prod.splits if_splits)

section \<open>A new server\<close>

lemma PruneStatsCache_sel:
  "users (snd (PruneStatsCache s)) = users s" "nodes (snd (PruneStatsCache s)) = nodes s"
  "favorites (snd (PruneStatsCache s)) = favorites s" "GetConfig k (snd (PruneStatsCache s)) = GetConfig k s"
  "fst ` set (stats_cache (snd (PruneStatsCache s))) \<subseteq>
     nNodeNumber ` set (t_rows (nodes s)) \<union> fNodeNumber ` set (t_rows (favorites s))"
  by (auto simp: PruneStatsCache_def GetConfig_def Let_def)

lemma New_InrD:
  assumes "New env cfg s = (Inr sv, s')"
  obtains m key s1 where "session_setup env cfg s = (Some (m, key), s1)" "s' = snd (PruneStatsCache s1)"
    "seSessions sv = m" "seAmi sv = initAMI s1" "seStats sv = loadFromDB (neStatsUnmarshal env) s1 []"
    "seQrz sv = initQRZ (neCipher env) (neQrzUnmarshal env) (neClock env) s'
       \<lparr>qsKey = key, qsClients = [], qsCallook = newQRZ [] []\<rparr>"
  using assms by (auto simp: New_def Let_def split: option.splits prod.splits)

lemma qsKey_initQRZ [simp]: "qsKey (initQRZ cs u now s sv) = qsKey sv"
  by (simp add: initQRZ_def seedQRZCache_def)

lemma secret_stored:
  assumes "session_setup env cfg s = (Some (m, key), s1)" and "neRandom env \<noteq> []"
  shows "GetConfig ''session_secret'' s1 \<noteq> []"
proof -
  from session_setup_facts(3) [OF assms(1)] obtain r where "initSessions (GenerateSecret (neRandom env)) s = (Some r, s1)" by blast
  then show ?thesis
    using assms(2) StdEncode_nonempty [of "neRandom env"]
    by (auto simp: initSessions_def Let_def GetConfig_SetConfig GenerateSecret_def split: if_splits)
qed

lemma restart_secret:
  assumes "session_setup env cfg s = (Some (m, key), s1)" and "neRandom env \<noteq> []"
    and "session_setup env' cfg s2 = (Some (m', key'), s3)"
    and "GetConfig ''session_secret'' s2 = GetConfig ''session_secret'' s1"
  shows "m' = m"
proof -
  have "GetConfig ''session_secret'' s2 \<noteq> []" using secret_stored [OF assms(1,2)] assms(4) by simp
  moreover from session_setup_facts(3) [OF assms(3)] obtain r where
    "initSessions (GenerateSecret (neRandom env')) s2 = (Some r, s3)" by blast
  ultimately have "s3 = s2" using initSessions_facts(8) by blast
  then have "smSecret m' = smSecret m"
    using session_setup_facts(1) [OF assms(1)] session_setup_facts(1) [OF assms(3)] assms(4) by simp
  then show ?thesis
    using session_setup_facts(4,5) [OF assms(1)] session_setup_facts(4,5) [OF assms(3)] by (simp add: session_manager.equality)
qed

text \<open>C26: a server that starts on a sound database leaves accounts, nodes and favorites as they are and starts in
  a state from which the manager of AMI clients follows the nodes and the QRZ clients the accounts; its
  table of statistics has only known node numbers; and a later start on that database signs sessions
  and encrypts passwords with the same secret, so that neither is lost over a restart.\<close>

theorem server_starts_consistent:
  fixes env :: "'sd new_env"
  assumes "store_ok s" and "length (neRandom env) = 32" and "New env cfg s = (Inr sv, s')"
  shows "store_ok s' \<and> users s' = users s \<and> nodes s' = nodes s \<and> favorites s' = favorites s
    \<and> node_run (s', seAmi sv) \<and> qrz_run (neCipher env) (seQrz sv, s')
    \<and> fst ` set (stats_cache s') \<subseteq> nNodeNumber ` set (t_rows (nodes s)) \<union> fNodeNumber ` set (t_rows (favorites s))
    \<and> (\<forall>(env' :: 'sd new_env) sv' s''. New env' cfg s' = (Inr sv', s'') \<longrightarrow>
         seSessions sv' = seSessions sv \<and> (neSha env' = neSha env \<longrightarrow> qsKey (seQrz sv') = qsKey (seQrz sv)))"
proof -
  from New_InrD [OF assms(3)] obtain m key s1 where n: "session_setup env cfg s = (Some (m, key), s1)"
    "s' = snd (PruneStatsCache s1)" "seSessions sv = m" "seAmi sv = initAMI s1"
    "seQrz sv = initQRZ (neCipher env) (neQrzUnmarshal env) (neClock env) s'
       \<lparr>qsKey = key, qsClients = [], qsCallook = newQRZ [] []\<rparr>" by metis
  from session_setup_facts(3) [OF n(1)] obtain r where i: "initSessions (GenerateSecret (neRandom env)) s = (Some r, s1)" by blast
  note facts = initSessions_facts [OF i]
  have ok: "store_ok s'" using facts(6) [OF assms(1)] cache_ops_ok(2) n(2) by simp
  have "initAMI s1 = initAMI s'" using n(2) by (simp add: initAMI_def ListNodes_def PruneStatsCache_sel)
  then have ami: "node_run (s', seAmi sv)" using node_run.start [OF ok] n(4) by simp
  have qrz: "qrz_run (neCipher env) (seQrz sv, s')" unfolding n(5) by (rule qrz_run.start [OF ok])
  have "seSessions sv' = seSessions sv \<and> (neSha env' = neSha env \<longrightarrow> qsKey (seQrz sv') = qsKey (seQrz sv))"
    if new: "New env' cfg s' = (Inr sv', s'')" for env' :: "'sd new_env" and sv' s''
  proof -
    from New_InrD [OF new] obtain m' key' s3 where n': "session_setup env' cfg s' = (Some (m', key'), s3)"
      "seSessions sv' = m'" "qsKey (seQrz sv') = key'" by (metis qsKey_initQRZ qrz_server.select_convs(1))
    have "m' = m"
      by (rule restart_secret [OF n(1) _ n'(1)]) (use assms(2) n(2) in \<open>auto simp: PruneStatsCache_sel\<close>)
    then show ?thesis
      using session_setup_facts(2) [OF n(1)] session_setup_facts(2) [OF n'(1)] n(3,5) n'(2,3) by simp
  qed
  then show ?thesis
    using ok ami qrz facts(1-3) n(2) PruneStatsCache_sel [where s = s1] by simp
qed

definition demoNew :: "string new_env" where
  "demoNew = \<lparr>neRandom = replicate 32 (CHR ''r''), neSha = rev, neCipher = demoSuite, neStatsUnmarshal = (\<lambda>raw. None),
     neQrzUnmarshal = (\<lambda>raw. None), neTemplates = None, neWebAuthn = demoLib, neClock = 0\<rparr>"

text \<open>The first start and a restart with other random bytes.\<close>

theorem server_starts_consistent_witness:
  "\<exists>sv s' sv' s''. New demoNew default_config store_empty = (Inr sv, s')
     \<and> New (demoNew\<lparr>neRandom := replicate 32 (CHR ''x'')\<rparr>) default_config s' = (Inr sv', s'')
     \<and> seSessions sv' = seSessions sv \<and> qsKey (seQrz sv') = qsKey (seQrz sv)"
proof -
  have started: "\<exists>sv s'. New env default_config s = (Inr sv, s')"
    if "neTemplates env = None" and "fst (initSessions (GenerateSecret (neRandom env)) s) \<noteq> None" for env :: "string new_env" and s
    using that by (auto simp: New_def session_setup_def Let_def split: option.splits prod.splits)
  have fresh: "fst (initSessions (GenerateSecret r) store_empty) \<noteq> None" for r
    by (simp add: initSessions_def GetConfig_def store_empty_def GenerateSecret_def Std_roundtrip)
  from started [of demoNew store_empty] fresh obtain sv s' where first: "New demoNew default_config store_empty = (Inr sv, s')"
    by (auto simp: demoNew_def)
  from New_InrD [OF this] obtain m key s1 where n: "session_setup demoNew default_config store_empty = (Some (m, key), s1)"
    "s' = snd (PruneStatsCache s1)" by metis
  have "GetConfig ''session_secret'' s' \<noteq> []"
    using secret_stored [OF n(1)] n(2) by (simp add: demoNew_def PruneStatsCache_sel)
  then have "initSessions x s' = (StdDecode (GetConfig ''session_secret'' s'), s')" for x
    by (simp add: initSessions_def)
  moreover have "StdDecode (GetConfig ''session_secret'' s') = Some (smSecret m)"
    using session_setup_facts(1) [OF n(1)] n(2) by (simp add: PruneStatsCache_sel)
  ultimately obtain sv' s'' where second:
    "New (demoNew\<lparr>neRandom := replicate 32 (CHR ''x'')\<rparr>) default_config s' = (Inr sv', s'')"
    using started [of "demoNew\<lparr>neRandom := replicate 32 (CHR ''x'')\<rparr>" s'] by (auto simp: demoNew_def)
  have "length (neRandom demoNew) = 32" by (simp add: demoNew_def)
  note start = server_starts_consistent [OF store_empty_ok this first]
  have "neSha (demoNew\<lparr>neRandom := replicate 32 (CHR ''x'')\<rparr>) = neSha demoNew" by simp
  with start second have "seSessions sv' = seSessions sv \<and> qsKey (seQrz sv') = qsKey (seQrz sv)" by blast
  with first second show ?thesis by blast
qed

end
