(* ===== verification/Cli_Commands.thy ===== *)
theory Cli_Commands
  imports State_Apply Db_Nodes
begin

text \<open>
  \<open>cmd/yaamon/user.go\<close>, \<open>node.go\<close> and \<open>helpers.go\<close>: the commands that administer accounts and nodes in
  the database file, without the server. Flag parsing (cobra) is the fields of a command; the
  configuration, the database file, the terminal and bcrypt are the fields of an environment. The
  alignment of a table (\<open>text/tabwriter\<close>) is left to its cells.
\<close>

section \<open>Environment and results\<close>

datatype cli_error =
    OpenFailed string
  | PromptFailed string
  | InvalidLevel string
  | BadPassword password_error
  | DbFailed string db_error
  | UserMissing string
  | LastSuperuser
  | InvalidID string
  | NodeMissing int
  | ConnectionFailed string

datatype cli_output = Table "string list list" | Printed string

text \<open>
  What \<open>config.Load\<close> and \<open>db.Open\<close> return (the error text of either, if any), the password read at a
  prompt or the error of the terminal, bcrypt, and the connection test.
\<close>

record cli_env =
  ceConfigError :: "string option"
  ceOpenError :: "string option"
  cePrompt :: "string + string"
  ceBcrypt :: "string \<Rightarrow> string option"
  ceTest :: "string \<Rightarrow> int \<Rightarrow> string \<Rightarrow> string \<Rightarrow> string option"

type_synonym cli_result = "(cli_error + cli_output) \<times> store"

text \<open>The error of \<open>openDB\<close>, \<open>None\<close> when the database is open.\<close>

definition openDB :: "cli_env \<Rightarrow> cli_error option" where
  "openDB env =
     (case ceConfigError env of
        Some e \<Rightarrow> Some (OpenFailed (''config: '' @ e))
      | None \<Rightarrow> map_option OpenFailed (ceOpenError env))"

definition promptPassword :: "string + string \<Rightarrow> cli_error + string" where
  "promptPassword input =
     (case input of
        Inl e \<Rightarrow> Inl (PromptFailed (''reading password: '' @ e))
      | Inr b \<Rightarrow> if b = [] then Inl (PromptFailed ''password cannot be empty'') else Inr b)"

text \<open>The hash of the flag's password, or of one typed at the prompt.\<close>

definition cli_hash :: "cli_env \<Rightarrow> string \<Rightarrow> cli_error + string" where
  "cli_hash env pw =
     bindE (if pw = [] then promptPassword (cePrompt env) else Inr pw)
       (\<lambda>pw. case HashPassword (ceBcrypt env) pw of Inl e \<Rightarrow> Inl (BadPassword e) | Inr h \<Rightarrow> Inr h)"

section \<open>Accounts\<close>

definition userListCmd :: "store \<Rightarrow> cli_result" where
  "userListCmd s =
     (Inr (Table ([''ID'', ''USERNAME'', ''PERMISSION''] #
        map (\<lambda>u. [FormatInt (uID u), uUsername u, uPermission u]) (ListUsers s))), s)"

definition userAddCmd :: "cli_env \<Rightarrow> string \<Rightarrow> string \<Rightarrow> string \<Rightarrow> store \<Rightarrow> cli_result" where
  "userAddCmd env username perm pw s =
     (if \<not> ValidPermission perm then (Inl (InvalidLevel perm), s)
      else (case cli_hash env pw of
          Inl e \<Rightarrow> (Inl e, s)
        | Inr hash \<Rightarrow> (case CreateUser username hash perm s of
            (Inl e, s') \<Rightarrow> (Inl (DbFailed ''create user'' e), s')
          | (Inr u, s') \<Rightarrow>
              (Inr (Printed (''Created user '' @ uUsername u @ '' (id='' @ FormatInt (uID u) @ '', permission='' @ uPermission u @ '')'')), s'))))"

text \<open>The account a command names.\<close>

definition with_user :: "string \<Rightarrow> (user \<Rightarrow> cli_result) \<Rightarrow> store \<Rightarrow> cli_result" where
  "with_user username k s =
     (case GetUser username s of Inl e \<Rightarrow> (Inl (UserMissing username), s) | Inr u \<Rightarrow> k u)"

definition userPasswdCmd :: "cli_env \<Rightarrow> string \<Rightarrow> string \<Rightarrow> store \<Rightarrow> cli_result" where
  "userPasswdCmd env username pw s =
     with_user username (\<lambda>u. case cli_hash env pw of
         Inl e \<Rightarrow> (Inl e, s)
       | Inr hash \<Rightarrow> (Inr (Printed (''Password updated for '' @ uUsername u)), UpdateUserPassword (uID u) hash s)) s"

definition userPermissionCmd :: "string \<Rightarrow> string \<Rightarrow> store \<Rightarrow> cli_result" where
  "userPermissionCmd username perm s =
     with_user username (\<lambda>u.
       if \<not> ValidPermission perm then (Inl (InvalidLevel perm), s)
       else (Inr (Printed (''Permission for '' @ uUsername u @ '' updated to '' @ perm)), UpdateUserPermission (uID u) perm s)) s"

definition userDeleteCmd :: "string \<Rightarrow> store \<Rightarrow> cli_result" where
  "userDeleteCmd username s =
     with_user username (\<lambda>u.
       if uPermission u = PermSuperuser \<and> CountSuperusers s \<le> 1 then (Inl LastSuperuser, s)
       else (Inr (Printed (''Deleted user '' @ uUsername u)), DeleteUser (uID u) s)) s"

section \<open>Nodes\<close>

text \<open>\<open>%v\<close> of a bool.\<close>

definition FormatBool :: "bool \<Rightarrow> string" where
  "FormatBool b = (if b then ''true'' else ''false'')"

record nodeFlags =
  nfNumber :: string
  nfHost :: string
  nfPort :: int
  nfUser :: string
  nfPass :: string

text \<open>The flags of \<open>node add\<close> that are not given; the number is required.\<close>

definition nodeAddDefaults :: "string \<Rightarrow> nodeFlags" where
  "nodeAddDefaults number =
     \<lparr>nfNumber = number, nfHost = ''localhost'', nfPort = 5038, nfUser = [], nfPass = []\<rparr>"

definition nodeListCmd :: "store \<Rightarrow> cli_result" where
  "nodeListCmd s =
     (Inr (Table ([''ID'', ''NAME'', ''NODE#'', ''AMI HOST'', ''PORT'', ''USER'', ''ENABLED''] #
        map (\<lambda>n. [FormatInt (nID n), nName n, nNodeNumber n, nAMIHost n, FormatInt (nAMIPort n), nAMIUser n,
                  FormatBool (nEnabled n)]) (ListNodes s))), s)"

definition nodeAddCmd :: "string \<Rightarrow> nodeFlags \<Rightarrow> bool \<Rightarrow> store \<Rightarrow> cli_result" where
  "nodeAddCmd name fl enabled s =
     (case CreateNode \<lparr>nID = 0, nName = name, nNodeNumber = nfNumber fl, nAMIHost = nfHost fl, nAMIPort = nfPort fl,
          nAMIUser = nfUser fl, nAMIPass = nfPass fl, nEnabled = enabled, nDescription = [], nLocation = []\<rparr> s of
        (n, s') \<Rightarrow>
          (Inr (Printed (''Created node '' @ nName n @ '' (id='' @ FormatInt (nID n) @ '', node#='' @ nNodeNumber n @ '')'')), s'))"

text \<open>The node whose id a command names.\<close>

definition with_node :: "string \<Rightarrow> (node \<Rightarrow> cli_result) \<Rightarrow> store \<Rightarrow> cli_result" where
  "with_node arg k s =
     (case ParseInt arg of
        None \<Rightarrow> (Inl (InvalidID arg), s)
      | Some i \<Rightarrow> (case GetNodeByID i s of Inl e \<Rightarrow> (Inl (NodeMissing i), s) | Inr n \<Rightarrow> k n))"

text \<open>A flag that is empty, or zero for the port, keeps the field.\<close>

definition edit_node :: "string \<Rightarrow> nodeFlags \<Rightarrow> node \<Rightarrow> node" where
  "edit_node name fl n =
     n\<lparr>nName := (if name \<noteq> [] then name else nName n),
       nNodeNumber := (if nfNumber fl \<noteq> [] then nfNumber fl else nNodeNumber n),
       nAMIHost := (if nfHost fl \<noteq> [] then nfHost fl else nAMIHost n),
       nAMIPort := (if nfPort fl \<noteq> 0 then nfPort fl else nAMIPort n),
       nAMIUser := (if nfUser fl \<noteq> [] then nfUser fl else nAMIUser n),
       nAMIPass := (if nfPass fl \<noteq> [] then nfPass fl else nAMIPass n)\<rparr>"

definition nodeEditCmd :: "string \<Rightarrow> string \<Rightarrow> nodeFlags \<Rightarrow> store \<Rightarrow> cli_result" where
  "nodeEditCmd arg name fl s =
     with_node arg (\<lambda>n0. let n = edit_node name fl n0 in
       (Inr (Printed (''Updated node '' @ nName n @ '' (id='' @ FormatInt (nID n) @ '')'')), UpdateNode n s)) s"

definition setNodeEnabled :: "bool \<Rightarrow> string \<Rightarrow> store \<Rightarrow> cli_result" where
  "setNodeEnabled enabled arg s =
     with_node arg (\<lambda>n. (Inr (Printed (''Node '' @ nName n @ '' (id='' @ FormatInt (nID n) @ '') ''
         @ (if enabled then ''enabled'' else ''disabled''))), UpdateNode (n\<lparr>nEnabled := enabled\<rparr>) s)) s"

definition nodeDeleteCmd :: "string \<Rightarrow> store \<Rightarrow> cli_result" where
  "nodeDeleteCmd arg s =
     with_node arg (\<lambda>n. (Inr (Printed (''Deleted node '' @ nName n @ '' (id='' @ FormatInt (nID n) @ '')'')),
       DeleteNode (nID n) s)) s"

definition nodeTestCmd :: "cli_env \<Rightarrow> string \<Rightarrow> store \<Rightarrow> cli_result" where
  "nodeTestCmd env arg s =
     with_node arg (\<lambda>n. case ceTest env (nAMIHost n) (nAMIPort n) (nAMIUser n) (nAMIPass n) of
         Some e \<Rightarrow> (Inl (ConnectionFailed e), s)
       | None \<Rightarrow> (Inr (Printed (''AMI connection to '' @ nName n @ '' ('' @ nAMIHost n @ '':'' @ FormatInt (nAMIPort n) @ '') OK'')), s)) s"

section \<open>The commands\<close>

datatype cli_command =
    UserList
  | UserAdd string string string
  | UserPasswd string string
  | UserPermission string string
  | UserDelete string
  | NodeList
  | NodeAdd string nodeFlags bool
  | NodeEdit string string nodeFlags
  | NodeEnable string
  | NodeDisable string
  | NodeDelete string
  | NodeTest string

fun cli_body :: "cli_env \<Rightarrow> cli_command \<Rightarrow> store \<Rightarrow> cli_result" where
  "cli_body env UserList s = userListCmd s"
| "cli_body env (UserAdd username perm pw) s = userAddCmd env username perm pw s"
| "cli_body env (UserPasswd username pw) s = userPasswdCmd env username pw s"
| "cli_body env (UserPermission username perm) s = userPermissionCmd username perm s"
| "cli_body env (UserDelete username) s = userDeleteCmd username s"
| "cli_body env NodeList s = nodeListCmd s"
| "cli_body env (NodeAdd name fl enabled) s = nodeAddCmd name fl enabled s"
| "cli_body env (NodeEdit arg name fl) s = nodeEditCmd arg name fl s"
| "cli_body env (NodeEnable arg) s = setNodeEnabled True arg s"
| "cli_body env (NodeDisable arg) s = setNodeEnabled False arg s"
| "cli_body env (NodeDelete arg) s = nodeDeleteCmd arg s"
| "cli_body env (NodeTest arg) s = nodeTestCmd env arg s"

definition is_test :: "cli_command \<Rightarrow> bool" where
  "is_test c = (case c of NodeTest arg \<Rightarrow> True | _ \<Rightarrow> False)"

text \<open>Every command opens the database first; the test puts a prefix before the error of the file.\<close>

definition run_user_node :: "cli_env \<Rightarrow> cli_command \<Rightarrow> store \<Rightarrow> cli_result" where
  "run_user_node env c s =
     (case openDB env of
        Some e \<Rightarrow>
          (Inl (if is_test c \<and> ceConfigError env = None
                then OpenFailed (''database: '' @ the (ceOpenError env)) else e), s)
      | None \<Rightarrow> cli_body env c s)"

section \<open>What a command may change\<close>

definition user_command :: "cli_command \<Rightarrow> bool" where
  "user_command c = (case c of UserList \<Rightarrow> True | UserAdd u p w \<Rightarrow> True | UserPasswd u w \<Rightarrow> True
     | UserPermission u p \<Rightarrow> True | UserDelete u \<Rightarrow> True | _ \<Rightarrow> False)"

lemmas user_cmd_defs = userListCmd_def userAddCmd_def userPasswdCmd_def userPermissionCmd_def userDeleteCmd_def with_user_def
lemmas node_cmd_defs = nodeListCmd_def nodeAddCmd_def nodeEditCmd_def setNodeEnabled_def nodeDeleteCmd_def nodeTestCmd_def with_node_def

lemma cli_body_ok: "store_ok s \<Longrightarrow> store_ok (snd (cli_body env c s))"
  by (cases c)
    (auto simp: user_cmd_defs node_cmd_defs Let_def case_prod_beta split: sum.splits option.splits intro!: inv_intros)

lemma cli_body_failed: "cli_body env c s = (Inl e, s') \<Longrightarrow> s' = s"
  by (cases c)
    (auto simp: user_cmd_defs node_cmd_defs CreateUser_def Let_def split: sum.splits option.splits prod.splits if_splits)

lemma cli_body_frame:
  "if user_command c then nodes (snd (cli_body env c s)) = nodes s \<and> favorites (snd (cli_body env c s)) = favorites s
   else users (snd (cli_body env c s)) = users s \<and> tailscale_logins (snd (cli_body env c s)) = tailscale_logins s
     \<and> credentials (snd (cli_body env c s)) = credentials s"
  by (cases c)
    (auto simp: user_command_def user_cmd_defs node_cmd_defs db_simps CreateUser_def CreateNode_eq UpdateUserPassword_def
      UpdateUserPermission_def UpdateNode_def DeleteNode_def Let_def
      split: sum.splits option.splits prod.splits)

lemma cli_body_superuser:
  assumes "users_ok s" and "0 < CountSuperusers s" and "\<And>u p. c \<noteq> UserPermission u p"
  shows "0 < CountSuperusers (snd (cli_body env c s))"
proof (cases "user_command c")
  case False
  then have "users (snd (cli_body env c s)) = users s" using cli_body_frame [of c env s] by simp
  then show ?thesis using assms(2) by (simp add: CountSuperusers_def)
next
  case True
  then consider "c = UserList" | n p w where "c = UserAdd n p w" | n w where "c = UserPasswd n w" | n where "c = UserDelete n"
    using assms(3) by (cases c) (auto simp: user_command_def)
  then show ?thesis
  proof cases
    case 2
    then show ?thesis using assms(2)
      by (auto simp: userAddCmd_def CreateUser_def CountSuperusers_pos_iff tbl_insert_def Let_def split: sum.splits prod.splits)
  next
    case 3
    then show ?thesis using assms(2) GetUser_InrD [of n s]
      by (auto simp: userPasswdCmd_def with_user_def UpdateUserPassword_def CountSuperusers_update [OF assms(1)]
          GetUserByID_iff [OF assms(1)] split: sum.splits)
  next
    case 4
    then show ?thesis
    proof (cases "GetUser n s")
      case (Inr u)
      then have "u \<in> set (t_rows (users s))" by (auto dest: GetUser_InrD)
      from CountSuperusers_delete [OF assms(1) this] 4 Inr assms(2) show ?thesis
        by (auto simp: userDeleteCmd_def with_user_def PermSuperuser_def split: if_splits)
    qed (use 4 assms(2) in \<open>simp add: userDeleteCmd_def with_user_def\<close>)
  qed (use assms(2) in \<open>simp add: userListCmd_def\<close>)
qed

text \<open>C27: no \<open>yaamon user\<close> or \<open>yaamon node\<close> command breaks the database's schema; one that fails changes nothing; an account
  command leaves nodes and favorites alone and a node command the accounts with their logins and passkeys;
  and none takes the last superuser away, except by setting a permission.\<close>

theorem user_node_commands_safe:
  assumes "store_ok s" and "run_user_node env c s = (r, s')"
  shows "store_ok s' \<and> (case r of Inl e \<Rightarrow> s' = s | Inr out \<Rightarrow> True)
    \<and> (if user_command c then nodes s' = nodes s \<and> favorites s' = favorites s
       else users s' = users s \<and> tailscale_logins s' = tailscale_logins s \<and> credentials s' = credentials s)
    \<and> (0 < CountSuperusers s \<longrightarrow> (\<exists>n p. c = UserPermission n p) \<or> 0 < CountSuperusers s')"
proof (cases "openDB env")
  case None
  then have run: "cli_body env c s = (r, s')" using assms(2) by (simp add: run_user_node_def)
  have "users_ok s" using assms(1) by (simp add: store_ok_def)
  from cli_body_superuser [OF this, of c env]
  have "0 < CountSuperusers s \<longrightarrow> (\<exists>n p. c = UserPermission n p) \<or> 0 < CountSuperusers s'"
    by (cases "\<exists>n p. c = UserPermission n p") (simp_all add: run)
  moreover have "store_ok s'" using cli_body_ok [OF assms(1), of env c] by (simp add: run)
  moreover note cli_body_frame [of c env s, unfolded run snd_conv]
  moreover have "case r of Inl e \<Rightarrow> s' = s | Inr out \<Rightarrow> True"
    using cli_body_failed [of env c s _ s'] run by (cases r) simp_all
  ultimately show ?thesis by blast
next
  case (Some e)
  then show ?thesis using assms by (auto simp: run_user_node_def)
qed

definition demoCli :: cli_env where
  "demoCli = \<lparr>ceConfigError = None, ceOpenError = None, cePrompt = Inr ''correct horse'', ceBcrypt = Some,
     ceTest = (\<lambda>h p u w. None)\<rparr>"

definition oneSuperuser :: store where
  "oneSuperuser = snd (CreateUser ''ann'' ''h'' ''superuser'' store_empty)"

theorem user_node_commands_safe_witness:
  "0 < CountSuperusers (snd (run_user_node demoCli (UserDelete ''ann'') oneSuperuser))
   \<and> fst (run_user_node demoCli (UserDelete ''ann'') oneSuperuser) = Inl LastSuperuser"
proof -
  obtain r s' where run: "run_user_node demoCli (UserDelete ''ann'') oneSuperuser = (r, s')" by fastforce
  have "store_ok oneSuperuser" by (simp add: oneSuperuser_def CreateUser_ok store_empty_ok)
  note safe = user_node_commands_safe [OF this run]
  have "0 < CountSuperusers oneSuperuser" by code_simp
  moreover have "fst (run_user_node demoCli (UserDelete ''ann'') oneSuperuser) = Inl LastSuperuser" by code_simp
  ultimately show ?thesis using safe by (simp add: run)
qed

text \<open>Setting the permission has no such guard, unlike the deletion.\<close>

lemma cli_lowers_last_superuser:
  "CountSuperusers (snd (run_user_node demoCli (UserPermission ''ann'' ''none'') oneSuperuser)) = 0"
  by code_simp

text \<open>An edit cannot empty a field, and it sets no other than those of its flags.\<close>

lemma edit_node_kept:
  "edit_node [] \<lparr>nfNumber = [], nfHost = [], nfPort = 0, nfUser = [], nfPass = []\<rparr> n = n"
  "nID (edit_node name fl n) = nID n" "nEnabled (edit_node name fl n) = nEnabled n"
  "nDescription (edit_node name fl n) = nDescription n" "nLocation (edit_node name fl n) = nLocation n"
  by (simp_all add: edit_node_def)

end
