(* ===== verification/Cli_Main.thy ===== *)
theory Cli_Main
  imports State_Props Backup_File Server_New Server_Listen
begin

text \<open>
  \<open>cmd/yaamon/cli.go\<close>: the commands that serve, apply a state file, back up, restore and inspect, each
  with its steps in order and the error of the step that fails. The files are a map from paths to
  contents; the configuration loader, the YAML decoder and the failures of the file system are
  parameters.
\<close>

datatype log_level = LevelDebug | LevelInfo | LevelWarn | LevelError

text \<open>The levels in their order; a logger of a level writes the messages of that level and of those above it.\<close>

fun level_value :: "log_level \<Rightarrow> int" where
  "level_value LevelDebug = -4"
| "level_value LevelInfo = 0"
| "level_value LevelWarn = 4"
| "level_value LevelError = 8"

instantiation log_level :: linorder
begin

definition less_eq_log_level :: "log_level \<Rightarrow> log_level \<Rightarrow> bool" where
  "less_eq_log_level a b \<longleftrightarrow> level_value a \<le> level_value b"

definition less_log_level :: "log_level \<Rightarrow> log_level \<Rightarrow> bool" where
  "less_log_level a b \<longleftrightarrow> level_value a < level_value b"

instance
proof
  show "a \<le> b \<Longrightarrow> b \<le> a \<Longrightarrow> a = b" for a b :: log_level
    unfolding less_eq_log_level_def by (cases a; cases b) simp_all
qed (auto simp: less_eq_log_level_def less_log_level_def)

end

definition setupLogging :: "string \<Rightarrow> log_level" where
  "setupLogging level =
     (if level = ''debug'' then LevelDebug else if level = ''warn'' then LevelWarn
      else if level = ''error'' then LevelError else LevelInfo)"

text \<open>The warnings about file permissions are seen with every setting but \<open>error\<close>, an unknown one too.\<close>

lemma warnings_written: "level \<noteq> ''error'' \<longleftrightarrow> setupLogging level \<le> LevelWarn"
  by (simp add: setupLogging_def less_eq_log_level_def)

datatype main_error =
    ConfigFailed load_error
  | DatabaseFailed string
  | StateFailed state_error
  | ApplyFailed apply_error
  | InitFailed new_error
  | ServeFailed start_error
  | WriteFailed string
  | ReadFailed string
  | RestoreFailed backup_error
  | InspectFailed backup_error

text \<open>
  \<open>cmOpen\<close> is the error text of \<open>db.Open\<close> for a path, if any, \<open>cmReadError\<close> that of reading a path and
  \<open>cmWriteError\<close> that of writing one, with what a failed write leaves there, if it got to the file; \<open>cmStamp\<close> formats a time for a file name, \<open>cmLocal\<close> for a report.
\<close>

record main_env =
  cmViper :: viper
  cmOpen :: "string \<Rightarrow> string option"
  cmReadError :: "string \<Rightarrow> string option"
  cmWriteError :: "string \<Rightarrow> (string \<times> string option) option"
  cmStamp :: "int \<Rightarrow> string"
  cmLocal :: "int \<Rightarrow> string"
  cmVersion :: string

type_synonym file_map = "string \<rightharpoonup> string"

definition ReadFile :: "main_env \<Rightarrow> file_map \<Rightarrow> string \<Rightarrow> string + string" where
  "ReadFile env fs path =
     (case fs path of
        None \<Rightarrow> Inl (''open '' @ path @ '': no such file or directory'')
      | Some data \<Rightarrow> (case cmReadError env path of Some e \<Rightarrow> Inl e | None \<Rightarrow> Inr data))"

section \<open>The commands\<close>

text \<open>A flag's name, shorthand and default; a command's name, the number of its arguments where it checks it, and its flags.\<close>

datatype cli_flag = StringFlag string string string | BoolFlag string bool

record cli_command =
  coUse :: string
  coArgs :: "nat option"
  coFlags :: "cli_flag list"

definition main_commands :: "cli_command list" where
  "main_commands =
     [\<lparr>coUse = ''serve'', coArgs = None, coFlags = []\<rparr>,
      \<lparr>coUse = ''apply'', coArgs = Some 1, coFlags = [BoolFlag ''dry-run'' False, BoolFlag ''reset-passwords'' False]\<rparr>,
      \<lparr>coUse = ''backup'', coArgs = None, coFlags = [StringFlag ''passphrase'' ''p'' [], StringFlag ''output'' ''o'' []]\<rparr>,
      \<lparr>coUse = ''restore'', coArgs = Some 1, coFlags = [StringFlag ''passphrase'' ''p'' []]\<rparr>,
      \<lparr>coUse = ''inspect'', coArgs = Some 1, coFlags = []\<rparr>]"

definition persistent_flags :: "cli_flag list" where
  "persistent_flags = [StringFlag ''config'' [] []]"

text \<open>The exit status; the error, if any, is printed to the standard error.\<close>

definition Execute :: "'e + 'a \<Rightarrow> int" where
  "Execute r = (case r of Inl e \<Rightarrow> 1 | Inr x \<Rightarrow> 0)"

fun flag_names :: "cli_flag \<Rightarrow> string list" where
  "flag_names (StringFlag n s d) = n # (if s = [] then [] else [s])"
| "flag_names (BoolFlag n d) = [n]"

text \<open>No command defines a flag or a shorthand twice, which the flag package answers with a panic.\<close>

lemma flags_distinct:
  "list_all (\<lambda>c. distinct (concat (map flag_names (coFlags c @ persistent_flags)))) main_commands"
  by code_simp

section \<open>Apply\<close>

definition runApply :: "main_env \<Rightarrow> (string \<Rightarrow> string + StateFile) \<Rightarrow> (string \<Rightarrow> string option) \<Rightarrow> (string \<Rightarrow> string option)
    \<Rightarrow> string \<Rightarrow> bool \<Rightarrow> bool \<Rightarrow> string \<Rightarrow> file_map \<Rightarrow> store \<Rightarrow> (main_error + string) \<times> store" where
  "runApply env unmarshal lookupEnv bcrypt cfgFile dryRun resetPasswords arg fs s =
     (case Load (cmViper env) cfgFile of
        Inl e \<Rightarrow> (Inl (ConfigFailed e), s)
      | Inr cfg \<Rightarrow> (case LoadState (ReadFile env fs) unmarshal lookupEnv arg of
          Inl e \<Rightarrow> (Inl (StateFailed e), s)
        | Inr sf \<Rightarrow> (case cmOpen env (cfDBPath cfg) of
            Some e \<Rightarrow> (Inl (DatabaseFailed e), s)
          | None \<Rightarrow>
              (case Apply bcrypt sf \<lparr>DryRun = dryRun, ResetPasswords = resetPasswords, NoConfirm = False\<rparr> s of
                 (Some e, s', report) \<Rightarrow> (Inl (ApplyFailed e), s')
               | (None, s', report) \<Rightarrow> (Inr (ReportString report), s')))))"

section \<open>Serve\<close>

text \<open>The warnings logged, the outcome up to the listeners, and the database the start leaves. \<open>stat\<close> gives
  the permission bits of a file and \<open>stateFile\<close> is the variable \<open>YAAMON_STATE_FILE\<close>.\<close>

definition runServe :: "main_env \<Rightarrow> 'sd new_env \<Rightarrow> net_env \<Rightarrow> (string \<Rightarrow> string \<Rightarrow> 'c option) \<Rightarrow> 'c option \<Rightarrow> (headers \<Rightarrow> headers)
    \<Rightarrow> (string \<Rightarrow> 32 word option) \<Rightarrow> string \<Rightarrow> (server \<Rightarrow> handler) \<Rightarrow> string \<Rightarrow> store
    \<Rightarrow> (main_error + server \<times> 'c listeners) \<times> perm_warning list \<times> store" where
  "runServe env nenv net load generate quic stat stateFile app cfgFile s =
     (case Load (cmViper env) cfgFile of
        Inl e \<Rightarrow> (Inl (ConfigFailed e), [], s)
      | Inr cfg \<Rightarrow>
          (let warnings = CheckFilePermissions stat cfg stateFile in
           case cmOpen env (cfDBPath cfg) of
             Some e \<Rightarrow> (Inl (DatabaseFailed e), warnings, s)
           | None \<Rightarrow> (case New nenv cfg s of
               (Inl e, s') \<Rightarrow> (Inl (InitFailed e), warnings, s')
             | (Inr sv, s') \<Rightarrow> (case listenAndServe net load generate quic cfg (app sv) of
                 Inl e \<Rightarrow> (Inl (ServeFailed e), warnings, s')
               | Inr ls \<Rightarrow> (Inr (sv, ls), warnings, s')))))"

section \<open>Back up, restore, inspect\<close>

definition backup_path :: "main_env \<Rightarrow> string \<Rightarrow> Manifest \<Rightarrow> string" where
  "backup_path env out m = (if out = [] then ''yaamon-'' @ cmStamp env (mfCreatedAt m) @ ''.owbackup'' else out)"

definition bool_text :: "bool \<Rightarrow> string" where
  "bool_text b = (if b then ''true'' else ''false'')"

definition runBackup :: "main_env \<Rightarrow> codec \<Rightarrow> backup_env \<Rightarrow> string \<Rightarrow> string \<Rightarrow> string \<Rightarrow> file_map \<Rightarrow> (main_error + string) \<times> file_map" where
  "runBackup env cd benv cfgFile passphrase out fs =
     (case Load (cmViper env) cfgFile of
        Inl e \<Rightarrow> (Inl (ConfigFailed e), fs)
      | Inr cfg \<Rightarrow> (case cmOpen env (cfDBPath cfg) of
          Some e \<Rightarrow> (Inl (DatabaseFailed e), fs)
        | None \<Rightarrow>
            (let (data, manifest) = Create cd benv (cmVersion env) passphrase; path = backup_path env out manifest in
             case cmWriteError env path of
               Some (e, None) \<Rightarrow> (Inl (WriteFailed e), fs)
             | Some (e, Some part) \<Rightarrow> (Inl (WriteFailed e), fs(path \<mapsto> part))
             | None \<Rightarrow>
                 (Inr (''Backup written to '' @ path @ '' ('' @ FormatInt (int (length data)) @ '' bytes, encrypted=''
                    @ bool_text (mfEncrypted manifest) @ '')''),
                  fs(path \<mapsto> data)))))"

text \<open>The backup is read before the database is opened. \<open>pre\<close> is the path of the backup \<open>Restore\<close> makes first.\<close>

definition runRestore :: "main_env \<Rightarrow> codec \<Rightarrow> backup_env \<Rightarrow> io_result \<Rightarrow> string \<Rightarrow> string \<Rightarrow> string \<Rightarrow> string \<Rightarrow> file_map
    \<Rightarrow> (main_error + string) \<times> file_map" where
  "runRestore env cd benv io pre cfgFile passphrase arg fs =
     (case Load (cmViper env) cfgFile of
        Inl e \<Rightarrow> (Inl (ConfigFailed e), fs)
      | Inr cfg \<Rightarrow> (case ReadFile env fs arg of
          Inl e \<Rightarrow> (Inl (ReadFailed e), fs)
        | Inr data \<Rightarrow> (case cmOpen env (cfDBPath cfg) of
            Some e \<Rightarrow> (Inl (DatabaseFailed e), fs)
          | None \<Rightarrow> (case Restore cd benv io (cfDBPath cfg) pre (cmVersion env) data passphrase fs of
              ((path, Some e), fs') \<Rightarrow> (Inl (RestoreFailed e), fs')
            | ((path, None), fs') \<Rightarrow> (Inr path, fs')))))"

definition manifest_lines :: "main_env \<Rightarrow> Manifest \<Rightarrow> string list" where
  "manifest_lines env m =
     [''Format:         '' @ mfFormat m @ '' v'' @ FormatInt (mfFormatVersion m),
      ''App Version:    '' @ mfAppVersion m,
      ''Schema Version: '' @ FormatInt (int (mfSchemaVersion m)),
      ''Created At:     '' @ cmLocal env (mfCreatedAt m),
      ''Hostname:       '' @ mfHostname m,
      ''Encrypted:      '' @ bool_text (mfEncrypted m),
      ''Contents:       '' @ FormatInt (int (stNodes (mfContents m))) @ '' nodes, ''
        @ FormatInt (int (stFavorites (mfContents m))) @ '' favorites, ''
        @ FormatInt (int (stUsers (mfContents m))) @ '' users, '' @ FormatInt (int (stConfigs (mfContents m))) @ '' configs'']"

definition runInspect :: "main_env \<Rightarrow> codec \<Rightarrow> string \<Rightarrow> file_map \<Rightarrow> main_error + string list" where
  "runInspect env cd arg fs =
     (case ReadFile env fs arg of
        Inl e \<Rightarrow> Inl (ReadFailed e)
      | Inr data \<Rightarrow> (case Inspect cd data of Inl e \<Rightarrow> Inl (InspectFailed e) | Inr m \<Rightarrow> Inr (manifest_lines env m)))"

section \<open>What the commands do\<close>

lemma runApply_dry:
  assumes "runApply env unmarshal lookupEnv bcrypt cfgFile True reset arg fs s = (r, s')"
  shows "s' = s"
proof -
  have dry: "fst (snd (Apply bcrypt sf \<lparr>DryRun = True, ResetPasswords = reset, NoConfirm = False\<rparr> s)) = s" for sf
    by (rule Apply_dry) simp
  have "s' = s" if "Apply bcrypt sf \<lparr>DryRun = True, ResetPasswords = reset, NoConfirm = False\<rparr> s = (e, s', report)" for sf e report
    using dry [of sf] that by simp
  then show ?thesis
    using assms by (auto simp: runApply_def split: sum.splits option.splits prod.splits)
qed

text \<open>Every step of the start has succeeded when there are listeners.\<close>

lemma runServe_InrD:
  assumes "runServe env nenv net load generate quic stat stateFile app cfgFile s = (Inr (sv, ls), ws, s')"
  obtains cfg where "Load (cmViper env) cfgFile = Inr cfg" "cmOpen env (cfDBPath cfg) = None"
    "ws = CheckFilePermissions stat cfg stateFile" "New nenv cfg s = (Inr sv, s')"
    "listenAndServe net load generate quic cfg (app sv) = Inr ls"
  using assms by (auto simp: runServe_def Let_def split: sum.splits option.splits prod.splits)

text \<open>A restore that fails has left the database file as it was.\<close>

lemma runRestore_failed:
  assumes "runRestore env cd benv io pre cfgFile pass arg fs = (Inl e, fs')"
    and "Load (cmViper env) cfgFile = Inr cfg" and "cfDBPath cfg \<notin> {pre, ioTempName io}" and "pre \<noteq> ioTempName io"
    and "fs (ioTempName io) = None"
  shows "fs' (cfDBPath cfg) = fs (cfDBPath cfg)"
  using assms Restore_failed [where io = io and dbPath = "cfDBPath cfg" and pre = pre and fs = fs, OF _ assms(3-5)]
  by (fastforce simp: runRestore_def split: sum.splits option.splits prod.splits if_splits)

text \<open>C28: a backup written by \<open>yaamon backup\<close> is restored by \<open>yaamon restore\<close> with the same passphrase, on the
  same or another installation and whatever happens to other files in between: the database file there
  becomes the database that was backed up, beside a backup of the one it replaces, when the files of the
  restore can be written; and
  \<open>yaamon inspect\<close> prints the manifest of that backup.\<close>

theorem backup_file_restores:
  assumes "runBackup env cd benv cfgFile pass out fs = (Inr msg, fs1)"
    and "path = backup_path env out m" and "m = manifestOf benv (cmVersion env) (pass \<noteq> [])"
    and "manifest_reads_back cd m" and "length (cManifestJSON cd m) + 10 < 2 ^ 32" and "archive_reads_back cd benv m"
    and "pass \<noteq> [] \<longrightarrow> cipher_opens cd benv pass (buildTarGz cd (beDump benv) m)"
    and "fs2 path = fs1 path" and "cmReadError env' path = None"
    and "Load (cmViper env') cfgFile' = Inr cfg" and "cmOpen env' (cfDBPath cfg) = None"
    and "fs2 tmp = None" and "tmp \<noteq> pre"
  shows "runRestore env' cd benv' (io_ok tmp) pre cfgFile' pass path fs2
      = (Inr pre, fs2(pre \<mapsto> fst (Create cd benv' (cmVersion env') []), cfDBPath cfg \<mapsto> beDump benv))
    \<and> runInspect env' cd path fs2 = Inr (manifest_lines env' m)"
proof -
  let ?data = "fst (Create cd benv (cmVersion env) pass)"
  have m: "snd (Create cd benv (cmVersion env) pass) = m" by (simp add: Create_def assms(3) Let_def)
  have "fs1 path = Some ?data"
    using assms(1,2) m by (auto simp: runBackup_def Let_def case_prod_beta split: sum.splits option.splits)
  then have read: "ReadFile env' fs2 path = Inr ?data" using assms(8,9) by (simp add: ReadFile_def)
  have "Inspect cd ?data = Inr m"
    using assms(3) splitFile_Create [OF assms(4,5) [unfolded assms(3)]] by (simp add: Inspect_def)
  moreover have "pass \<noteq> [] \<longrightarrow> cipher_opens cd benv pass (buildTarGz cd (beDump benv) (manifestOf benv (cmVersion env) True))"
    using assms(3,7) by simp
  note restores = backup_restores [where fs = fs2 and tmp = tmp and pre = pre, OF assms(4-6) [unfolded assms(3)] this assms(12,13)]
  ultimately show ?thesis
    using read by (simp add: runRestore_def runInspect_def assms(10,11) restores)
qed

definition demoMain :: main_env where
  "demoMain = \<lparr>cmViper = \<lparr>vpReadInConfig = (\<lambda>f. ConfigFileNotFound), vpUnmarshal = (\<lambda>n d f. Inr d)\<rparr>, cmOpen = (\<lambda>p. None),
     cmReadError = (\<lambda>p. None), cmWriteError = (\<lambda>p. None), cmStamp = (\<lambda>t. ''now''), cmLocal = (\<lambda>t. ''now''), cmVersion = ''1.0''\<rparr>"

lemma demo_config: "Load (cmViper demoMain) [] = Inr (fst (finish_load default_config))"
  using default_config_valid by (auto simp: Load_def demoMain_def default_config_def case_prod_beta split: option.split)

theorem backup_file_restores_witness:
  "\<exists>fs1. snd (runBackup demoMain demoCodec demoEnv [] ''secret'' [] Map.empty) = fs1
     \<and> snd (runRestore demoMain demoCodec demoEnv (io_ok ''/tmp'') ''/pre'' [] ''secret''
         ''yaamon-now.owbackup'' fs1) ''/var/lib/yaamon/yaamon.db'' = Some ''SQLite format 3''"
proof -
  let ?m = "manifestOf demoEnv (cmVersion demoMain) (''secret'' \<noteq> [])"
  obtain msg fs1 where run: "runBackup demoMain demoCodec demoEnv [] ''secret'' [] Map.empty = (Inr msg, fs1)"
  proof -
    have "\<exists>msg fs1. runBackup demoMain demoCodec demoEnv [] ''secret'' [] Map.empty = (Inr msg, fs1)"
      unfolding runBackup_def demo_config by (simp add: demoMain_def case_prod_beta Let_def)
    then show thesis using that by blast
  qed
  have path: "''yaamon-now.owbackup'' = backup_path demoMain [] ?m" by (simp add: backup_path_def demoMain_def)
  have tmp: "fs1 ''/tmp'' = None"
    using run unfolding runBackup_def demo_config
    by (auto simp: demoMain_def backup_path_def case_prod_beta Let_def)
  have db: "cfDBPath (fst (finish_load default_config)) = ''/var/lib/yaamon/yaamon.db''" by code_simp
  have "runRestore demoMain demoCodec demoEnv (io_ok ''/tmp'') ''/pre'' [] ''secret''
      ''yaamon-now.owbackup'' fs1
    = (Inr ''/pre'', fs1(''/pre'' \<mapsto> fst (Create demoCodec demoEnv (cmVersion demoMain) []),
        cfDBPath (fst (finish_load default_config)) \<mapsto> beDump demoEnv))
    \<and> runInspect demoMain demoCodec ''yaamon-now.owbackup'' fs1 = Inr (manifest_lines demoMain ?m)"
    by (rule backup_file_restores [where ?fs2.0 = fs1 and m = ?m, OF run path _ _ _ _ _ _ _ demo_config _ tmp])
      (simp_all add: manifest_reads_back_def archive_reads_back_def cipher_opens_def buildTarGz_def
        demoCodec_def demoMain_def, simp_all add: demoEnv_def)
  then show ?thesis using run db by (simp add: demoEnv_def)
qed

end
