(* ===== verification/Mdns.thy ===== *)
theory Mdns
  imports Ami_Client "HOL-Library.Word"
begin

unbundle bit_operations_syntax

text \<open>
  \<open>internal/mdns/mdns.go\<close>: the resolver of \<open>.local\<close> names that the AMI client dials. The DNS message
  format (golang.org/x/net/dns/dnsmessage) is a parameter; the socket is the sequence of datagrams
  that arrive on it, with their times.
\<close>

definition mdnsTimeout :: int where "mdnsTimeout = 2 * 10 ^ 9"

definition IsLocal :: "string \<Rightarrow> bool" where
  "IsLocal host = HasSuffix (ToLower (TrimSuffix host ''.'')) ''.local''"

section \<open>Messages\<close>

definition TypeA :: nat where "TypeA = 1"
definition ClassINET :: nat where "ClassINET = 1"

record dns_question =
  dqName :: string
  dqType :: nat
  dqClass :: nat

datatype dns_body = AResource "8 word" "8 word" "8 word" "8 word" | OtherResource

record dns_answer =
  daName :: string
  daType :: nat
  daBody :: dns_body

text \<open>\<open>NewName\<close> checks a name, \<open>Pack\<close> encodes a message of one question and \<open>Unpack\<close> gives the answers of a message.\<close>

record dns_lib =
  dnNewName :: "string \<Rightarrow> string option"
  dnPack :: "dns_question \<Rightarrow> string option"
  dnUnpack :: "string \<Rightarrow> dns_answer list option"

datatype query_error = InvalidHostname | PackFailed | PacketPanic

text \<open>\<open>|= 0x80\<close> on a byte.\<close>

definition set_top_bit :: "char \<Rightarrow> char" where
  "set_top_bit c = char_of (unat ((of_char c :: 8 word) OR 0x80))"

definition buildQuery :: "dns_lib \<Rightarrow> string \<Rightarrow> query_error + string" where
  "buildQuery lib host =
     (case dnNewName lib (TrimSuffix host ''.'' @ ''.'') of
        None \<Rightarrow> Inl InvalidHostname
      | Some name \<Rightarrow> (case dnPack lib \<lparr>dqName = name, dqType = TypeA, dqClass = ClassINET\<rparr> of
          None \<Rightarrow> Inl PackFailed
        | Some pkt \<Rightarrow>
            if length pkt < 2 then Inl PacketPanic
            else Inr (pkt[length pkt - 2 := set_top_bit (pkt ! (length pkt - 2))])))"

type_synonym ipv4 = "8 word \<times> 8 word \<times> 8 word \<times> 8 word"

fun match_answers :: "string \<Rightarrow> dns_answer list \<Rightarrow> ipv4 option" where
  "match_answers fqdn [] = None"
| "match_answers fqdn (ans # rest) =
     (if daType ans \<noteq> TypeA then match_answers fqdn rest
      else if ToLower (daName ans) \<noteq> fqdn then match_answers fqdn rest
      else (case daBody ans of AResource a b c d \<Rightarrow> Some (a, b, c, d) | OtherResource \<Rightarrow> match_answers fqdn rest))"

definition parseResponse :: "dns_lib \<Rightarrow> string \<Rightarrow> string \<Rightarrow> ipv4 option" where
  "parseResponse lib msg fqdn =
     (case dnUnpack lib msg of None \<Rightarrow> None | Some answers \<Rightarrow> match_answers fqdn answers)"

section \<open>The lookup\<close>

text \<open>
  \<open>arrive i\<close> is the time and content of the datagram the \<open>i\<close>th read gets, \<open>None\<close> if there is none: a
  read of a socket with a deadline fails at the deadline. The buffer takes 9000 bytes of a datagram.
\<close>

type_synonym arrivals = "nat \<Rightarrow> (int \<times> string) option"

partial_function (option) read_loop :: "dns_lib \<Rightarrow> string \<Rightarrow> int \<Rightarrow> arrivals \<Rightarrow> nat \<Rightarrow> ipv4 option option" where
  "read_loop lib fqdn deadline arrive i =
     (case arrive i of
        None \<Rightarrow> Some None
      | Some (t, dgram) \<Rightarrow>
          if deadline \<le> t then Some None
          else (case parseResponse lib (take 9000 dgram) fqdn of
              Some ip \<Rightarrow> Some (Some ip)
            | None \<Rightarrow> read_loop lib fqdn deadline arrive (Suc i)))"

datatype resolve_error = BadQuery query_error | ListenFailed | SendFailed | NoResponse string

definition mdns_deadline :: "int \<Rightarrow> int option \<Rightarrow> int" where
  "mdns_deadline now ctxDeadline =
     (case ctxDeadline of None \<Rightarrow> now + mdnsTimeout
      | Some dl \<Rightarrow> if dl < now + mdnsTimeout then dl else now + mdnsTimeout)"

text \<open>\<open>None\<close> is a lookup that does not return; \<open>listens\<close> and \<open>sends\<close> say whether the socket can be opened and
  the query sent.\<close>

definition Resolve :: "dns_lib \<Rightarrow> bool \<Rightarrow> bool \<Rightarrow> int \<Rightarrow> int option \<Rightarrow> arrivals \<Rightarrow> string \<Rightarrow> (resolve_error + ipv4) option" where
  "Resolve lib listens sends now ctxDeadline arrive host =
     (case buildQuery lib host of
        Inl e \<Rightarrow> Some (Inl (BadQuery e))
      | Inr pkt \<Rightarrow>
          if \<not> listens then Some (Inl ListenFailed)
          else if \<not> sends then Some (Inl SendFailed)
          else (case read_loop lib (ToLower (TrimSuffix host ''.'') @ ''.'') (mdns_deadline now ctxDeadline) arrive 0 of
              None \<Rightarrow> None
            | Some None \<Rightarrow> Some (Inl (NoResponse host))
            | Some (Some ip) \<Rightarrow> Some (Inr ip)))"

text \<open>\<open>ip.String()\<close>, and the host \<open>dialAMI\<close> of the AMI client dials.\<close>

definition ip_text :: "ipv4 \<Rightarrow> string" where
  "ip_text ip = (case ip of (a, b, c, d) \<Rightarrow>
     Join (map (\<lambda>x. FormatInt (uint x)) [a, b, c, d]) ''.'')"

definition ami_dial_host :: "(string \<Rightarrow> (resolve_error + ipv4) option) \<Rightarrow> (string \<Rightarrow> string list option) \<Rightarrow> string \<Rightarrow> string option" where
  "ami_dial_host resolve lookup host =
     dial_host IsLocal (\<lambda>h. case resolve h of Some (Inr ip) \<Rightarrow> Some (ip_text ip) | _ \<Rightarrow> None) lookup host"

section \<open>The loop ends\<close>

text \<open>The clock of a host moves on from one datagram to the next.\<close>

definition times_increase :: "arrivals \<Rightarrow> bool" where
  "times_increase arrive \<longleftrightarrow> (\<forall>i t p t' p'. arrive i = Some (t, p) \<longrightarrow> arrive (Suc i) = Some (t', p') \<longrightarrow> t < t')"

definition in_time :: "int \<Rightarrow> arrivals \<Rightarrow> nat \<Rightarrow> bool" where
  "in_time deadline arrive i = (case arrive i of None \<Rightarrow> False | Some (t, p) \<Rightarrow> t < deadline)"

lemma in_time_bound:
  assumes "times_increase arrive" and "arrive 0 = Some (t0, p0)" and "\<forall>j \<le> i. in_time deadline arrive j"
  shows "\<exists>t p. arrive i = Some (t, p) \<and> t0 + int i \<le> t \<and> t < deadline"
  using assms(3)
proof (induction i)
  case 0
  then show ?case using assms(2) by (auto simp: in_time_def)
next
  case (Suc i)
  then obtain t p where i: "arrive i = Some (t, p)" "t0 + int i \<le> t" by auto
  from Suc.prems obtain t' p' where s: "arrive (Suc i) = Some (t', p')" "t' < deadline"
    by (auto simp: in_time_def split: option.splits)
  have "t < t'" using assms(1) i(1) s(1) by (auto simp: times_increase_def)
  with i s show ?case by auto
qed

lemma some_late:
  assumes "times_increase arrive"
  shows "\<exists>n. \<not> in_time deadline arrive n"
proof (rule ccontr)
  assume "\<nexists>n. \<not> in_time deadline arrive n"
  then have all: "in_time deadline arrive i" for i by blast
  obtain t0 p0 where z: "arrive 0 = Some (t0, p0)" using all [of 0] by (auto simp: in_time_def split: option.splits)
  from in_time_bound [OF assms z, of "nat (deadline - t0)"] all obtain t p where "t0 + int (nat (deadline - t0)) \<le> t" "t < deadline"
    by blast
  then show False by linarith
qed

text \<open>The datagrams read before the first that is late, and the first address among them.\<close>

definition first_late :: "int \<Rightarrow> arrivals \<Rightarrow> nat" where
  "first_late deadline arrive = (LEAST n. \<not> in_time deadline arrive n)"

fun first_address :: "dns_lib \<Rightarrow> string \<Rightarrow> string list \<Rightarrow> ipv4 option" where
  "first_address lib fqdn [] = None"
| "first_address lib fqdn (p # ps) =
     (case parseResponse lib (take 9000 p) fqdn of Some ip \<Rightarrow> Some ip | None \<Rightarrow> first_address lib fqdn ps)"

lemma read_loop_upto:
  assumes "i \<le> n" and "\<forall>j. i \<le> j \<longrightarrow> j < n \<longrightarrow> in_time deadline arrive j" and "\<not> in_time deadline arrive n"
  shows "read_loop lib fqdn deadline arrive i = Some (first_address lib fqdn (map (\<lambda>j. snd (the (arrive j))) [i..<n]))"
  using assms
proof (induction "n - i" arbitrary: i)
  case 0
  then have "i = n" by simp
  with assms(3) show ?case
    by (subst read_loop.simps) (auto simp: in_time_def split: option.splits)
next
  case (Suc k)
  then have lt: "i < n" by simp
  then obtain t p where ip: "arrive i = Some (t, p)" "\<not> deadline \<le> t"
    using Suc.prems(2) by (auto simp: in_time_def split: option.splits)
  have "read_loop lib fqdn deadline arrive (Suc i)
      = Some (first_address lib fqdn (map (\<lambda>j. snd (the (arrive j))) [Suc i..<n]))"
    using Suc.hyps(2) Suc.prems lt by (intro Suc.hyps(1)) auto
  then show ?case
    by (subst read_loop.simps) (simp add: ip upt_conv_Cons [OF lt] split: option.split)
qed

text \<open>C31: a lookup returns: however many datagrams come in, as long as time passes between them, its loop reaches the
  deadline; and its answer is the first address for the name in the messages that came within two seconds and
  before the caller's deadline, if there is one: every message until the first that is too late for either.\<close>

theorem Resolve_returns:
  assumes "times_increase arrive" and "buildQuery lib host = Inr pkt"
  shows "\<exists>ds. Resolve lib True True now ctxDeadline arrive host =
      Some (case first_address lib (ToLower (TrimSuffix host ''.'') @ ''.'') ds of
              Some ip \<Rightarrow> Inr ip | None \<Rightarrow> Inl (NoResponse host))
    \<and> (\<forall>i < length ds. \<exists>t. arrive i = Some (t, ds ! i) \<and> t < now + mdnsTimeout \<and> (\<forall>dl. ctxDeadline = Some dl \<longrightarrow> t < dl))
    \<and> (\<forall>t p. arrive (length ds) = Some (t, p) \<longrightarrow> now + mdnsTimeout \<le> t \<or> (\<exists>dl. ctxDeadline = Some dl \<and> dl \<le> t))"
proof -
  let ?dl = "mdns_deadline now ctxDeadline"
  let ?n = "first_late ?dl arrive"
  let ?ds = "map (\<lambda>j. snd (the (arrive j))) [0..<?n]"
  have late: "\<not> in_time ?dl arrive ?n"
    unfolding first_late_def by (rule LeastI_ex [OF some_late [OF assms(1)]])
  have early: "in_time ?dl arrive j" if "j < ?n" for j
    using not_less_Least [of j "\<lambda>n. \<not> in_time ?dl arrive n"] that by (auto simp: first_late_def)
  have run: "read_loop lib (ToLower (TrimSuffix host ''.'') @ ''.'') ?dl arrive 0
      = Some (first_address lib (ToLower (TrimSuffix host ''.'') @ ''.'') ?ds)"
    by (rule read_loop_upto) (use early late in auto)
  have "Resolve lib True True now ctxDeadline arrive host =
      Some (case first_address lib (ToLower (TrimSuffix host ''.'') @ ''.'') ?ds of
              Some ip \<Rightarrow> Inr ip | None \<Rightarrow> Inl (NoResponse host))"
    unfolding Resolve_def assms(2) by (simp add: run split: option.split)
  moreover have before: "t < ?dl \<longleftrightarrow> t < now + mdnsTimeout \<and> (\<forall>dl. ctxDeadline = Some dl \<longrightarrow> t < dl)" for t
    by (auto simp: mdns_deadline_def split: option.split)
  have "\<forall>i < length ?ds. \<exists>t. arrive i = Some (t, ?ds ! i) \<and> t < ?dl"
    using early by (fastforce simp: in_time_def split: option.splits)
  then have "\<forall>i < length ?ds. \<exists>t. arrive i = Some (t, ?ds ! i) \<and> t < now + mdnsTimeout \<and> (\<forall>dl. ctxDeadline = Some dl \<longrightarrow> t < dl)"
    unfolding before .
  moreover have "now + mdnsTimeout \<le> t \<or> (\<exists>dl. ctxDeadline = Some dl \<and> dl \<le> t)"
    if "arrive (length ?ds) = Some (t, p)" for t p
  proof -
    have "\<not> t < ?dl" using late that by (simp add: in_time_def)
    then show ?thesis unfolding before by (auto simp: not_less)
  qed
  ultimately show ?thesis by blast
qed

definition demoDns :: dns_lib where
  "demoDns = \<lparr>dnNewName = Some, dnPack = (\<lambda>q. Some ''query''),
     dnUnpack = (\<lambda>m. if m = ''answer'' then Some [\<lparr>daName = ''Hub.local.'', daType = TypeA, daBody = AResource 10 0 0 7\<rparr>] else None)\<rparr>"

definition demoArrive :: arrivals where
  "demoArrive i = (if i = 0 then Some (5, ''noise'') else if i = 1 then Some (9, ''answer'') else None)"

theorem Resolve_returns_witness:
  "Resolve demoDns True True 0 (Some 10) demoArrive ''hub.local'' = Some (Inr (10, 0, 0, 7))"
proof -
  have inc: "times_increase demoArrive" by (auto simp: times_increase_def demoArrive_def)
  obtain pkt where "buildQuery demoDns ''hub.local'' = Inr pkt" by (simp add: buildQuery_def demoDns_def)
  from Resolve_returns [OF inc this, of 0 "Some 10"] obtain ds where
    r: "Resolve demoDns True True 0 (Some 10) demoArrive ''hub.local'' =
      Some (case first_address demoDns (ToLower (TrimSuffix ''hub.local'' ''.'') @ ''.'') ds of
              Some ip \<Rightarrow> Inr ip | None \<Rightarrow> Inl (NoResponse ''hub.local''))"
    and got: "\<forall>i < length ds. \<exists>t. demoArrive i = Some (t, ds ! i) \<and> t < 0 + mdnsTimeout \<and> (\<forall>dl. Some 10 = Some dl \<longrightarrow> t < dl)"
    and stop: "\<forall>t p. demoArrive (length ds) = Some (t, p) \<longrightarrow> 0 + mdnsTimeout \<le> t \<or> (\<exists>dl. Some 10 = Some dl \<and> dl \<le> t)"
    by blast
  have "length ds \<noteq> 0" "length ds \<noteq> 1"
    using stop by (force simp: mdnsTimeout_def demoArrive_def simp del: length_0_conv)+
  moreover have "\<not> 2 < length ds" using got by (force simp: demoArrive_def)
  ultimately have "length ds = 2" by linarith
  have "\<exists>t. demoArrive 0 = Some (t, ds ! 0)" "\<exists>t. demoArrive 1 = Some (t, ds ! 1)"
    using got [rule_format, of 0] got [rule_format, of 1] \<open>length ds = 2\<close> by auto
  then have "ds ! 0 = ''noise''" "ds ! 1 = ''answer''" by (simp_all add: demoArrive_def)
  with \<open>length ds = 2\<close> have ds: "ds = [''noise'', ''answer'']" by (auto simp: numeral_2_eq_2 length_Suc_conv)
  have "first_address demoDns (ToLower (TrimSuffix ''hub.local'' ''.'') @ ''.'') ds = Some (10, 0, 0, 7)"
    unfolding ds by code_simp
  with r show ?thesis by simp
qed

text \<open>An answer is for the name asked, up to the case of letters and a trailing dot.\<close>

lemma match_answers_SomeD:
  "match_answers fqdn answers = Some ip \<Longrightarrow>
     \<exists>ans \<in> set answers. daType ans = TypeA \<and> ToLower (daName ans) = fqdn"
  by (induction answers) (auto split: if_splits dns_body.splits)

text \<open>The query asks for a unicast answer: the top bit of the class, its last but one byte, is set and no other byte
  differs from the packed message.\<close>

lemma buildQuery_InrD:
  assumes "buildQuery lib host = Inr pkt"
  shows "\<exists>name p. dnNewName lib (TrimSuffix host ''.'' @ ''.'') = Some name
    \<and> dnPack lib \<lparr>dqName = name, dqType = TypeA, dqClass = ClassINET\<rparr> = Some p
    \<and> length pkt = length p \<and> (\<forall>i < length p. i \<noteq> length p - 2 \<longrightarrow> pkt ! i = p ! i)
    \<and> pkt ! (length p - 2) = set_top_bit (p ! (length p - 2))"
  using assms by (auto simp: buildQuery_def split: option.splits if_splits)

text \<open>Names that are not \<open>.local\<close> are dialled as they are.\<close>

lemma ami_dial_other: "\<not> IsLocal host \<Longrightarrow> ami_dial_host resolve lookup host = Some host"
  by (simp add: ami_dial_host_def dial_host_def)

end
