(* ===== verification/Server_Sse.thy ===== *)
theory Server_Sse
  imports Server_Events
begin

text \<open>
  \<open>handleSSE\<close> of \<open>internal/server/stats.go\<close>: the stream of a node's updates to a browser. What the pollers,
  the listener of AMI events and other browsers do before the subscription, between it and the snapshot
  of the caches, and after, are lists of atomic steps; a poll is two of them, with any other steps in between.
\<close>

record sse_env =
  seJson :: "NodeStats message \<Rightarrow> string"
  seJsonLinks :: "links \<Rightarrow> string"
  seDtmf :: "int \<Rightarrow> string \<Rightarrow> string \<Rightarrow> string"
  seMarshal :: "NodeStats \<Rightarrow> string option"
  seLookup :: "string \<Rightarrow> (string \<times> string) option"

text \<open>The goroutines that poll links: that of the ticker and the listener of AMI events.\<close>

datatype poller = Ticker | Listener

text \<open>
  A poller sets the cached links of a node, with the time and the answer of the node, and publishes its
  message later; results of a fetch are stored; the cached statistics of some numbers are published for a
  node; a digit is heard; another browser subscribes, leaves or reads; and the two inputs of the browser's own
  stream, a message of its channel if there is one, and the heartbeat.
\<close>

datatype sse_step =
    SetLinks poller int "ami_error + headers" int
  | SendLinks poller
  | StoreStats stats_map
  | PublishStats int "string list"
  | DigitEvent int headers
  | OtherSubscribes int
  | OtherLeaves int nat
  | OtherReceives nat
  | ClientReceives
  | ClientHeartbeat

text \<open>The server, and the message each poller has still to publish, with its node.\<close>

type_synonym sse_world = "stats_server \<times> (poller \<Rightarrow> (int \<times> string) option)"

definition sse_broker :: "stats_server \<Rightarrow> broker" where
  "sse_broker sv = lvBroker (ssLink sv)"

definition on_link :: "(link_server \<Rightarrow> link_server) \<Rightarrow> stats_server \<Rightarrow> stats_server" where
  "on_link f sv = sv\<lparr>ssLink := f (ssLink sv)\<rparr>"

definition on_broker :: "(broker \<Rightarrow> broker) \<Rightarrow> stats_server \<Rightarrow> stats_server" where
  "on_broker f sv = on_link (\<lambda>lv. lv\<lparr>lvBroker := f (lvBroker lv)\<rparr>) sv"

definition cancel :: "int \<Rightarrow> nat \<Rightarrow> broker \<Rightarrow> broker" where
  "cancel topicID ch b = cancel_close ch (cancel_remove topicID ch b)"

text \<open>Reading from a channel.\<close>

definition take_from :: "nat \<Rightarrow> broker \<Rightarrow> (string \<times> broker) option" where
  "take_from ch b =
     (if ch < length (brBufs b) then
        (case recv (brBufs b ! ch) of None \<Rightarrow> None | Some (d, q) \<Rightarrow> Some (d, b\<lparr>brBufs := (brBufs b)[ch := q]\<rparr>))
      else None)"

fun server_step :: "sse_env \<Rightarrow> sse_step \<Rightarrow> sse_world \<Rightarrow> sse_world" where
  "server_step env (SetLinks p now resp i) (sv, pend) =
     (if pend p \<noteq> None then (sv, pend)
      else (case poll_set (seJson env) now resp i (ssLink sv) of
          (msg, lv) \<Rightarrow> (sv\<lparr>ssLink := lv\<rparr>, pend(p := map_option (Pair i) msg))))"
| "server_step env (SendLinks p) (sv, pend) =
     (case pend p of
        None \<Rightarrow> (sv, pend)
      | Some (i, msg) \<Rightarrow> (on_link (poll_publish i (Some msg)) sv, pend(p := None)))"
| "server_step env (StoreStats results) (sv, pend) = (keep_results (seMarshal env) results sv, pend)"
| "server_step env (PublishStats i nums) (sv, pend) = (publishCachedStats (seJson env) (seLookup env) (i, nums) sv, pend)"
| "server_step env (DigitEvent i evt) (sv, pend) = (on_link (publish_digit (seDtmf env) i evt) sv, pend)"
| "server_step env (OtherSubscribes i) (sv, pend) = (on_broker (\<lambda>b. snd (SubscribeTopic i b)) sv, pend)"
| "server_step env (OtherLeaves i c) (sv, pend) =
     (if c \<in> set (subs i (sse_broker sv)) then on_broker (cancel i c) sv else sv, pend)"
| "server_step env (OtherReceives c) (sv, pend) =
     (case take_from c (sse_broker sv) of None \<Rightarrow> sv | Some (d, b) \<Rightarrow> on_broker (\<lambda>_. b) sv, pend)"
| "server_step env ClientReceives w = w"
| "server_step env ClientHeartbeat w = w"

text \<open>The stream of the channel \<open>ch\<close>: what it has read so far, and the server.\<close>

definition sse_step_of :: "sse_env \<Rightarrow> nat \<Rightarrow> sse_step \<Rightarrow> stream_input list \<times> sse_world \<Rightarrow> stream_input list \<times> sse_world" where
  "sse_step_of env ch st is =
     (case st of
        ClientReceives \<Rightarrow>
          (case take_from ch (sse_broker (fst (snd is))) of
             None \<Rightarrow> is
           | Some (d, b) \<Rightarrow> (fst is @ [SData d], on_broker (\<lambda>_. b) (fst (snd is)), snd (snd is)))
      | ClientHeartbeat \<Rightarrow> (fst is @ [SHeartbeat], snd is)
      | _ \<Rightarrow> (fst is, server_step env st (snd is)))"

text \<open>The subscription, the snapshot, and the stream: the initial messages, what is read, the server.\<close>

definition sse_session :: "sse_env \<Rightarrow> int \<Rightarrow> sse_step list \<Rightarrow> sse_step list \<Rightarrow> sse_world
    \<Rightarrow> nat \<times> string list \<times> stream_input list \<times> sse_world" where
  "sse_session env nodeID before after w =
     (let (ch, b) = SubscribeTopic nodeID (sse_broker (fst w));
          w1 = fold (server_step env) before (on_broker (\<lambda>_. b) (fst w), snd w);
          initial = sse_initial (seJson env) (seJsonLinks env) nodeID (fst w1);
          (ins, w2) = fold (sse_step_of env ch) after ([], w1)
      in (ch, initial, ins, w2))"

definition handleSSE :: "sse_env \<Rightarrow> bool \<Rightarrow> request \<Rightarrow> sse_step list \<Rightarrow> sse_step list \<Rightarrow> sse_world
    \<Rightarrow> ((nat \<times> string) + string) \<times> sse_world" where
  "handleSSE env flusher r before after w =
     (case ParseInt (URLParam ''nodeID'' r) of
        None \<Rightarrow> (Inl (400, ''invalid node id''), w)
      | Some nodeID \<Rightarrow>
          (case sse_session env nodeID before after w of
             (ch, initial, ins, w2) \<Rightarrow>
               (StreamFrom flusher initial ins, on_broker (cancel nodeID ch) (fst w2), snd w2)))"

section \<open>What the browser is shown\<close>

text \<open>\<open>shows\<close> reads the links of a message, if it is one of links; \<open>None\<close> is the table null.\<close>

definition reads_links :: "sse_env \<Rightarrow> (string \<Rightarrow> links option option) \<Rightarrow> bool" where
  "reads_links env shows \<longleftrightarrow> (\<forall>i ls tx. shows (seJson env (LinksMsg i ls tx)) = Some ls)
     \<and> (\<forall>i st. shows (seJson env (StatsMsg i st)) = None) \<and> (\<forall>ls. shows (seJsonLinks env ls) = Some (Some ls))
     \<and> (\<forall>i digit chan. shows (seDtmf env i digit chan) = None)"

definition stream_data :: "stream_input list \<Rightarrow> string list" where
  "stream_data ins = concat (map (\<lambda>i. case i of SData d \<Rightarrow> [d] | _ \<Rightarrow> []) ins)"

definition links_shown :: "(string \<Rightarrow> links option option) \<Rightarrow> string list \<Rightarrow> links option list" where
  "links_shown shows ms = List.map_filter shows ms"

text \<open>The page takes the tables and skips null.\<close>

definition page_tables :: "links option list \<Rightarrow> links list" where
  "page_tables shown = List.map_filter (\<lambda>t. t) shown"

definition table_of_msg :: "links option \<Rightarrow> links" where
  "table_of_msg t = (case t of None \<Rightarrow> [] | Some m \<Rightarrow> m)"

text \<open>What the pollers have still to publish for a node.\<close>

definition pending_for :: "int \<Rightarrow> (poller \<Rightarrow> (int \<times> string) option) \<Rightarrow> string list" where
  "pending_for nodeID pend =
     concat (map (\<lambda>p. case pend p of None \<Rightarrow> [] | Some (i, m) \<Rightarrow> if i = nodeID then [m] else []) [Ticker, Listener])"

definition link_view :: "int \<Rightarrow> stats_server \<Rightarrow> bool \<times> (string \<Rightarrow> (string \<times> bool) option)" where
  "link_view nodeID sv = (case links_get nodeID (lvLinks (ssLink sv)) of (ls, ok) \<Rightarrow> (ok, visible ls))"

text \<open>
  The polls of a node do not overlap: one starts only when the other poller is not between the two steps
  of its own. \<open>busy\<close> is the poller that has set the links of the node and not gone on to publish.
\<close>

definition busy_step :: "int \<Rightarrow> sse_step \<Rightarrow> poller option \<Rightarrow> poller option" where
  "busy_step nodeID st busy =
     (case st of
        SetLinks p now resp i \<Rightarrow> if i = nodeID then Some p else busy
      | SendLinks p \<Rightarrow> if busy = Some p then None else busy
      | _ \<Rightarrow> busy)"

definition may_start :: "int \<Rightarrow> sse_step \<Rightarrow> poller option \<Rightarrow> bool" where
  "may_start nodeID st busy =
     (case st of SetLinks p now resp i \<Rightarrow> i = nodeID \<longrightarrow> busy = None \<or> busy = Some p | _ \<Rightarrow> True)"

fun one_at_a_time :: "int \<Rightarrow> poller option \<Rightarrow> sse_step list \<Rightarrow> bool" where
  "one_at_a_time nodeID busy [] = True"
| "one_at_a_time nodeID busy (st # sts) =
     (may_start nodeID st busy \<and> one_at_a_time nodeID (busy_step nodeID st busy) sts)"

text \<open>The browser keeps up: when something is published, its channel has room.\<close>

definition stream_step :: "sse_env \<Rightarrow> nat \<Rightarrow> bool \<Rightarrow> sse_step \<Rightarrow> stream_input list \<times> sse_world \<Rightarrow> stream_input list \<times> sse_world" where
  "stream_step env ch reading st is =
     (if reading then sse_step_of env ch st is else (fst is, server_step env st (snd is)))"

definition publishes :: "sse_step \<Rightarrow> bool" where
  "publishes st = (case st of SendLinks p \<Rightarrow> True | PublishStats i nums \<Rightarrow> True | DigitEvent i evt \<Rightarrow> True | _ \<Rightarrow> False)"

fun has_room :: "sse_env \<Rightarrow> nat \<Rightarrow> bool \<Rightarrow> sse_step list \<Rightarrow> stream_input list \<times> sse_world \<Rightarrow> bool" where
  "has_room env ch reading [] is = True"
| "has_room env ch reading (st # sts) is =
     ((publishes st \<longrightarrow> length (brBufs (sse_broker (fst (snd is))) ! ch) < channel_cap)
      \<and> has_room env ch reading sts (stream_step env ch reading st is))"

definition sse_keeps_up :: "sse_env \<Rightarrow> int \<Rightarrow> sse_step list \<Rightarrow> sse_step list \<Rightarrow> sse_world \<Rightarrow> bool" where
  "sse_keeps_up env nodeID before after w =
     (let (ch, b) = SubscribeTopic nodeID (sse_broker (fst w)); w0 = (on_broker (\<lambda>_. b) (fst w), snd w)
      in has_room env ch False before ([], w0)
         \<and> has_room env ch True after ([], fold (server_step env) before w0))"

text \<open>Its own channel is cancelled and read by the handler only.\<close>

definition others :: "nat \<Rightarrow> sse_step list \<Rightarrow> bool" where
  "others ch sts \<longleftrightarrow> (\<forall>i c. OtherLeaves i c \<in> set sts \<longrightarrow> c \<noteq> ch) \<and> OtherReceives ch \<notin> set sts"

section \<open>Steps of the server\<close>

lemma sse_broker_on [simp]: "sse_broker (on_broker f sv) = f (sse_broker sv)"
  by (simp add: sse_broker_def on_broker_def on_link_def)

lemma on_broker_sel [simp]: "lvLinks (ssLink (on_broker f sv)) = lvLinks (ssLink sv)"
  by (simp add: on_broker_def on_link_def)

lemma keep_results_link [simp]: "ssLink (keep_results m r sv) = ssLink sv"
  by (simp add: keep_results_def)

lemma link_view_on [simp]: "link_view i (on_broker f sv) = link_view i sv" "link_view i (keep_results m r sv) = link_view i sv"
  by (simp_all add: link_view_def)

lemma links_shown_append [simp]: "links_shown shows (xs @ ys) = links_shown shows xs @ links_shown shows ys"
  by (induction xs) (auto simp: links_shown_def List.map_filter_simps split: option.splits)

lemma links_shown_simps [simp]:
  "links_shown shows [] = []"
  "links_shown shows (m # ms) = (case shows m of None \<Rightarrow> links_shown shows ms | Some ls \<Rightarrow> ls # links_shown shows ms)"
  by (simp_all add: links_shown_def List.map_filter_simps split: option.split)

text \<open>The publications are publications of the broker.\<close>

lemma poll_publish_broker [simp]: "on_link (poll_publish i (Some m)) sv = on_broker (Publish i m) sv"
  by (simp add: poll_publish_def on_broker_def on_link_def)

lemma publish_digit_broker:
  "on_link (publish_digit dtmf i evt) sv =
     (if hget ''Digit'' evt = [] then sv else on_broker (Publish i (dtmf i (hget ''Digit'' evt) (hget ''Channel'' evt))) sv)"
  by (simp add: publish_digit_def on_broker_def on_link_def Let_def)

lemma publishCachedStats_broker:
  "publishCachedStats json lookup (i, nums) sv =
     on_broker (Publish i (json (StatsMsg i (enrichFromAMI (ssLink sv) (enrichFromAstdb lookup (stats_getMany nums (ssStats sv))))))) sv"
  by (simp add: publishCachedStats_def on_broker_def on_link_def Let_def)

text \<open>A publication for the node arrives while the channel has room; one for another node does not arrive.\<close>

lemma Publish_to:
  assumes "broker_inv b" and "ch \<in> set (subs nodeID b)"
  shows "broker_inv (Publish i d b)" "ch \<in> set (subs nodeID (Publish i d b))"
    "i = nodeID \<Longrightarrow> length (brBufs b ! ch) < channel_cap \<Longrightarrow> brBufs (Publish i d b) ! ch = brBufs b ! ch @ [d]"
    "i \<noteq> nodeID \<Longrightarrow> brBufs (Publish i d b) ! ch = brBufs b ! ch"
proof -
  note pub = Publish_effect [OF assms(1)]
  have "ch < length (brBufs b)" "\<And>i. ch \<in> set (subs i b) \<Longrightarrow> i = nodeID" using assms by (auto simp: broker_inv_def)
  with pub(5) show "i \<noteq> nodeID \<Longrightarrow> brBufs (Publish i d b) ! ch = brBufs b ! ch" by blast
  show "i = nodeID \<Longrightarrow> length (brBufs b ! ch) < channel_cap \<Longrightarrow> brBufs (Publish i d b) ! ch = brBufs b ! ch @ [d]"
    using pub(4) assms(2) by (simp add: try_send_def)
qed (use assms Publish_effect [OF assms(1)] in simp_all)

lemma other_topics:
  assumes "broker_inv b" and "ch \<in> set (subs nodeID b)"
  shows "broker_inv (snd (SubscribeTopic i b)) \<and> ch \<in> set (subs nodeID (snd (SubscribeTopic i b)))
      \<and> brBufs (snd (SubscribeTopic i b)) ! ch = brBufs b ! ch"
    "c \<in> set (subs i b) \<Longrightarrow> c \<noteq> ch \<Longrightarrow> broker_inv (cancel i c b) \<and> ch \<in> set (subs nodeID (cancel i c b))
      \<and> brBufs (cancel i c b) ! ch = brBufs b ! ch"
proof -
  have "ch < length (brBufs b)" using assms by (auto simp: broker_inv_def)
  then show "broker_inv (snd (SubscribeTopic i b)) \<and> ch \<in> set (subs nodeID (snd (SubscribeTopic i b)))
      \<and> brBufs (snd (SubscribeTopic i b)) ! ch = brBufs b ! ch"
    using SubscribeTopic_inv [OF assms(1), of i] assms(2)
    by (auto simp: SubscribeTopic_def Let_def subs_set_subs nth_append)
  assume c: "c \<in> set (subs i b)" "c \<noteq> ch"
  have rem: "broker_inv (cancel_remove i c b)" "c \<in> set (brCancelling (cancel_remove i c b))"
    using cancel_remove_inv [OF assms(1) c(1)] by (simp_all add: cancel_remove_def)
  have "c \<notin> set (brClosed (cancel_remove i c b))" using assms(1) c(1) by (auto simp: cancel_remove_def broker_inv_def)
  then show "broker_inv (cancel i c b) \<and> ch \<in> set (subs nodeID (cancel i c b)) \<and> brBufs (cancel i c b) ! ch = brBufs b ! ch"
    using cancel_close_inv(1) [OF rem] assms(2) c(2)
    by (auto simp: cancel_def cancel_close_def cancel_remove_def subs_set_subs)
qed


text \<open>
  What holds of the server between any two steps: the broker and the cache are well formed, and a message
  that a poller has still to publish for the node has the links of the cache.
\<close>

definition world_ok :: "(string \<Rightarrow> links option option) \<Rightarrow> int \<Rightarrow> poller option \<Rightarrow> sse_world \<Rightarrow> bool" where
  "world_ok shows nodeID busy w \<longleftrightarrow> broker_inv (sse_broker (fst w)) \<and> cache_ok (lvLinks (ssLink (fst w)))
     \<and> (\<forall>p m. snd w p = Some (nodeID, m) \<longrightarrow> busy = Some p
          \<and> (\<exists>t. shows m = Some t \<and> link_view nodeID (fst w) = (True, visible (table_of_msg t))))"

lemma world_ok_broker:
  "world_ok shows nodeID busy (sv, pend) \<Longrightarrow> broker_inv (f (sse_broker sv)) \<Longrightarrow> world_ok shows nodeID busy (on_broker f sv, pend)"
  by (simp add: world_ok_def)

lemma pending_set:
  "pend p = None \<Longrightarrow> \<forall>q m. pend q \<noteq> Some (nodeID, m) \<Longrightarrow> pending_for nodeID (pend(p := Some (nodeID, m))) = [m]"
  "pend p = None \<Longrightarrow> i \<noteq> nodeID \<Longrightarrow> pending_for nodeID (pend(p := Some (i, m))) = pending_for nodeID pend"
  by (cases p; auto simp: pending_for_def split: option.split)+

lemma pending_sent:
  "pend p = Some (nodeID, m) \<Longrightarrow> \<forall>q m'. q \<noteq> p \<longrightarrow> pend q \<noteq> Some (nodeID, m')
    \<Longrightarrow> pending_for nodeID pend = [m] \<and> pending_for nodeID (pend(p := None)) = []"
  "pend p = Some (i, m) \<Longrightarrow> i \<noteq> nodeID \<Longrightarrow> pending_for nodeID (pend(p := None)) = pending_for nodeID pend"
  by (cases p; auto simp: pending_for_def split: option.split)+

lemma pending_none: "\<forall>q m. pend q \<noteq> Some (nodeID, m) \<Longrightarrow> pending_for nodeID pend = []"
  by (auto simp: pending_for_def split: option.split)

text \<open>The first step of a poll.\<close>

lemma poll_set_effect:
  assumes "cache_ok (lvLinks lv)" and "poll_set json now resp i lv = (msg, lv')"
  shows "lvBroker lv' = lvBroker lv \<and> cache_ok (lvLinks lv')
    \<and> (\<forall>j. j \<noteq> i \<longrightarrow> links_get j (lvLinks lv') = links_get j (lvLinks lv))
    \<and> (case msg of
        None \<Rightarrow> snd (links_get i (lvLinks lv')) = snd (links_get i (lvLinks lv))
          \<and> visible (fst (links_get i (lvLinks lv'))) = visible (fst (links_get i (lvLinks lv)))
      | Some m \<Rightarrow> snd (links_get i (lvLinks lv')) \<and> (\<exists>t tx. m = json (LinksMsg i t tx)
          \<and> visible (fst (links_get i (lvLinks lv'))) = visible (table_of_msg t)))"
proof (cases resp)
  case (Inl e)
  with assms show ?thesis by (auto simp: poll_set_def)
next
  case (Inr h)
  define parsed where "parsed = parseRPTALinks (hget ''Output'' h)"
  obtain changed linked cache where set: "links_set now i parsed (lvLinks lv) = ((changed, linked), cache)"
    by (metis surj_pair)
  have ok: "case parsed of None \<Rightarrow> True | Some m \<Rightarrow> distinct (map fst m)"
    by (simp add: parsed_def parseRPTALinks_distinct split: option.split)
  note spec = links_set_spec [OF assms(1) ok set]
  have lv': "lv' = lv\<lparr>lvLinks := cache\<rparr>"
    and msg: "msg = (if changed then Some (json (LinksMsg i (map_option (\<lambda>_. linked) parsed) (parseRPTTXKeyed (hget ''Output'' h)))) else None)"
    using assms(2) Inr set by (auto simp: poll_set_def parsed_def Let_def)
  have "cache_ok cache" using links_set_ok [OF assms(1) ok, of now i] set by simp
  moreover have "links_get j cache = links_get j (lvLinks lv)" if "j \<noteq> i" for j
    using links_get_set [OF that, of now parsed "lvLinks lv"] set by simp
  moreover have "visible linked = visible (table_of_msg (map_option (\<lambda>_. linked) parsed))"
    using spec by (auto simp: table_of_msg_def split: option.splits)
  ultimately show ?thesis using spec by (auto simp: lv' msg)
qed

text \<open>What the stream's channel and the pollers have for the browser.\<close>

definition news :: "(string \<Rightarrow> links option option) \<Rightarrow> int \<Rightarrow> nat \<Rightarrow> sse_world \<Rightarrow> links option list" where
  "news shows nodeID ch w = links_shown shows (brBufs (sse_broker (fst w)) ! ch @ pending_for nodeID (snd w))"

text \<open>A step keeps the world well formed and the channel subscribed; it leaves the cached links
  and what is on its way as they were, or adds a message with the new links.\<close>

definition step_keeps :: "(string \<Rightarrow> links option option) \<Rightarrow> int \<Rightarrow> nat \<Rightarrow> poller option \<Rightarrow> sse_world \<Rightarrow> sse_world \<Rightarrow> bool" where
  "step_keeps shows nodeID ch busy w w' \<longleftrightarrow> world_ok shows nodeID busy w'
     \<and> (ch \<in> set (subs nodeID (sse_broker (fst w))) \<longrightarrow> ch \<in> set (subs nodeID (sse_broker (fst w')))
       \<and> ((news shows nodeID ch w' = news shows nodeID ch w \<and> link_view nodeID (fst w') = link_view nodeID (fst w))
         \<or> (\<exists>t. news shows nodeID ch w' = news shows nodeID ch w @ [t] \<and> link_view nodeID (fst w') = (True, visible (table_of_msg t)))))"

lemma step_keeps_same: "world_ok shows nodeID busy w \<Longrightarrow> step_keeps shows nodeID ch busy w w"
  by (simp add: step_keeps_def)

lemma SetLinks_keeps:
  assumes "world_ok shows nodeID busy (sv, pend)" and "reads_links env shows"
    and "may_start nodeID (SetLinks p now resp i) busy"
  shows "step_keeps shows nodeID ch (busy_step nodeID (SetLinks p now resp i) busy) (sv, pend)
    (server_step env (SetLinks p now resp i) (sv, pend))"
proof (cases "pend p")
  case (Some im)
  have "busy_step nodeID (SetLinks p now resp i) busy = (if i = nodeID then Some p else busy)" by (simp add: busy_step_def)
  moreover have "world_ok shows nodeID (if i = nodeID then Some p else busy) (sv, pend)"
    using assms(1,3) by (fastforce simp: world_ok_def may_start_def)
  ultimately show ?thesis using Some by (simp add: step_keeps_same)
next
  case None
  obtain msg lv where set: "poll_set (seJson env) now resp i (ssLink sv) = (msg, lv)" by fastforce
  have inv: "broker_inv (sse_broker sv)" "cache_ok (lvLinks (ssLink sv))" using assms(1) by (simp_all add: world_ok_def)
  note eff = poll_set_effect [OF inv(2) set]
  let ?sv = "sv\<lparr>ssLink := lv\<rparr>"
  have w': "server_step env (SetLinks p now resp i) (sv, pend) = (?sv, pend(p := map_option (Pair i) msg))"
    using None set by simp
  have broker: "sse_broker ?sv = sse_broker sv" using eff by (simp add: sse_broker_def)
  have other: "link_view nodeID ?sv = link_view nodeID sv" if "i \<noteq> nodeID" using eff that by (simp add: link_view_def)
  show ?thesis
  proof (cases "i = nodeID")
    case True
    then have alone: "\<forall>q m. pend q \<noteq> Some (nodeID, m)"
      using assms(1,3) None by (fastforce simp: world_ok_def may_start_def)
    show ?thesis
    proof (cases msg)
      case None
      then have "link_view nodeID ?sv = link_view nodeID sv" using eff True by (simp add: link_view_def case_prod_beta)
      then show ?thesis using None inv eff alone \<open>pend p = None\<close> unfolding step_keeps_def w'
        by (simp add: world_ok_def broker news_def fun_upd_idem)
    next
      case (Some m)
      then obtain t where t: "shows m = Some t" "link_view nodeID ?sv = (True, visible (table_of_msg t))"
        using eff True assms(2) by (auto simp: link_view_def reads_links_def case_prod_beta)
      have "pending_for nodeID (pend(p := Some (nodeID, m))) = [m]" by (rule pending_set(1) [OF None alone])
      then show ?thesis using Some True inv eff t alone pending_none [OF alone] unfolding step_keeps_def w'
        by (auto simp: world_ok_def broker news_def busy_step_def)
    qed
  next
    case False
    then have "pending_for nodeID (pend(p := map_option (Pair i) msg)) = pending_for nodeID pend"
      using pending_set(2) [where pend = pend and p = p and i = i and nodeID = nodeID, OF None] None by (cases msg) (simp_all add: fun_upd_idem)
    then show ?thesis using False assms(1) inv eff other [OF False] unfolding step_keeps_def w'
      by (auto simp: world_ok_def broker news_def busy_step_def)
  qed
qed

lemma publish_keeps:
  assumes "world_ok shows nodeID busy (sv, pend)" and "shows d = None"
    and "ch \<in> set (subs nodeID (sse_broker sv)) \<Longrightarrow> length (brBufs (sse_broker sv) ! ch) < channel_cap"
  shows "step_keeps shows nodeID ch busy (sv, pend) (on_broker (Publish i d) sv, pend)"
proof -
  have inv: "broker_inv (sse_broker sv)" using assms(1) by (simp add: world_ok_def)
  have "news shows nodeID ch (on_broker (Publish i d) sv, pend) = news shows nodeID ch (sv, pend)"
    if "ch \<in> set (subs nodeID (sse_broker sv))"
    using Publish_to(3,4) [OF inv that, of i d] assms(2) assms(3) [OF that] by (cases "i = nodeID") (simp_all add: news_def)
  moreover have "world_ok shows nodeID busy (on_broker (Publish i d) sv, pend)"
    using assms(1) Publish_effect(6) [OF inv] by (intro world_ok_broker)
  ultimately show ?thesis using Publish_to(2) [OF inv] by (simp add: step_keeps_def)
qed

lemma SendLinks_keeps:
  assumes "world_ok shows nodeID busy (sv, pend)"
    and "ch \<in> set (subs nodeID (sse_broker sv)) \<Longrightarrow> length (brBufs (sse_broker sv) ! ch) < channel_cap"
  shows "step_keeps shows nodeID ch (busy_step nodeID (SendLinks p) busy) (sv, pend) (server_step env (SendLinks p) (sv, pend))"
proof (cases "pend p")
  case None
  then have "world_ok shows nodeID (busy_step nodeID (SendLinks p) busy) (sv, pend)"
    using assms(1) by (auto simp: world_ok_def busy_step_def)
  with None show ?thesis by (simp add: step_keeps_same)
next
  case (Some im)
  obtain i m where im: "pend p = Some (i, m)" using Some by (cases im) simp
  have inv: "broker_inv (sse_broker sv)" using assms(1) by (simp add: world_ok_def)
  have w': "server_step env (SendLinks p) (sv, pend) = (on_broker (Publish i m) sv, pend(p := None))" using im by simp
  have ok: "world_ok shows nodeID (busy_step nodeID (SendLinks p) busy) (on_broker (Publish i m) sv, pend(p := None))"
    using assms(1) Publish_effect(6) [OF inv, of i m] by (fastforce simp: world_ok_def busy_step_def)
  have "news shows nodeID ch (on_broker (Publish i m) sv, pend(p := None)) = news shows nodeID ch (sv, pend)"
    if sub: "ch \<in> set (subs nodeID (sse_broker sv))"
  proof (cases "i = nodeID")
    case True
    have busy: "busy = Some q" if "pend q = Some (nodeID, m')" for q m' using assms(1) that by (simp add: world_ok_def)
    have "\<forall>q m'. q \<noteq> p \<longrightarrow> pend q \<noteq> Some (nodeID, m')" using busy [of p m] busy im True by auto
    with pending_sent(1) [of pend p nodeID m] im True
    have "pending_for nodeID pend = [m]" "pending_for nodeID (pend(p := None)) = []" by simp_all
    then show ?thesis using Publish_to(3) [OF inv sub True assms(2) [OF sub]] by (simp add: news_def)
  next
    case False
    then show ?thesis using Publish_to(4) [OF inv sub False] pending_sent(2) [where pend = pend and p = p, OF im False] by (simp add: news_def)
  qed
  then show ?thesis unfolding w' using ok Publish_to(2) [OF inv] by (simp add: step_keeps_def)
qed

text \<open>Steps that leave the links and the stream's channel alone.\<close>

lemma broker_keeps:
  assumes "world_ok shows nodeID busy (sv, pend)" and "broker_inv (f (sse_broker sv))"
    and "ch \<in> set (subs nodeID (sse_broker sv)) \<Longrightarrow>
      ch \<in> set (subs nodeID (f (sse_broker sv))) \<and> brBufs (f (sse_broker sv)) ! ch = brBufs (sse_broker sv) ! ch"
  shows "step_keeps shows nodeID ch busy (sv, pend) (on_broker f sv, pend)"
  using world_ok_broker [where f = f and sv = sv and pend = pend, OF assms(1,2)] assms(3) by (auto simp: step_keeps_def news_def)

lemma take_from_inv:
  assumes "broker_inv b" and "take_from c b = Some (d, b')"
  shows "broker_inv b' \<and> subs i b' = subs i b \<and> brBufs b ! c = d # brBufs b' ! c \<and> (ch \<noteq> c \<longrightarrow> brBufs b' ! ch = brBufs b ! ch)"
proof -
  obtain q where q: "c < length (brBufs b)" "brBufs b ! c = d # q" "b' = b\<lparr>brBufs := (brBufs b)[c := q]\<rparr>"
    using assms(2) by (auto simp: take_from_def recv_def split: if_splits list.splits)
  have "length q \<le> channel_cap" using buf_bounded [OF assms(1) q(1)] q(2) by simp
  from broker_inv_bufs [OF assms(1) this, of c] q show ?thesis by (simp add: subs_def)
qed

lemma other_steps_keep:
  assumes "world_ok shows nodeID busy (sv, pend)"
  shows "step_keeps shows nodeID ch busy (sv, pend) (server_step env (StoreStats results) (sv, pend))"
    "step_keeps shows nodeID ch busy (sv, pend) (server_step env (OtherSubscribes i) (sv, pend))"
    "(ch \<in> set (subs nodeID (sse_broker sv)) \<Longrightarrow> c \<noteq> ch) \<Longrightarrow>
      step_keeps shows nodeID ch busy (sv, pend) (server_step env (OtherLeaves i c) (sv, pend))"
    "(ch \<in> set (subs nodeID (sse_broker sv)) \<Longrightarrow> c \<noteq> ch) \<Longrightarrow>
      step_keeps shows nodeID ch busy (sv, pend) (server_step env (OtherReceives c) (sv, pend))"
proof -
  have inv: "broker_inv (sse_broker sv)" using assms by (simp add: world_ok_def)
  show "step_keeps shows nodeID ch busy (sv, pend) (server_step env (StoreStats results) (sv, pend))"
    using assms by (simp add: step_keeps_def world_ok_def news_def sse_broker_def)
  show "step_keeps shows nodeID ch busy (sv, pend) (server_step env (OtherSubscribes i) (sv, pend))"
    using broker_keeps [OF assms, of "\<lambda>b. snd (SubscribeTopic i b)" ch] SubscribeTopic_inv [OF inv] other_topics(1) [OF inv] by simp
  show "step_keeps shows nodeID ch busy (sv, pend) (server_step env (OtherLeaves i c) (sv, pend))"
    if "ch \<in> set (subs nodeID (sse_broker sv)) \<Longrightarrow> c \<noteq> ch"
  proof (cases "c \<in> set (subs i (sse_broker sv))")
    case True
    then have "c \<notin> set (brClosed (sse_broker sv))" using inv by (auto simp: broker_inv_def)
    then have "broker_inv (cancel i c (sse_broker sv))"
      using cancel_remove_inv [OF inv True] cancel_close_inv(1) [where b = "cancel_remove i c (sse_broker sv)" and ch = c]
      by (simp add: cancel_def cancel_remove_def)
    with True show ?thesis using broker_keeps [OF assms, of "cancel i c" ch] other_topics(2) [OF inv _ True] that by simp
  qed (simp add: step_keeps_same [OF assms])
  show "step_keeps shows nodeID ch busy (sv, pend) (server_step env (OtherReceives c) (sv, pend))"
    if "ch \<in> set (subs nodeID (sse_broker sv)) \<Longrightarrow> c \<noteq> ch"
  proof (cases "take_from c (sse_broker sv)")
    case (Some db)
    then obtain d b where b: "take_from c (sse_broker sv) = Some (d, b)" by (cases db) simp
    show ?thesis using broker_keeps [OF assms, of "\<lambda>_. b" ch] take_from_inv [OF inv b, of nodeID ch] that b by auto
  qed (simp add: step_keeps_same [OF assms])
qed

lemma server_step_keeps:
  assumes "world_ok shows nodeID busy w" and "reads_links env shows" and "may_start nodeID st busy"
    and "ch \<in> set (subs nodeID (sse_broker (fst w))) \<Longrightarrow>
      (publishes st \<longrightarrow> length (brBufs (sse_broker (fst w)) ! ch) < channel_cap) \<and> others ch [st]"
  shows "step_keeps shows nodeID ch (busy_step nodeID st busy) w (server_step env st w)"
proof -
  obtain sv pend where w: "w = (sv, pend)" by fastforce
  note ok = assms(1) [unfolded w] and room = assms(4) [unfolded w fst_conv]
  show ?thesis unfolding w
  proof (cases st)
    case (SetLinks p now resp i)
    with SetLinks_keeps [OF ok assms(2), of p now resp i ch] assms(3)
    show "step_keeps shows nodeID ch (busy_step nodeID st busy) (sv, pend) (server_step env st (sv, pend))" by simp
  next
    case (SendLinks p)
    with SendLinks_keeps [OF ok, of ch p] room
    show "step_keeps shows nodeID ch (busy_step nodeID st busy) (sv, pend) (server_step env st (sv, pend))"
      by (simp add: publishes_def)
  next
    case (PublishStats i nums)
    define m where "m = seJson env (StatsMsg i (enrichFromAMI (ssLink sv) (enrichFromAstdb (seLookup env)
      (stats_getMany nums (ssStats sv)))))"
    have "shows m = None" using assms(2) by (simp add: m_def reads_links_def)
    from publish_keeps [OF ok this, of ch i] PublishStats room
    show "step_keeps shows nodeID ch (busy_step nodeID st busy) (sv, pend) (server_step env st (sv, pend))"
      by (simp add: publishes_def busy_step_def publishCachedStats_broker m_def)
  next
    case (DigitEvent i evt)
    define m where "m = seDtmf env i (hget ''Digit'' evt) (hget ''Channel'' evt)"
    have "shows m = None" using assms(2) by (simp add: m_def reads_links_def)
    from publish_keeps [OF ok this, of ch i] DigitEvent room
    show "step_keeps shows nodeID ch (busy_step nodeID st busy) (sv, pend) (server_step env st (sv, pend))"
      by (simp add: publishes_def busy_step_def publish_digit_broker m_def step_keeps_same [OF ok])
  next
    case (OtherReceives c)
    then have "c \<noteq> ch" if "ch \<in> set (subs nodeID (sse_broker sv))" using room [OF that] by (auto simp: others_def)
    from other_steps_keep(4) [OF ok this, of env] OtherReceives
    show "step_keeps shows nodeID ch (busy_step nodeID st busy) (sv, pend) (server_step env st (sv, pend))"
      by (simp add: busy_step_def)
  qed (use room other_steps_keep(1-3) [OF ok] in
      \<open>simp_all add: busy_step_def others_def step_keeps_same [OF ok] w\<close>)
qed

section \<open>The stream\<close>

lemma stream_data_append [simp]: "stream_data (xs @ ys) = stream_data xs @ stream_data ys"
  by (simp add: stream_data_def)

lemma stream_data_simps [simp]: "stream_data [SData d] = [d]" "stream_data [SHeartbeat] = []" "stream_data [] = []"
  by (simp_all add: stream_data_def)

text \<open>
  The links message that was sent last, read or on its way, has the cached links; while there is none the cache is as at
  the start.
\<close>

definition up_to_date :: "(string \<Rightarrow> links option option) \<Rightarrow> int \<Rightarrow> nat \<Rightarrow> bool \<times> (string \<Rightarrow> (string \<times> bool) option)
    \<Rightarrow> stream_input list \<times> sse_world \<Rightarrow> bool" where
  "up_to_date shows nodeID ch base is \<longleftrightarrow>
     (let sent = links_shown shows (stream_data (fst is)) @ news shows nodeID ch (snd is)
      in if sent = [] then link_view nodeID (fst (snd is)) = base
         else link_view nodeID (fst (snd is)) = (True, visible (table_of_msg (last sent))))"

definition stream_ok :: "(string \<Rightarrow> links option option) \<Rightarrow> int \<Rightarrow> nat \<Rightarrow> bool \<times> (string \<Rightarrow> (string \<times> bool) option)
    \<Rightarrow> poller option \<Rightarrow> stream_input list \<times> sse_world \<Rightarrow> bool" where
  "stream_ok shows nodeID ch base busy is \<longleftrightarrow> world_ok shows nodeID busy (snd is)
     \<and> ch \<in> set (subs nodeID (sse_broker (fst (snd is)))) \<and> up_to_date shows nodeID ch base is"

lemma stream_ok_server:
  assumes "stream_ok shows nodeID ch base busy is" and "step_keeps shows nodeID ch busy' (snd is) w'"
  shows "stream_ok shows nodeID ch base busy' (fst is, w')"
  using assms by (auto simp: stream_ok_def step_keeps_def up_to_date_def Let_def)

lemma stream_step_keeps:
  assumes "stream_ok shows nodeID ch base busy is" and "reads_links env shows" and "may_start nodeID st busy"
    and "publishes st \<Longrightarrow> length (brBufs (sse_broker (fst (snd is))) ! ch) < channel_cap" and "others ch [st]"
  shows "stream_ok shows nodeID ch base (busy_step nodeID st busy) (stream_step env ch reading st is)"
proof -
  have ok: "world_ok shows nodeID busy (snd is)" using assms(1) by (simp add: stream_ok_def)
  consider (receives) "reading" "st = ClientReceives" | (heartbeat) "reading" "st = ClientHeartbeat"
    | (server) "stream_step env ch reading st is = (fst is, server_step env st (snd is))"
    by (cases st; cases reading) (auto simp: stream_step_def sse_step_of_def)
  then show ?thesis
  proof cases
    case server
    show ?thesis unfolding server
      by (rule stream_ok_server [OF assms(1) server_step_keeps [OF ok assms(2,3)]]) (simp add: assms(4,5))
  next
    case heartbeat
    with assms(1) show ?thesis
      by (simp add: stream_step_def sse_step_of_def busy_step_def stream_ok_def up_to_date_def)
  next
    case receives
    show ?thesis
    proof (cases "take_from ch (sse_broker (fst (snd is)))")
      case None
      with receives assms(1) show ?thesis by (simp add: stream_step_def sse_step_of_def busy_step_def)
    next
      case (Some db)
      then obtain d b where b: "take_from ch (sse_broker (fst (snd is))) = Some (d, b)" by (cases db) simp
      have inv: "broker_inv (sse_broker (fst (snd is)))" using ok by (simp add: world_ok_def)
      note taken = take_from_inv [OF inv b, of nodeID]
      define is' where "is' = (fst is @ [SData d], on_broker (\<lambda>_. b) (fst (snd is)), snd (snd is))"
      have step: "stream_step env ch reading st is = is'"
        using receives b by (simp add: stream_step_def sse_step_of_def is'_def)
      have "links_shown shows (stream_data (fst is')) @ news shows nodeID ch (snd is')
          = links_shown shows (stream_data (fst is)) @ news shows nodeID ch (snd is)"
        using taken by (simp add: is'_def news_def split: option.split)
      then have "up_to_date shows nodeID ch base is'"
        using assms(1) by (simp add: stream_ok_def up_to_date_def) (simp add: is'_def)
      moreover have "world_ok shows nodeID busy (snd is')" using ok taken by (simp add: is'_def world_ok_def)
      ultimately show ?thesis
        unfolding step using assms(1) receives taken by (simp add: stream_ok_def busy_step_def) (simp add: is'_def)
    qed
  qed
qed

lemma one_at_a_time_append:
  "one_at_a_time i busy (xs @ ys) \<longleftrightarrow> one_at_a_time i busy xs \<and> one_at_a_time i (fold (busy_step i) xs busy) ys"
  by (induction xs arbitrary: busy) auto

lemma stream_steps_keep:
  assumes "reads_links env shows" and "stream_ok shows nodeID ch base busy is" and "one_at_a_time nodeID busy sts"
    and "has_room env ch reading sts is" and "others ch sts"
  shows "stream_ok shows nodeID ch base (fold (busy_step nodeID) sts busy) (fold (stream_step env ch reading) sts is)"
  using assms(2-5)
proof (induction sts arbitrary: "is" busy)
  case (Cons st sts)
  have "others ch [st]" "others ch sts" using Cons.prems(4) by (auto simp: others_def)
  moreover from this(1) Cons.prems
  have "stream_ok shows nodeID ch base (busy_step nodeID st busy) (stream_step env ch reading st is)"
    by (intro stream_step_keeps [OF _ assms(1)]) simp_all
  ultimately show ?case using Cons.IH [of "busy_step nodeID st busy"] Cons.prems by simp
qed simp

text \<open>The server alone, with no regard to a channel.\<close>

lemma world_step:
  assumes "world_ok shows nodeID busy w" and "reads_links env shows" and "may_start nodeID st busy"
  shows "world_ok shows nodeID (busy_step nodeID st busy) (server_step env st w)"
proof -
  have "length (brBufs (sse_broker (fst w))) \<notin> set (subs nodeID (sse_broker (fst w)))"
    using assms(1) by (auto simp: world_ok_def broker_inv_def)
  from server_step_keeps [OF assms, of "length (brBufs (sse_broker (fst w)))"] this show ?thesis
    by (simp add: step_keeps_def)
qed

lemma world_steps:
  assumes "reads_links env shows" and "world_ok shows nodeID busy w" and "one_at_a_time nodeID busy sts"
  shows "world_ok shows nodeID (fold (busy_step nodeID) sts busy) (fold (server_step env) sts w)"
  using assms(2,3)
proof (induction sts arbitrary: busy w)
  case (Cons st sts)
  then show ?case using world_step [OF Cons.prems(1) assms(1)] by simp
qed simp

lemma world_start:
  "lvLinks (ssLink sv) = [] \<Longrightarrow> sse_broker sv = NewBroker \<Longrightarrow> world_ok shows nodeID None (sv, \<lambda>p. None)"
  by (simp add: world_ok_def NewBroker_inv cache_ok_def)


lemma pending_view:
  assumes "world_ok shows nodeID busy w"
  shows "links_shown shows (pending_for nodeID (snd w)) = []
    \<or> (\<exists>t. links_shown shows (pending_for nodeID (snd w)) = [t] \<and> link_view nodeID (fst w) = (True, visible (table_of_msg t)))"
proof (cases "\<exists>p m. snd w p = Some (nodeID, m)")
  case True
  then obtain p m where p: "snd w p = Some (nodeID, m)" by blast
  have busy: "busy = Some q" if "snd w q = Some (nodeID, m')" for q m' using assms that by (simp add: world_ok_def)
  have "\<forall>q m'. q \<noteq> p \<longrightarrow> snd w q \<noteq> Some (nodeID, m')" using busy [OF p] busy by auto
  then have "pending_for nodeID (snd w) = [m]" using pending_sent(1) [where pend = "snd w" and p = p, OF p] by simp
  moreover obtain t where "shows m = Some t" "link_view nodeID (fst w) = (True, visible (table_of_msg t))"
    using assms p unfolding world_ok_def by blast
  ultimately show ?thesis by simp
next
  case False
  then show ?thesis by (simp add: pending_none)
qed

lemma page_tables_last: "sent \<noteq> [] \<Longrightarrow> last sent = Some t \<Longrightarrow> page_tables sent \<noteq> [] \<and> last (page_tables sent) = t"
proof (induction sent)
  case (Cons x xs)
  show ?case
  proof (cases "xs = []")
    case False
    with Cons show ?thesis by (auto simp: page_tables_def List.map_filter_simps split: option.split)
  qed (use Cons.prems in \<open>simp add: page_tables_def List.map_filter_simps\<close>)
qed simp

lemma visible_nonempty: "cached \<noteq> [] \<Longrightarrow> visible cached \<noteq> visible []"
  by (cases cached) (auto simp: visible_def fun_eq_iff)

lemma initial_links:
  assumes "reads_links env shows"
  shows "links_shown shows (sse_initial (seJson env) (seJsonLinks env) nodeID sv)
    = (case links_get nodeID (lvLinks (ssLink sv)) of (ls, ok) \<Rightarrow> if ok then [Some ls] else [])"
  using assms by (simp add: sse_initial_def Let_def reads_links_def split: prod.split)

lemma fold_stream_server:
  "fold (stream_step env ch False) sts (ins, w) = (ins, fold (server_step env) sts w)"
  by (induction sts arbitrary: w) (simp_all add: stream_step_def)

lemma stream_step_reading: "stream_step env ch True = sse_step_of env ch"
  by (simp add: stream_step_def fun_eq_iff)

text \<open>The start of a stream: a new channel, and perhaps a message of a poll that began before.\<close>

lemma subscribe_ok:
  assumes "world_ok shows nodeID busy w" and "SubscribeTopic nodeID (sse_broker (fst w)) = (ch, b)"
  defines "w0 \<equiv> (on_broker (\<lambda>_. b) (fst w), snd w)"
  shows "stream_ok shows nodeID ch (link_view nodeID (fst w0)) busy ([], w0)"
proof -
  have inv: "broker_inv (sse_broker (fst w))" using assms(1) by (simp add: world_ok_def)
  have b: "broker_inv b" "ch \<in> set (subs nodeID b)" "brBufs b ! ch = []"
    using SubscribeTopic_inv [OF inv, of nodeID] assms(2) by (auto simp: SubscribeTopic_def Let_def subs_set_subs)
  have ok: "world_ok shows nodeID busy w0"
    using world_ok_broker [where f = "\<lambda>_. b" and sv = "fst w" and pend = "snd w"] assms(1) b(1) by (simp add: w0_def)
  have "up_to_date shows nodeID ch (link_view nodeID (fst w0)) ([], w0)"
    using pending_view [OF ok] b(3) by (auto simp: up_to_date_def news_def w0_def)
  with ok b(2) show ?thesis by (simp add: stream_ok_def w0_def)
qed

section \<open>Properties\<close>

text \<open>C15: a browser that opens the stream of a node is not left behind: whatever the pollers, the listener of
  AMI events and other browsers have done since the server started and do before and after the snapshot it is
  first sent, as long as the polls of that node do not overlap and its channel has room when something is
  published, the last link message it has read, is about to read or a poller is about to publish has
  the links of the cache (null for none), and it is sent one exactly when the node has been polled. So whenever the
  cache lists a link, the last table the page takes is that of the cache.\<close>

theorem stream_up_to_date:
  assumes "reads_links env shows" and "lvLinks (ssLink sv0) = []" and "sse_broker sv0 = NewBroker"
    and "w = fold (server_step env) past (sv0, \<lambda>p. None)"
    and "sse_session env nodeID before after w = (ch, initial, ins, w')"
    and "one_at_a_time nodeID None (past @ before @ after)"
    and "others ch (before @ after)" and "sse_keeps_up env nodeID before after w"
  shows "case links_get nodeID (lvLinks (ssLink (fst w'))) of (cached, polled) \<Rightarrow>
    let sent = links_shown shows (initial @ stream_data ins @ brBufs (sse_broker (fst w')) ! ch @ pending_for nodeID (snd w'))
    in (sent \<noteq> [] \<longleftrightarrow> polled) \<and> (polled \<longrightarrow> visible (table_of_msg (last sent)) = visible cached)
      \<and> (cached \<noteq> [] \<longrightarrow> page_tables sent \<noteq> [] \<and> visible (last (page_tables sent)) = visible cached)"
proof -
  let ?busy = "fold (busy_step nodeID)"
  obtain b where sub: "SubscribeTopic nodeID (sse_broker (fst w)) = (ch, b)"
    using assms(5) by (auto simp: sse_session_def Let_def split: prod.splits)
  define w0 where "w0 = (on_broker (\<lambda>_. b) (fst w), snd w)"
  define w1 where "w1 = fold (server_step env) before w0"
  have run: "initial = sse_initial (seJson env) (seJsonLinks env) nodeID (fst w1)"
    "fold (stream_step env ch True) after ([], w1) = (ins, w')"
    using assms(5) sub by (auto simp: sse_session_def Let_def w1_def w0_def stream_step_reading split: prod.splits)
  have room: "has_room env ch False before ([], w0)" "has_room env ch True after ([], w1)"
    using assms(8) sub by (simp_all add: sse_keeps_up_def w1_def w0_def Let_def)
  have one: "one_at_a_time nodeID None past" "one_at_a_time nodeID (?busy past None) before"
    "one_at_a_time nodeID (?busy before (?busy past None)) after"
    using assms(6) by (simp_all add: one_at_a_time_append)
  have oth: "others ch before" "others ch after" using assms(7) by (auto simp: others_def)
  have "world_ok shows nodeID (?busy past None) w"
    unfolding assms(4) by (rule world_steps [OF assms(1) world_start [OF assms(2,3)] one(1)])
  note start = subscribe_ok [OF this sub, folded w0_def]
  from stream_steps_keep [OF assms(1) start one(2) room(1) oth(1)]
  have "stream_ok shows nodeID ch (link_view nodeID (fst w0)) (?busy before (?busy past None)) ([], w1)"
    by (simp add: fold_stream_server w1_def)
  then have "stream_ok shows nodeID ch (link_view nodeID (fst w1)) (?busy before (?busy past None)) ([], w1)"
    by (simp add: stream_ok_def up_to_date_def Let_def split: if_splits)
  from stream_steps_keep [OF assms(1) this one(3) room(2) oth(2)] run(2)
  have fresh: "up_to_date shows nodeID ch (link_view nodeID (fst w1)) (ins, w')" by (simp add: stream_ok_def)
  let ?later = "links_shown shows (stream_data ins @ brBufs (sse_broker (fst w')) ! ch @ pending_for nodeID (snd w'))"
  have first: "links_shown shows initial = (case links_get nodeID (lvLinks (ssLink (fst w1))) of (ls, ok) \<Rightarrow> if ok then [Some ls] else [])"
    unfolding run(1) by (rule initial_links [OF assms(1)])
  obtain cached polled where get: "links_get nodeID (lvLinks (ssLink (fst w'))) = (cached, polled)" by fastforce
  let ?sent = "links_shown shows initial @ ?later"
  have last: "(?sent \<noteq> [] \<longleftrightarrow> polled) \<and> (polled \<longrightarrow> visible (table_of_msg (last ?sent)) = visible cached)"
    using fresh first get
    by (cases "?later = []")
      (auto simp: up_to_date_def news_def link_view_def table_of_msg_def Let_def split: prod.splits if_splits)
  have "page_tables ?sent \<noteq> [] \<and> visible (last (page_tables ?sent)) = visible cached" if "cached \<noteq> []"
  proof -
    have polled using that get by (auto simp: links_get_def split: option.splits)
    with last have ne: "?sent \<noteq> []" "visible (table_of_msg (last ?sent)) = visible cached" by auto
    with visible_nonempty [OF that] obtain t where t: "last ?sent = Some t"
      by (cases "last ?sent") (auto simp: table_of_msg_def)
    from page_tables_last [OF ne(1) t] ne(2) t show ?thesis by (simp add: table_of_msg_def)
  qed
  with last get show ?thesis by simp
qed

text \<open>A coding of link tables that can be read back, for a concrete stream.\<close>

definition put_nat :: "nat \<Rightarrow> string" where
  "put_nat n = replicate n (CHR ''1'') @ ''.''"

definition put_string :: "string \<Rightarrow> string" where
  "put_string s = put_nat (length s) @ s"

definition put_link :: "string \<times> LinkState \<Rightarrow> string" where
  "put_link l = ''L'' @ put_string (fst l) @ put_string (lsType (snd l)) @ (if lsKeyed (snd l) then ''K'' else ''U'')
     @ (if lsConnectedAt (snd l) < 0 then ''-'' else ''+'') @ put_nat (nat \<bar>lsConnectedAt (snd l)\<bar>)"

fun get_nat :: "string \<Rightarrow> nat \<times> string" where
  "get_nat [] = (0, [])"
| "get_nat (c # s) = (if c = CHR ''1'' then (case get_nat s of (n, r) \<Rightarrow> (Suc n, r)) else (0, s))"

definition get_string :: "string \<Rightarrow> string \<times> string" where
  "get_string s = (case get_nat s of (n, r) \<Rightarrow> (take n r, drop n r))"

definition get_link :: "string \<Rightarrow> (string \<times> LinkState) \<times> string" where
  "get_link s =
     (case get_string s of (num, s1) \<Rightarrow> case get_string s1 of (ty, s2) \<Rightarrow> case get_nat (drop 2 s2) of (n, s3) \<Rightarrow>
       ((num, \<lparr>lsType = ty, lsKeyed = (take 1 s2 = ''K''),
           lsConnectedAt = (if take 1 (drop 1 s2) = ''-'' then - int n else int n)\<rparr>), s3))"

fun get_links :: "nat \<Rightarrow> string \<Rightarrow> links" where
  "get_links 0 s = []"
| "get_links (Suc k) s = (if s = [] then [] else case get_link (tl s) of (l, r) \<Rightarrow> l # get_links k r)"

definition shown_links :: "string \<Rightarrow> links option option" where
  "shown_links m =
     (if m = ''null'' then Some None
      else if take 1 m = ''l'' then Some (Some (get_links (length m) (drop 1 m))) else None)"

definition demo_env :: sse_env where
  "demo_env = \<lparr>seJson = (\<lambda>m. case m of
       LinksMsg i ls tx \<Rightarrow> (case ls of None \<Rightarrow> ''null'' | Some m \<Rightarrow> ''l'' @ concat (map put_link m))
     | StatsMsg i st \<Rightarrow> ''s''), seJsonLinks = (\<lambda>ls. ''l'' @ concat (map put_link ls)), seDtmf = (\<lambda>i digit chan. ''d''),
     seMarshal = (\<lambda>_. None), seLookup = (\<lambda>_. None)\<rparr>"

lemma get_put_nat: "get_nat (put_nat n @ r) = (n, r)"
  by (induction n) (simp_all add: put_nat_def)

lemma get_put_string: "get_string (put_string s @ r) = (s, r)"
  by (simp add: get_string_def put_string_def get_put_nat)

lemma get_put_link: "get_link (tl (put_link l @ r)) = (l, r)"
  by (cases l) (simp add: get_link_def put_link_def get_put_string get_put_nat)

lemma get_put_links: "length ls \<le> k \<Longrightarrow> get_links k (concat (map put_link ls)) = ls"
proof (induction ls arbitrary: k)
  case Nil
  then show ?case by (cases k) simp_all
next
  case (Cons l ls)
  then obtain j where k: "k = Suc j" "length ls \<le> j" by (cases k) auto
  have "put_link l \<noteq> []" by (simp add: put_link_def)
  with k Cons.IH [OF k(2)] get_put_link [of l "concat (map put_link ls)"] show ?case by simp
qed

lemma length_put_links: "length ls \<le> length (concat (map put_link ls))"
  by (induction ls) (simp_all add: put_link_def)

lemma shown_put_links: "shown_links (''l'' @ concat (map put_link ls)) = Some (Some ls)"
proof -
  have "get_links (length (''l'' @ concat (map put_link ls))) (concat (map put_link ls)) = ls"
    using length_put_links [of ls] by (intro get_put_links) simp
  then show ?thesis by (simp add: shown_links_def del: get_links.simps)
qed

lemma demo_reads_links: "reads_links demo_env shown_links"
proof -
  have "shown_links ''null'' = Some None" "shown_links ''s'' = None" "shown_links ''d'' = None"
    by (simp_all add: shown_links_def)
  then show ?thesis
    unfolding reads_links_def demo_env_def sse_env.simps message.case using shown_put_links
    by (simp del: append.simps split: option.split)
qed

definition demo_sse :: sse_world where
  "demo_sse = (\<lparr>ssLink = \<lparr>lvHomeNums = [], lvLinks = [], lvBroker = NewBroker\<rparr>, ssStats = [], ssInBulk = False,
     ssLastBulkAt = 0, ssStore = store_empty\<rparr>, \<lambda>p. None)"

definition one_link :: "ami_error + headers" where
  "one_link = Inr [(''Output'', ''RPT_ALINKS=1,2000TK'')]"

definition two_links :: "ami_error + headers" where
  "two_links = Inr [(''Output'', ''RPT_ALINKS=2,2000TK,2001TU'')]"

text \<open>The ticker has set the first link when the browser asks, publishes it after the snapshot; a digit is heard,
  and the second link is found by the listener.\<close>

definition two_polls :: "sse_step list \<times> sse_step list" where
  "two_polls =
     ([SetLinks Ticker 10 one_link 1],
      [SendLinks Ticker, DigitEvent 1 [(''Digit'', ''5'')], ClientReceives, SetLinks Listener 15 two_links 1,
       SendLinks Listener, ClientReceives])"

theorem stream_up_to_date_witness:
  "case sse_session demo_env 1 (fst two_polls) (snd two_polls) demo_sse of
     (ch, initial, ins, w') \<Rightarrow> length initial = 1 \<and> length (stream_data ins) = 2
       \<and> (let tables = page_tables (links_shown shown_links (initial @ stream_data ins @ brBufs (sse_broker (fst w')) ! ch
            @ pending_for 1 (snd w'))) in tables \<noteq> [] \<and> visible (last tables) ''2001'' = Some (''T'', False))"
proof -
  obtain ch initial ins w' where run: "sse_session demo_env 1 (fst two_polls) (snd two_polls) demo_sse = (ch, initial, ins, w')"
    by (metis prod_cases4)
  have facts: "case sse_session demo_env 1 (fst two_polls) (snd two_polls) demo_sse of
     (ch, initial, ins, w') \<Rightarrow> length initial = 1 \<and> length (stream_data ins) = 2
       \<and> fst (links_get 1 (lvLinks (ssLink (fst w')))) \<noteq> []
       \<and> visible (fst (links_get 1 (lvLinks (ssLink (fst w'))))) ''2001'' = Some (''T'', False)"
    by code_simp
  have start: "demo_sse = fold (server_step demo_env) [] (fst demo_sse, \<lambda>p. None)" by (simp add: demo_sse_def)
  have "case links_get 1 (lvLinks (ssLink (fst w'))) of (cached, polled) \<Rightarrow>
    let sent = links_shown shown_links (initial @ stream_data ins @ brBufs (sse_broker (fst w')) ! ch @ pending_for 1 (snd w'))
    in (sent \<noteq> [] \<longleftrightarrow> polled) \<and> (polled \<longrightarrow> visible (table_of_msg (last sent)) = visible cached)
      \<and> (cached \<noteq> [] \<longrightarrow> page_tables sent \<noteq> [] \<and> visible (last (page_tables sent)) = visible cached)"
  proof (rule stream_up_to_date [OF demo_reads_links _ _ start run])
    show "lvLinks (ssLink (fst demo_sse)) = []" "sse_broker (fst demo_sse) = NewBroker"
      by (simp_all add: demo_sse_def sse_broker_def)
    show "others ch (fst two_polls @ snd two_polls)" by (simp add: others_def two_polls_def)
    show "one_at_a_time 1 None ([] @ fst two_polls @ snd two_polls)" by code_simp
    show "sse_keeps_up demo_env 1 (fst two_polls) (snd two_polls) demo_sse" by code_simp
  qed
  with facts show ?thesis unfolding run by (auto simp: Let_def case_prod_beta)
qed

text \<open>When the polls of a node do overlap, the later one may publish first, and the older links are then
  shown last.\<close>

lemma overlapping_polls_stale:
  "case sse_session demo_env 1 [] [SetLinks Ticker 10 one_link 1, SetLinks Listener 11 two_links 1,
       SendLinks Listener, SendLinks Ticker, ClientReceives, ClientReceives] demo_sse of
     (ch, initial, ins, w') \<Rightarrow>
       map fst (fst (links_get 1 (lvLinks (ssLink (fst w'))))) = [''2000'', ''2001'']
       \<and> map (map fst) (page_tables (links_shown shown_links (initial @ stream_data ins))) = [[''2000'', ''2001''], [''2000'']]
       \<and> brBufs (sse_broker (fst w')) ! ch = [] \<and> pending_for 1 (snd w') = []"
  by code_simp

text \<open>When the last link goes the message carries null, not an empty table: the node's page, which skips
  a message without a table, goes on showing the link.\<close>

lemma last_link_gone_is_null:
  "pollNodeLinksInner json 15 (Inr [(''Output'', ''RPT_ALINKS=0'')]) 1 lv =
     lv\<lparr>lvLinks := kv_upsert 1 [] (lvLinks lv), lvBroker := Publish 1 (json (LinksMsg 1 None False)) (lvBroker lv)\<rparr>"
  if "fst (links_get 1 (lvLinks lv)) \<noteq> []"
proof -
  have none: "parseRPTALinks ''RPT_ALINKS=0'' = None" "\<not> parseRPTTXKeyed ''RPT_ALINKS=0''" by code_simp+
  with that show ?thesis
    by (cases "links_get 1 (lvLinks lv)")
      (auto simp: pollNodeLinksInner_whole hget_def links_set_def eqLinkMaps_def stamp_links_def)
qed

end
