(* ===== verification/Server_Run.thy ===== *)
theory Server_Run
  imports Server_New Server_Listen Server_Sse
begin

text \<open>
  The rest of \<open>internal/server/server.go\<close>: the page templates, the handler a base path makes, the goroutines
  that poll as long as the server runs (\<open>startStatsPoller\<close> of \<open>stats.go\<close>, \<open>startLinksPoller\<close> of \<open>links.go\<close>),
  and the shutdown.
\<close>

section \<open>Templates\<close>

text \<open>A template is what parsing its files gives; \<open>parseFS\<close> is \<open>ParseFS\<close> with the functions of the pages.\<close>

definition template_pages :: "string list" where
  "template_pages = [''login'', ''dashboard'', ''setup'', ''nodes'', ''users'', ''backup'', ''favorites'', ''graph'']"

definition template_files :: "string \<Rightarrow> string list" where
  "template_files page = [''web/templates/base.html'', ''web/templates/'' @ page @ ''.html'']"

definition isLocalAvatarURL :: "string \<Rightarrow> bool" where
  "isLocalAvatarURL u = HasPrefix u ''/api/users/''"

fun parse_pages :: "(string list \<Rightarrow> string + 't) \<Rightarrow> string list \<Rightarrow> (string \<times> 't) list \<Rightarrow> (string \<times> string) + (string \<times> 't) list" where
  "parse_pages parseFS [] tmpls = Inr tmpls"
| "parse_pages parseFS (page # ps) tmpls =
     (case parseFS (template_files page) of
        Inl e \<Rightarrow> Inl (page, e)
      | Inr t \<Rightarrow> parse_pages parseFS ps (kv_upsert page t tmpls))"

definition parseTemplates :: "(string list \<Rightarrow> string + 't) \<Rightarrow> (string \<times> string) + (string \<times> 't) list" where
  "parseTemplates parseFS = parse_pages parseFS template_pages []"

text \<open>An error of the execution comes after the header and is only logged: the reply is what \<open>exec\<close> wrote of the page.\<close>

definition render_page :: "('t \<Rightarrow> 'd \<Rightarrow> string) \<Rightarrow> (string \<times> 't) list \<Rightarrow> string \<Rightarrow> 'd \<Rightarrow> 'a reply" where
  "render_page exec tmpls page data =
     (case map_of tmpls page of
        None \<Rightarrow> HttpError 500 (''template not found: '' @ page)
      | Some t \<Rightarrow> Body ''text/html; charset=utf-8'' (exec t data))"

lemma parse_pages_all:
  "parse_pages parseFS ps tmpls = Inr ts \<Longrightarrow> p \<in> set ps \<union> fst ` set tmpls \<Longrightarrow> \<exists>t. map_of ts p = Some t"
proof (induction ps arbitrary: tmpls)
  case Nil
  then show ?case by (cases "map_of ts p") (auto simp: map_of_eq_None_iff)
next
  case (Cons q ps)
  obtain t where t: "parse_pages parseFS ps (kv_upsert q t tmpls) = Inr ts"
    using Cons.prems(1) by (auto split: sum.splits)
  have "fst ` set (kv_upsert q t tmpls) = insert q (fst ` set tmpls)"
    by (induction q t tmpls rule: kv_upsert.induct) auto
  with Cons.IH [OF t] Cons.prems(2) show ?case by auto
qed

text \<open>A server whose templates parse has one for every page its handlers name.\<close>

lemma pages_rendered:
  assumes "parseTemplates parseFS = Inr ts" and "page \<in> set template_pages"
  shows "\<exists>t. render_page exec ts page d = Body ''text/html; charset=utf-8'' (exec t d)"
  using parse_pages_all [OF assms(1) [unfolded parseTemplates_def], of page] assms(2) by (auto simp: render_page_def)

section \<open>The base path\<close>

text \<open>\<open>mount\<close> is the router (chi) that has the health check at its root and the application under a path.\<close>

definition run_handler :: "(handler \<Rightarrow> string \<Rightarrow> handler \<Rightarrow> handler) \<Rightarrow> handler \<Rightarrow> Config \<Rightarrow> handler \<Rightarrow> handler" where
  "run_handler mount health cfg app =
     (if scBasePath (cfServer cfg) \<noteq> [] then mount health (scBasePath (cfServer cfg)) app else app)"

definition handleHealth :: "(string \<times> string) list reply" where
  "handleHealth = Json 200 [(''status'', ''ok'')]"

section \<open>Pollers\<close>

text \<open>What a poller's select finds: the ticker, with what this poll meets, or the end of the context.\<close>

datatype 't poller_event = Ticked 't | ContextDone

text \<open>The state and whether the goroutine has returned.\<close>

fun poll_loop :: "('t \<Rightarrow> 's \<Rightarrow> 's) \<Rightarrow> 't poller_event list \<Rightarrow> 's \<Rightarrow> 's \<times> bool" where
  "poll_loop poll [] s = (s, False)"
| "poll_loop poll (Ticked t # ins) s = poll_loop poll ins (poll t s)"
| "poll_loop poll (ContextDone # ins) s = (s, True)"

text \<open>What polls meet: the clock, the connected clients and their responses, the database; for the
  statistics the times before and after the fetch, the bulk answer and the single ones.\<close>

record links_input =
  liNow :: int
  liConnected :: "int \<Rightarrow> bool"
  liResp :: "int \<Rightarrow> ami_error + headers"
  liStore :: store

record stats_input =
  siStart :: int
  siDone :: int
  siBulk :: "stats_map option"
  siEach :: "string list \<Rightarrow> stats_map"

definition links_poll :: "sse_env \<Rightarrow> links_input \<Rightarrow> stats_server \<Rightarrow> stats_server" where
  "links_poll env i sv =
     sv\<lparr>ssLink := pollLinks (seJson env) (liNow i) (liConnected i) (liResp i) (liStore i) (ssLink sv)\<rparr>"

definition stats_poll :: "sse_env \<Rightarrow> stats_input \<Rightarrow> stats_server \<Rightarrow> stats_server" where
  "stats_poll env i sv =
     pollStats (seJson env) (seMarshal env) (seLookup env) (siStart i) (siDone i) (siBulk i) (siEach i) sv"

text \<open>Both poll once before the first tick, every five and every thirty seconds.\<close>

definition startLinksPoller :: "sse_env \<Rightarrow> links_input \<Rightarrow> links_input poller_event list \<Rightarrow> stats_server \<Rightarrow> stats_server \<times> bool" where
  "startLinksPoller env first ins sv = poll_loop (links_poll env) ins (links_poll env first sv)"

definition startStatsPoller :: "sse_env \<Rightarrow> stats_input \<Rightarrow> stats_input poller_event list \<Rightarrow> stats_server \<Rightarrow> stats_server \<times> bool" where
  "startStatsPoller env first ins sv = poll_loop (stats_poll env) ins (stats_poll env first sv)"

text \<open>A poll that keeps an invariant is all a poller needs.\<close>

locale periodic =
  fixes poll :: "'t \<Rightarrow> 's \<Rightarrow> 's" and inv :: "'s \<Rightarrow> bool"
  assumes poll_keeps: "inv s \<Longrightarrow> inv (poll t s)"
begin

lemma loop_keeps: "inv s \<Longrightarrow> inv (fst (poll_loop poll ins s))"
proof (induction ins arbitrary: s)
  case (Cons e ins)
  then show ?case by (cases e) (simp_all add: poll_keeps)
qed simp

lemma started_keeps: "inv s \<Longrightarrow> inv (fst (poll_loop poll ins (poll t s)))"
  by (simp add: loop_keeps poll_keeps)

end

text \<open>The poller returns once its context is done, after as many polls as there were ticks before.\<close>

lemma poll_loop_returns: "poll_loop poll (map Ticked ts @ ContextDone # ins) s = (fold poll ts s, True)"
  by (induction ts arbitrary: s) simp_all

definition caches_sound :: "stats_server \<Rightarrow> bool" where
  "caches_sound sv \<longleftrightarrow> broker_inv (sse_broker sv) \<and> \<not> brPanic (sse_broker sv) \<and> cache_ok (lvLinks (ssLink sv))"

lemma publish_sound:
  "broker_inv b \<Longrightarrow> \<not> brPanic b \<Longrightarrow> broker_inv (Publish t d b) \<and> \<not> brPanic (Publish t d b)"
  by (simp add: Publish_effect)

lemma poll_one_sound:
  fixes json :: "NodeStats message \<Rightarrow> string" and now and connected and resp and n
  assumes "broker_inv (lvBroker lv) \<and> \<not> brPanic (lvBroker lv) \<and> cache_ok (lvLinks lv)"
  defines "lv' \<equiv> poll_one json now connected resp n lv"
  shows "broker_inv (lvBroker lv') \<and> \<not> brPanic (lvBroker lv') \<and> cache_ok (lvLinks lv')"
proof (cases "nEnabled n \<and> connected (nID n)")
  case False
  then show ?thesis using assms(1) by (auto simp: lv'_def poll_one_def Let_def)
next
  case True
  show ?thesis
  proof (cases "resp (nID n)")
    case (Inl e)
    then show ?thesis using assms(1) True by (simp add: lv'_def poll_one_def pollNodeLinksInner_whole Let_def)
  next
    case (Inr h)
    let ?out = "parseRPTALinks (hget ''Output'' h)"
    obtain changed linked cache where set: "links_set now (nID n) ?out (lvLinks lv) = ((changed, linked), cache)"
      by (metis surj_pair)
    have "case ?out of None \<Rightarrow> True | Some m \<Rightarrow> distinct (map fst m)"
      by (simp add: parseRPTALinks_distinct split: option.split)
    then have "cache_ok cache" using links_set_ok [of "lvLinks lv" ?out now "nID n"] assms(1) set by simp
    then show ?thesis
      using True Inr set assms(1) publish_sound
      by (simp add: lv'_def poll_one_def pollNodeLinksInner_whole Let_def)
  qed
qed

interpretation links_poller: periodic "links_poll env" caches_sound for env
proof
  fix i sv assume "caches_sound sv"
  then have "broker_inv (lvBroker (ssLink sv)) \<and> \<not> brPanic (lvBroker (ssLink sv)) \<and> cache_ok (lvLinks (ssLink sv))"
    by (simp add: caches_sound_def sse_broker_def)
  then have "broker_inv (lvBroker (fold (poll_one json now c r) ns (ssLink sv)))
      \<and> \<not> brPanic (lvBroker (fold (poll_one json now c r) ns (ssLink sv)))
      \<and> cache_ok (lvLinks (fold (poll_one json now c r) ns (ssLink sv)))" for json :: "NodeStats message \<Rightarrow> string" and now c r ns
  proof (induction ns arbitrary: sv)
    case (Cons n ns)
    let ?sv = "sv\<lparr>ssLink := poll_one json now c r n (ssLink sv)\<rparr>"
    from Cons.IH [of ?sv] poll_one_sound [OF Cons.prems] show ?case by simp
  qed simp
  then show "caches_sound (links_poll env i sv)"
    by (simp add: caches_sound_def links_poll_def sse_broker_def pollLinks_def)
qed

lemma publishCachedStats_sound: "caches_sound sv \<Longrightarrow> caches_sound (publishCachedStats json lookup ns sv)"
  by (simp add: caches_sound_def publishCachedStats_def sse_broker_def Let_def publish_sound)

lemma pollStats_link:
  "\<exists>sets sv'. pollStats json marshal lookup start t bulk each sv = fold (publishCachedStats json lookup) sets sv'
     \<and> ssLink sv' = ssLink sv"
proof -
  have each: "ssLink (snd (fetchAdaptive start t bulk each ns sv)) = ssLink sv" for ns
    by (simp add: fetchAdaptive_def Let_def split: option.split)
  show ?thesis
  proof (cases "fold add_num (concat (map snd (poll_sets sv))) [] = []")
    case True
    then show ?thesis by (intro exI [of _ "[]"] exI [of _ sv]) (simp add: pollStats_def Let_def)
  next
    case False
    let ?stale = "stale_nums start (ssStats sv) (fold add_num (concat (map snd (poll_sets sv))) [])"
    let ?sv = "if ?stale = [] then sv else (case fetchAdaptive start t bulk each ?stale sv of
      (results, sv) \<Rightarrow> keep_results marshal results sv)"
    have "ssLink ?sv = ssLink sv" using each [of ?stale] by (simp add: case_prod_beta)
    with False show ?thesis
      by (intro exI [of _ "poll_sets sv"] exI [of _ ?sv]) (simp add: pollStats_def Let_def)
  qed
qed

interpretation stats_poller: periodic "stats_poll env" caches_sound for env
proof
  fix i sv assume sound: "caches_sound sv"
  obtain sets sv' where poll: "stats_poll env i sv = fold (publishCachedStats (seJson env) (seLookup env)) sets sv'"
    "ssLink sv' = ssLink sv"
    using pollStats_link unfolding stats_poll_def by metis
  have "caches_sound sv'" using sound poll(2) by (simp add: caches_sound_def sse_broker_def)
  then have "caches_sound (fold (publishCachedStats (seJson env) (seLookup env)) sets sv')"
    by (induction sets arbitrary: sv') (simp_all add: publishCachedStats_sound)
  with poll(1) show "caches_sound (stats_poll env i sv)" by simp
qed

text \<open>Neither poller panics or spoils the caches, however long it runs and whatever it is answered.\<close>

lemma pollers_sound:
  assumes "caches_sound sv"
  shows "caches_sound (fst (startLinksPoller env li lins sv))" "caches_sound (fst (startStatsPoller env si sins sv))"
  using assms unfolding startLinksPoller_def startStatsPoller_def
  by (simp_all add: links_poller.started_keeps stats_poller.started_keeps)

section \<open>Shutdown\<close>

text \<open>
  What happens after the context is done, in order: the AMI clients are stopped, the HTTP/3 server is
  closed, and the main server is given fifteen seconds for its requests. The server that redirects is
  left to the end of the process.
\<close>

datatype shutdown_step = StopClient nat | CloseQUIC | ShutdownMain int

definition shut_down :: "'c listeners \<Rightarrow> manager \<Rightarrow> shutdown_step list \<times> manager" where
  "shut_down ls m =
     (map StopClient (map snd (mgClients m)) @ (if lsQUIC ls \<noteq> None then [CloseQUIC] else []) @ [ShutdownMain 15],
      Shutdown m)"

text \<open>After any sequence of node requests a shutdown stops every client that runs, before it waits for requests.\<close>

lemma shutdown_stops_clients:
  assumes "node_run (s, m)"
  shows "running (snd (shut_down ls m)) = []" "h \<in> set (running m) \<Longrightarrow> StopClient h \<in> set (butlast (fst (shut_down ls m)))"
    "\<not> IsConnected connected i (snd (shut_down ls m))"
proof -
  have inv: "manager_inv m" using node_run_in_step [OF assms] by (simp add: in_step_def)
  show "running (snd (shut_down ls m)) = []" using Shutdown_inv [OF inv] by (simp add: shut_down_def)
  show "h \<in> set (running m) \<Longrightarrow> StopClient h \<in> set (butlast (fst (shut_down ls m)))"
    using manager_invD(5) [OF inv] by (auto simp: shut_down_def butlast_append)
  show "\<not> IsConnected connected i (snd (shut_down ls m))"
    by (simp add: shut_down_def Shutdown_def IsConnected_def)
qed

end
