(* ===== verification/Ami_Lifecycle.thy ===== *)
theory Ami_Lifecycle
  imports Prelude
begin

text \<open>
  The life of an AMI client's goroutine (\<open>Start\<close>, \<open>Stop\<close>, \<open>reconnectLoop\<close>, \<open>connect\<close> and the loop of
  \<open>readLoop\<close> in \<open>internal/ami/client.go\<close>) as a state machine: where it stands between two blocking calls,
  and what \<open>Stop\<close>, called at any moment by another goroutine, finds. What the lines say is the business of
  \<open>Ami_Client\<close>; here a line only comes, or ends the session.
\<close>

text \<open>
  \<open>Dialed\<close> is the moment between the return of \<open>dialAMI\<close> and the assignment to \<open>c.conn\<close>; \<open>Closing err\<close> runs
  the deferred function of \<open>connect\<close>.
\<close>

datatype phase = NotStarted | AtTop | Dialing | Dialed | Banner | Login | LoopTop | Reading
  | Closing bool | Failed | Waiting | Ended

text \<open>\<open>lfQuit\<close>: the channel \<open>quit\<close> is closed; \<open>lfDone\<close>: the context is; \<open>lfConn\<close>: \<open>c.conn\<close> is set; \<open>lfOpen\<close>: the
  socket is open. \<open>lfBackoff\<close> is in seconds.\<close>

record life =
  lfPhase :: phase
  lfQuit :: bool
  lfDone :: bool
  lfConn :: bool
  lfOpen :: bool
  lfAuth :: bool
  lfBackoff :: nat

definition new_life :: life where
  "new_life = \<lparr>lfPhase = NotStarted, lfQuit = False, lfDone = False, lfConn = False, lfOpen = False,
     lfAuth = False, lfBackoff = 1\<rparr>"

text \<open>The calls of other goroutines; \<open>startOnce\<close> and \<open>stopOnce\<close> make repetitions do nothing.\<close>

definition life_start :: "life \<Rightarrow> life" where
  "life_start l = (if lfPhase l = NotStarted then l\<lparr>lfPhase := AtTop\<rparr> else l)"

definition life_stop :: "life \<Rightarrow> life" where
  "life_stop l = (if lfQuit l then l else l\<lparr>lfQuit := True, lfOpen := (lfOpen l \<and> \<not> lfConn l)\<rparr>)"

definition halted :: "life \<Rightarrow> bool" where
  "halted l \<longleftrightarrow> lfQuit l \<or> lfDone l"

text \<open>
  What a step of the goroutine meets: nothing it waits for, a dial or a write that succeeds or not, a line
  (which may accept the login or, as an error response, end the session), a failing read, the timer.
\<close>

datatype happening = Runs | DialOk | DialFails | WriteOk | WriteFails | Line | LineAccepts | LineRefuses | ReadFails | TimerFires

definition double_backoff :: "nat \<Rightarrow> nat" where
  "double_backoff b = (if b < 60 then b * 2 else b)"

definition loop_step :: "happening \<Rightarrow> life \<Rightarrow> life option" where
  "loop_step h l =
     (case lfPhase l of
        NotStarted \<Rightarrow> None
      | AtTop \<Rightarrow> if h = Runs then Some (l\<lparr>lfPhase := (if halted l then Ended else Dialing)\<rparr>) else None
      | Dialing \<Rightarrow>
          if h = DialOk then Some (l\<lparr>lfPhase := Dialed, lfOpen := True\<rparr>)
          else if h = DialFails then Some (l\<lparr>lfPhase := Failed\<rparr>) else None
      | Dialed \<Rightarrow> if h = Runs then Some (l\<lparr>lfPhase := Banner, lfConn := True\<rparr>) else None
      | Banner \<Rightarrow>
          if h = Line \<and> lfOpen l then Some (l\<lparr>lfPhase := Login\<rparr>)
          else if h = ReadFails then Some (l\<lparr>lfPhase := Closing True\<rparr>) else None
      | Login \<Rightarrow>
          if h = WriteOk \<and> lfOpen l then Some (l\<lparr>lfPhase := LoopTop\<rparr>)
          else if h = WriteFails then Some (l\<lparr>lfPhase := Closing True\<rparr>) else None
      | LoopTop \<Rightarrow> if h = Runs then Some (l\<lparr>lfPhase := (if halted l then Closing False else Reading)\<rparr>) else None
      | Reading \<Rightarrow>
          if h = Line then Some (l\<lparr>lfPhase := LoopTop\<rparr>)
          else if h = LineAccepts then Some (l\<lparr>lfPhase := LoopTop, lfAuth := True\<rparr>)
          else if h = LineRefuses \<or> h = ReadFails then Some (l\<lparr>lfPhase := Closing True\<rparr>) else None
      | Closing err \<Rightarrow>
          if h = Runs then Some (l\<lparr>lfPhase := (if err then Failed else AtTop), lfAuth := False, lfConn := False,
            lfOpen := False, lfBackoff := (if err then lfBackoff l else 1)\<rparr>) else None
      | Failed \<Rightarrow> if h = Runs then Some (l\<lparr>lfPhase := (if halted l then Ended else Waiting)\<rparr>) else None
      | Waiting \<Rightarrow>
          if h = Runs \<and> halted l then Some (l\<lparr>lfPhase := Ended\<rparr>)
          else if h = TimerFires then Some (l\<lparr>lfPhase := AtTop, lfBackoff := double_backoff (lfBackoff l)\<rparr>) else None
      | Ended \<Rightarrow> None)"

inductive life_reach :: "life \<Rightarrow> bool" where
  reach_new: "life_reach new_life"
| reach_start: "life_reach l \<Longrightarrow> life_reach (life_start l)"
| reach_stop: "life_reach l \<Longrightarrow> life_reach (life_stop l)"
| reach_done: "life_reach l \<Longrightarrow> life_reach (l\<lparr>lfDone := True\<rparr>)"
| reach_step: "life_reach l \<Longrightarrow> loop_step h l = Some l' \<Longrightarrow> life_reach l'"

section \<open>The connection\<close>

definition in_session :: "phase \<Rightarrow> bool" where
  "in_session p \<longleftrightarrow> p = Banner \<or> p = Login \<or> p = LoopTop \<or> p = Reading \<or> (\<exists>e. p = Closing e)"

definition life_inv :: "life \<Rightarrow> bool" where
  "life_inv l \<longleftrightarrow> lfConn l = in_session (lfPhase l)
     \<and> (lfOpen l \<longrightarrow> in_session (lfPhase l) \<or> lfPhase l = Dialed)
     \<and> (lfAuth l \<longrightarrow> lfPhase l = LoopTop \<or> lfPhase l = Reading \<or> (\<exists>e. lfPhase l = Closing e))
     \<and> lfBackoff l \<in> {1, 2, 4, 8, 16, 32, 64}"

lemma in_session_simps [simp]:
  "\<not> in_session NotStarted" "\<not> in_session AtTop" "\<not> in_session Dialing" "\<not> in_session Dialed"
  "in_session Banner" "in_session Login" "in_session LoopTop" "in_session Reading" "in_session (Closing e)"
  "\<not> in_session Failed" "\<not> in_session Waiting" "\<not> in_session Ended"
  by (simp_all add: in_session_def)

lemma double_backoff_in: "b \<in> {1, 2, 4, 8, 16, 32, 64} \<Longrightarrow> double_backoff b \<in> {1, 2, 4, 8, 16, 32, 64}"
  by (auto simp: double_backoff_def)

lemma loop_step_backoff:
  "loop_step h l = Some l' \<Longrightarrow> lfBackoff l' \<in> {lfBackoff l, 1, double_backoff (lfBackoff l)}"
  by (simp add: loop_step_def split: phase.splits if_splits; auto)

lemma loop_step_inv:
  assumes "life_inv l" and "loop_step h l = Some l'"
  shows "life_inv l'"
proof -
  have "lfBackoff l' \<in> {1, 2, 4, 8, 16, 32, 64}"
    using loop_step_backoff [OF assms(2)] assms(1) double_backoff_in [of "lfBackoff l"] unfolding life_inv_def
    by (metis insertE insertI1 singletonD)
  moreover have "lfConn l' = in_session (lfPhase l')"
    "lfOpen l' \<Longrightarrow> in_session (lfPhase l') \<or> lfPhase l' = Dialed"
    "lfAuth l' \<Longrightarrow> lfPhase l' = LoopTop \<or> lfPhase l' = Reading \<or> (\<exists>e. lfPhase l' = Closing e)"
    using assms by (simp_all add: loop_step_def life_inv_def split: phase.splits if_splits; fastforce?)+
  ultimately show ?thesis unfolding life_inv_def by blast
qed

lemma life_reach_inv: "life_reach l \<Longrightarrow> life_inv l"
proof (induction rule: life_reach.induct)
  case (reach_step l h l')
  then show ?case using loop_step_inv by blast
qed (auto simp: life_inv_def new_life_def life_start_def life_stop_def)

section \<open>Ending\<close>

text \<open>The steps a halted goroutine has left, at most.\<close>

fun steps_left :: "phase \<Rightarrow> nat" where
  "steps_left Dialing = 7"
| "steps_left Dialed = 6"
| "steps_left Banner = 5"
| "steps_left Login = 4"
| "steps_left Reading = 5"
| "steps_left LoopTop = 3"
| "steps_left (Closing e) = 2"
| "steps_left Waiting = 2"
| "steps_left AtTop = 1"
| "steps_left Failed = 1"
| "steps_left NotStarted = 0"
| "steps_left Ended = 0"

lemma loop_step_decreases:
  "loop_step h l = Some l' \<Longrightarrow> halted l \<Longrightarrow> halted l' \<and> steps_left (lfPhase l') < steps_left (lfPhase l)"
  by (cases "lfPhase l") (auto simp: loop_step_def halted_def split: if_splits)

fun life_run :: "happening list \<Rightarrow> life \<Rightarrow> life option" where
  "life_run [] l = Some l"
| "life_run (h # hs) l = (case loop_step h l of None \<Rightarrow> None | Some l' \<Rightarrow> life_run hs l')"

lemma life_run_bounded:
  "life_run hs l = Some l' \<Longrightarrow> halted l \<Longrightarrow> length hs + steps_left (lfPhase l') \<le> steps_left (lfPhase l)"
proof (induction hs arbitrary: l)
  case (Cons h hs)
  then obtain l1 where l1: "loop_step h l = Some l1" "life_run hs l1 = Some l'" by (auto split: option.splits)
  from loop_step_decreases [OF l1(1) Cons.prems(2)] Cons.IH [OF l1(2)] show ?case by simp
qed simp

text \<open>Who is waited for: nobody, the dialer (which has a timeout), or the peer of an open socket.\<close>

definition waits_for_peer :: "life \<Rightarrow> bool" where
  "waits_for_peer l \<longleftrightarrow> lfOpen l \<and> (lfPhase l = Banner \<or> lfPhase l = Login \<or> lfPhase l = Reading)"

definition own_step :: "life \<Rightarrow> happening" where
  "own_step l = (case lfPhase l of Dialing \<Rightarrow> DialFails | Banner \<Rightarrow> ReadFails | Login \<Rightarrow> WriteFails | Reading \<Rightarrow> ReadFails
     | _ \<Rightarrow> Runs)"

text \<open>\<open>own_step\<close> is what happens to a goroutine whose socket is closed and whose dial times out.\<close>

lemma own_step_enabled: "lfPhase l \<noteq> NotStarted \<Longrightarrow> lfPhase l \<noteq> Ended \<Longrightarrow> halted l \<Longrightarrow> loop_step (own_step l) l \<noteq> None"
  by (cases "lfPhase l") (auto simp: loop_step_def own_step_def)

text \<open>A halted goroutine that is not dialling does not get a connection any more.\<close>

definition disconnected :: "life \<Rightarrow> bool" where
  "disconnected l \<longleftrightarrow> halted l \<and> \<not> lfOpen l \<and> lfPhase l \<noteq> Dialing \<and> lfPhase l \<noteq> Dialed"

lemma loop_step_disconnected: "disconnected l \<Longrightarrow> loop_step h l = Some l' \<Longrightarrow> disconnected l'"
  by (cases "lfPhase l") (auto simp: loop_step_def disconnected_def halted_def split: if_splits)

lemma life_run_disconnected: "life_run hs l = Some l' \<Longrightarrow> disconnected l \<Longrightarrow> disconnected l'"
  by (induction hs arbitrary: l) (auto split: option.splits dest: loop_step_disconnected)

lemma life_run_halted: "life_run hs l = Some l' \<Longrightarrow> halted l \<Longrightarrow> halted l'"
  by (induction hs arbitrary: l) (auto split: option.splits dest: loop_step_decreases)

lemma life_run_reach: "life_run hs l = Some l' \<Longrightarrow> life_reach l \<Longrightarrow> life_reach l'"
  by (induction hs arbitrary: l) (auto split: option.splits intro: reach_step)

lemma life_run_started: "life_run hs l = Some l' \<Longrightarrow> lfPhase l \<noteq> NotStarted \<Longrightarrow> lfPhase l' \<noteq> NotStarted"
proof (induction hs arbitrary: l)
  case (Cons h hs)
  then obtain l1 where l1: "loop_step h l = Some l1" "life_run hs l1 = Some l'" by (auto split: option.splits)
  have "lfPhase l1 \<noteq> NotStarted"
    using l1(1) Cons.prems(2) by (cases "lfPhase l") (auto simp: loop_step_def split: if_splits)
  with Cons.IH [OF l1(2)] show ?case by blast
qed simp

section \<open>Properties\<close>

text \<open>C30: a stopped client ends: from the call of Stop on its goroutine makes at most seven steps,
  whatever it meets; unless the call fell into the time it was dialling it waits for nobody but the dialer,
  its socket being closed, and once it has ended no connection is open, assigned, or called authenticated.\<close>

theorem stopped_client_ends:
  assumes "life_reach l" and "lfPhase l \<noteq> NotStarted" and "life_run hs (life_stop l) = Some l'"
  shows "length hs \<le> 7
    \<and> (lfPhase l' = Ended \<or> loop_step (own_step l') l' \<noteq> None)
    \<and> (lfPhase l \<noteq> Dialing \<and> lfPhase l \<noteq> Dialed \<and> \<not> lfQuit l \<longrightarrow> \<not> waits_for_peer l')
    \<and> (lfPhase l' = Ended \<longrightarrow> \<not> lfOpen l' \<and> \<not> lfConn l' \<and> \<not> lfAuth l')"
proof -
  have halted: "halted (life_stop l)" by (auto simp: life_stop_def halted_def)
  have "steps_left (lfPhase (life_stop l)) \<le> 7" by (cases "lfPhase (life_stop l)") simp_all
  with life_run_bounded [OF assms(3) halted] have "length hs \<le> 7" by simp
  moreover have "lfPhase (life_stop l) \<noteq> NotStarted" using assms(2) by (simp add: life_stop_def)
  from own_step_enabled [OF life_run_started [OF assms(3) this] _ life_run_halted [OF assms(3) halted]]
  have "lfPhase l' = Ended \<or> loop_step (own_step l') l' \<noteq> None" by blast
  moreover have "\<not> waits_for_peer l'" if "lfPhase l \<noteq> Dialing" "lfPhase l \<noteq> Dialed" "\<not> lfQuit l"
  proof -
    have "disconnected (life_stop l)"
      using that life_reach_inv [OF assms(1)] by (auto simp: disconnected_def halted_def life_stop_def life_inv_def)
    from life_run_disconnected [OF assms(3) this] show ?thesis by (simp add: disconnected_def waits_for_peer_def)
  qed
  moreover have "life_inv l'"
    by (rule life_reach_inv [OF life_run_reach [OF assms(3) reach_stop [OF assms(1)]]])
  ultimately show ?thesis by (auto simp: life_inv_def)
qed

lemma stopped_client_ends_witness:
  "\<exists>l l'. life_run [Runs, DialOk, Runs, Line, WriteOk, Runs, LineAccepts, Runs] (life_start new_life) = Some l \<and> lfAuth l
     \<and> life_run [Line, Runs, Runs, Runs] (life_stop l) = Some l' \<and> lfPhase l' = Ended \<and> \<not> lfOpen l' \<and> \<not> lfConn l' \<and> \<not> lfAuth l'"
proof -
  obtain l where l: "life_run [Runs, DialOk, Runs, Line, WriteOk, Runs, LineAccepts, Runs] (life_start new_life) = Some l"
    "lfAuth l" "lfPhase l = Reading" "\<not> lfQuit l"
    by (simp add: loop_step_def new_life_def life_start_def halted_def)
  have reach: "life_reach l" by (rule life_run_reach [OF l(1) reach_start [OF reach_new]])
  obtain l' where l': "life_run [Line, Runs, Runs, Runs] (life_stop l) = Some l'" "lfPhase l' = Ended"
    using l(3,4) by (simp add: loop_step_def life_stop_def halted_def)
  from stopped_client_ends [OF reach _ l'(1)] l(3) l'(2) have "\<not> lfOpen l' \<and> \<not> lfConn l' \<and> \<not> lfAuth l'" by simp
  with l l' show ?thesis by blast
qed

text \<open>The connection exists exactly during a session, and the wait between two attempts stays among the
  powers of two up to 64 seconds, in every state of every client.\<close>

lemma connection_tracks_session:
  assumes "life_reach l"
  shows "lfConn l = in_session (lfPhase l) \<and> (lfAuth l \<longrightarrow> lfConn l) \<and> lfBackoff l \<in> {1, 2, 4, 8, 16, 32, 64}"
  using life_reach_inv [OF assms] by (auto simp: life_inv_def)

text \<open>A client that is stopped while it dials takes the connection all the same and waits for the banner
  on an open socket, for which no deadline is set and which nobody closes.\<close>

lemma stopped_while_dialing:
  "\<exists>l. life_run [DialOk, Runs] (life_stop (the (life_run [Runs] (life_start new_life)))) = Some l
     \<and> lfQuit l \<and> lfPhase l = Banner \<and> waits_for_peer l"
  by (simp add: loop_step_def new_life_def life_start_def life_stop_def halted_def waits_for_peer_def)

end
