(* ===== verification/Spec2Isabelle.thy ===== *)
theory Spec2Isabelle
  imports State_Props Server_Stats_Props Ami_Props Backup_File Favorites_Ini Db_Readable Asl_Fetcher
    Server_Routes Server_Users Server_Nodes Server_Listen Server_Commands Server_Favorites Server_Profile
    Server_Events Server_Backup Server_Qrz Server_Passkeys Server_New Cli_Commands Cli_Main Mdns Server_Run Ami_Lifecycle Ami_Calls
begin

text \<open>
  A verification development for YAAMon, the AllStarLink node monitor: a Go server that holds one
  Asterisk Manager (AMI) connection per node, polls statistics and link state, keeps accounts, nodes
  and favorites in an SQLite file, and shows and controls the nodes in a browser.

  \<^bold>\<open>The parts and how they interact.\<close> The command line (\<open>cmd/yaamon\<close>) loads a configuration
  (\<open>internal/config\<close>), opens the database (\<open>internal/db\<close>), and either administers it, applies a
  state file to it (\<open>internal/state\<close>), writes or restores a backup of it (\<open>internal/backup\<close>), or
  serves. \<open>internal/server\<close> makes a server from both: it answers HTTP requests behind a chain of
  middlewares (origin check, sessions of \<open>internal/auth\<close>, proxy identities, setup guard), starts and
  stops the AMI clients of \<open>internal/ami\<close> (which dial through \<open>internal/mdns\<close>) as nodes change, polls
  \<open>internal/aslstats\<close>, \<open>internal/astdb\<close> and the nodes, looks callsigns up with \<open>internal/qrz\<close>, and
  publishes to browsers through \<open>internal/sse\<close>.

  \<^bold>\<open>How the code is translated.\<close> A Go struct is a record, a row of a table too; the whole database is
  the record \<open>store\<close>, and an operation on it gives its result and the new store. A returned error is the
  left of a sum or \<open>Some\<close> text, with the database as it is when the error leaves the function. A handler
  takes the parts of the request it reads and gives its \<open>reply\<close> and the state it changes. A Go string is
  a list of bytes (\<open>char\<close>); a Go map is an association list with distinct keys, and what iterates over
  one takes it in the order of the list, so that a property for every list holds for every order. Integers
  have their width where arithmetic on them can wrap (the manifest length of a backup, the bits of a
  \<open>float64\<close>) and are \<open>int\<close> or \<open>nat\<close> otherwise. What goroutines do is sequences of atomic steps, given
  as step relations or lists of events that a property quantifies over; a ticker is a list of ticks, each
  with what the poll it starts meets. Times are integers, seconds or nanoseconds as each theory says.

  \<^bold>\<open>The theories, by component.\<close>
    \<^item> Library: \<open>Prelude\<close> (theorem collections, the bind of early returns, list facts), \<open>Go_Strings\<close>
      (\<open>strings\<close>, \<open>strconv\<close>, \<open>bufio\<close>), \<open>Base64\<close>, \<open>Channels\<close> (buffered channels with a dropping send:
      locale \<open>dropping_channel\<close>), \<open>Http\<close> (requests and replies).
    \<^item> \<open>internal/db\<close>: \<open>Db_Tables\<close> (rows, tables with AUTOINCREMENT keys: locale \<open>row_ids\<close>, the store and
      its invariant \<open>store_ok\<close>), \<open>Db_Users\<close>, \<open>Db_Nodes\<close>, \<open>Db_Passkeys\<close> (with the migration loop of
      \<open>db.go\<close>), \<open>Db_Migrations\<close>, \<open>Db_Upgrade\<close> and \<open>Db_Readable\<close> (the eleven migrations over a small
      model of SQL tables: they take a database of any release to the current schema with its rows, which
      can then be scanned, unless a stored Tailscale login has a quote, backslash or control character).
      Every operation is shown to keep \<open>store_ok\<close>, the keys and references of the schema.
    \<^item> \<open>internal/state\<close>: \<open>State_Apply\<close> (\<open>Load\<close> and \<open>Apply\<close>), \<open>State_Reconcile\<close> (locales \<open>steady\<close> and
      \<open>reconcile\<close> for the loops over specs), \<open>State_Nodes\<close> (their interpretations), \<open>State_Props\<close>: a run
      of a file that names nothing twice reaches the described state, field by field, a second one changes
      nothing, and no run takes the last superuser.
    \<^item> \<open>internal/auth\<close>: \<open>Passwords\<close>, \<open>Auth_Session\<close>: tokens round trip, and only signed ones are accepted.
    \<^item> \<open>internal/backup\<close>: \<open>Backup_File\<close> (the file format, create and restore, as the states the files go through with the temporary file among them: the database
      file is the old one or the new one at every moment),
      \<open>Favorites_Ini\<close> (favorites and Allmon3 files).
    \<^item> \<open>internal/ami\<close>, \<open>internal/mdns\<close>: \<open>Ami_Client\<close>, \<open>Ami_Props\<close> (wire format, routing of responses), \<open>Ami_Lifecycle\<close>
      (the client's goroutine as a state machine: a stopped one ends),
      \<open>Ami_Calls\<close> (whole calls and the connection test), \<open>Ami_Manager\<close>, \<open>Mdns\<close>.
    \<^item> \<open>internal/sse\<close>: \<open>Sse_Broker\<close>, a publisher interleaved with subscribers and cancels.
    \<^item> \<open>internal/aslstats\<close>, \<open>internal/astdb\<close>, \<open>internal/qrz\<close>: \<open>Asl_Fetcher\<close>, \<open>Ast_Db\<close>, \<open>Qrz_Client\<close>.
    \<^item> \<open>internal/config\<close>, \<open>internal/tls\<close>: \<open>Server_Config\<close>, \<open>Server_Listen\<close>.
    \<^item> \<open>internal/server\<close>, by file: \<open>Server_Security\<close> (\<open>security.go\<close>; logins in parallel as separate steps of check and record), \<open>Server_ProxyAuth\<close>
      (\<open>proxyauth.go\<close>), \<open>Server_Login\<close> (\<open>handlers.go\<close>), \<open>Server_Users\<close>, \<open>Server_Nodes\<close>,
      \<open>Server_Favorites\<close>, \<open>Server_Profile\<close> (with \<open>favicon.go\<close>), \<open>Server_Passkeys\<close>, \<open>Server_Qrz\<close>,
      \<open>Server_Commands\<close>, \<open>Server_Backup\<close>, \<open>Server_Links\<close>, \<open>Server_Stats\<close> and \<open>Server_Stats_Props\<close>,
      \<open>Server_Sse\<close> (the event stream of a browser, with the two steps of every poll interleaved with
      publications, events and other browsers), \<open>Server_Events\<close> (with \<open>connections.go\<close>), \<open>Server_Routes\<close> (the routes and the chain of \<open>Run\<close>),
      \<open>Server_New\<close> (\<open>New\<close>, which puts the others together) and \<open>Server_Run\<close> (templates, the base path, the
      pollers as instances of the locale \<open>periodic\<close>, the shutdown).
    \<^item> \<open>cmd/yaamon\<close>: \<open>Cli_Commands\<close> (\<open>user\<close> and \<open>node\<close>), \<open>Cli_Main\<close> (the other commands).

  \<^bold>\<open>What the properties show\<close>, in the order of importance: who may reach a handler, and that the running
  AMI clients follow the database; accounts, logins and sessions; what is served in the clear; commands to
  nodes; delivery of events and responses; the upgrade of a database and the declarative state file; stored
  credentials, files and formats; and starting, configuring and administering the program. Each stands,
  with its number, in the theory of the component it is about. The database invariant \<open>store_ok\<close> runs
  through all of them.

  \<^bold>\<open>Parameters.\<close> What is not under \<open>src/\<close> is an argument of the definitions that use it, mostly as a field
  of an environment record: bcrypt, HMAC-SHA256, SHA-256, AES-GCM and Argon2, the JSON, YAML, XML and
  tar.gz coders, X.509, viper, cobra, \<open>html/template\<close>, the chi router, the WebAuthn library, \<open>dnsmessage\<close>, the URL parser, HTTP
  exchanges, random bytes, and the outcome of operations on files. Where a property relies on one, as that
  decoding inverts encoding, the law is a hypothesis of it and its witness has an instance.

  \<^bold>\<open>Bounds and fuel.\<close> Loops of the code that end are total functions: by structural recursion, or with a
  measure on the input that is left. Those that need not end are step relations or lists of the events
  they see, and \<open>Mdns.read_loop\<close> is a partial function whose return is a property. Case mapping is given
  for ASCII letters only, as the code applies it to host names, header values and node data.

  \<^bold>\<open>Not modelled.\<close> HTML templates, scripts and styles (a page is the data it is given); sockets and
  their time limits; the request middlewares of the chi library; SQLite itself (locking, WAL, VACUUM), a failing disk and cancelled contexts; log
  output; \<open>main.go\<close> and the version files.
\<close>

end
